theory Spec2Isabelle
  imports Main "HOL-Library.AList" "HOL-Library.Sublist"
begin

section \<open>JavaScript values shared by the server files and the workers\<close>

text \<open>
  A JavaScript \<^verbatim>\<open>Map\<close> iterates in insertion order; \<^verbatim>\<open>set\<close> on a key that is present
  keeps the key's position and \<^verbatim>\<open>set\<close> on a new key appends it. The model is an association
  list in insertion order: \<^verbatim>\<open>get\<close> is \<open>map_of\<close>, \<^verbatim>\<open>set\<close> is \<open>AList.update\<close>,
  \<^verbatim>\<open>delete\<close> is \<open>AList.delete\<close>, \<^verbatim>\<open>size\<close> is \<open>length\<close> and
  \<^verbatim>\<open>keys().next().value\<close> is the first key (\<^verbatim>\<open>undefined\<close>, here \<open>None\<close>, on an empty
  map). Times are the integer milliseconds of \<^verbatim>\<open>Date.now()\<close>; every reading of the clock
  is an explicit argument.
\<close>

type_synonym ('k, 'v) jsmap = "('k \<times> 'v) list"

abbreviation map_get :: "('k, 'v) jsmap \<Rightarrow> 'k \<Rightarrow> 'v option" where
  "map_get m k \<equiv> map_of m k"

abbreviation map_set :: "('k, 'v) jsmap \<Rightarrow> 'k \<Rightarrow> 'v \<Rightarrow> ('k, 'v) jsmap" where
  "map_set m k v \<equiv> AList.update k v m"

abbreviation map_delete :: "('k, 'v) jsmap \<Rightarrow> 'k \<Rightarrow> ('k, 'v) jsmap" where
  "map_delete m k \<equiv> AList.delete k m"

definition first_key :: "('k, 'v) jsmap \<Rightarrow> 'k option" where
  "first_key m = (case m of [] \<Rightarrow> None | (k, _) # _ \<Rightarrow> Some k)"

text \<open>\<^verbatim>\<open>m.delete(m.keys().next().value)\<close>: deleting \<^verbatim>\<open>undefined\<close> from an empty map does nothing.\<close>

definition delete_first :: "('k, 'v) jsmap \<Rightarrow> ('k, 'v) jsmap" where
  "delete_first m = (case first_key m of None \<Rightarrow> m | Some k \<Rightarrow> map_delete m k)"

text \<open>
  A JavaScript number that is an integer or \<^verbatim>\<open>Infinity\<close>: \<^verbatim>\<open>Math.min()\<close> of no arguments is
  \<^verbatim>\<open>Infinity\<close>, and \<^verbatim>\<open>Infinity\<close> plus a finite number is \<^verbatim>\<open>Infinity\<close>.
\<close>

datatype jsnum = Fin int | Infinity

fun math_min :: "int list \<Rightarrow> jsnum" where
  "math_min [] = Infinity"
| "math_min (x # xs) = (case math_min xs of Infinity \<Rightarrow> Fin x | Fin m \<Rightarrow> Fin (min x m))"

fun js_add :: "jsnum \<Rightarrow> int \<Rightarrow> jsnum" where
  "js_add (Fin a) b = Fin (a + b)"
| "js_add Infinity b = Infinity"

fun js_sub :: "jsnum \<Rightarrow> int \<Rightarrow> jsnum" where
  "js_sub (Fin a) b = Fin (a - b)"
| "js_sub Infinity b = Infinity"

text \<open>\<^verbatim>\<open>Math.ceil(x / 1000)\<close> on an integer number of milliseconds.\<close>

definition ceil_ms :: "int \<Rightarrow> int" where
  "ceil_ms a = - ((- a) div 1000)"

fun ceil_seconds :: "jsnum \<Rightarrow> jsnum" where
  "ceil_seconds (Fin a) = Fin (ceil_ms a)"
| "ceil_seconds Infinity = Infinity"

text \<open>\<^verbatim>\<open>String.prototype.includes\<close>, \<^verbatim>\<open>startsWith\<close> and \<^verbatim>\<open>endsWith\<close>.\<close>

definition str_includes :: "string \<Rightarrow> string \<Rightarrow> bool" where
  "str_includes s part = sublist part s"

definition startsWith :: "string \<Rightarrow> string \<Rightarrow> bool" where
  "startsWith s part = prefix part s"

definition endsWith :: "string \<Rightarrow> string \<Rightarrow> bool" where
  "endsWith s part = suffix part s"

section \<open>The rate limiter class (src/api/rate-limit.js)\<close>

record 'id RateLimiter =
  maxRequests :: int
  windowMs :: int
  requests :: "('id, int list) jsmap"

definition new_RateLimiter :: "int \<Rightarrow> int \<Rightarrow> 'id RateLimiter" where
  "new_RateLimiter mx w = \<lparr>maxRequests = mx, windowMs = w, requests = []\<rparr>"

record check_result =
  allowed :: bool
  remaining :: int
  resetAt :: jsnum

definition check :: "'id RateLimiter \<Rightarrow> 'id \<Rightarrow> int \<Rightarrow> check_result \<times> 'id RateLimiter" where
  "check this identifier now =
     (let windowStart = now - windowMs this;
          cleaned = (case map_get (requests this) identifier of
                       Some ts \<Rightarrow> map_set (requests this) identifier (filter (\<lambda>t. t > windowStart) ts)
                     | None \<Rightarrow> requests this);
          reqs = (case map_get cleaned identifier of Some ts \<Rightarrow> ts | None \<Rightarrow> [])
      in if int (length reqs) \<ge> maxRequests this
         then (\<lparr>allowed = False, remaining = 0,
                 resetAt = js_add (math_min reqs) (windowMs this)\<rparr>,
               this\<lparr>requests := cleaned\<rparr>)
         else (let pushed = reqs @ [now]
               in (\<lparr>allowed = True, remaining = maxRequests this - int (length pushed),
                     resetAt = Fin (now + windowMs this)\<rparr>,
                   this\<lparr>requests := map_set cleaned identifier pushed\<rparr>)))"

definition reset :: "'id RateLimiter \<Rightarrow> 'id \<Rightarrow> 'id RateLimiter" where
  "reset this identifier = this\<lparr>requests := map_delete (requests this) identifier\<rparr>"

text \<open>
  \<^verbatim>\<open>cleanup\<close> walks the entries; it deletes or rewrites only the entry it is visiting, so the walk
  is a fold over the entries present at the start.
\<close>

definition cleanup_entry :: "int \<Rightarrow> ('id, int list) jsmap \<Rightarrow> 'id \<times> int list \<Rightarrow> ('id, int list) jsmap" where
  "cleanup_entry windowStart m e =
     (let validTimestamps = filter (\<lambda>t. t > windowStart) (snd e)
      in if length validTimestamps = 0 then map_delete m (fst e)
         else map_set m (fst e) validTimestamps)"

definition cleanup :: "'id RateLimiter \<Rightarrow> int \<Rightarrow> 'id RateLimiter" where
  "cleanup this now =
     (let windowStart = now - windowMs this
      in this\<lparr>requests := foldl (cleanup_entry windowStart) (requests this) (requests this)\<rparr>)"

text \<open>
  A history of the limiter: calls of \<^verbatim>\<open>check\<close> and runs of the periodic \<^verbatim>\<open>cleanup\<close>, each with
  the clock reading it sees. \<open>run\<close> threads the limiter through a history and logs, for every
  \<^verbatim>\<open>check\<close>, the identifier, the clock reading and the result returned.
\<close>

datatype 'id event = Check 'id int | Cleanup int

fun event_time :: "'id event \<Rightarrow> int" where
  "event_time (Check i t) = t"
| "event_time (Cleanup t) = t"

type_synonym 'id log = "('id \<times> int \<times> check_result) list"

fun exec :: "'id RateLimiter \<times> 'id log \<Rightarrow> 'id event \<Rightarrow> 'id RateLimiter \<times> 'id log" where
  "exec (this, log) (Check i t) = (let (r, this') = check this i t in (this', log @ [(i, t, r)]))"
| "exec (this, log) (Cleanup t) = (cleanup this t, log)"

definition run :: "'id RateLimiter \<Rightarrow> 'id event list \<Rightarrow> 'id RateLimiter \<times> 'id log" where
  "run this evs = foldl exec (this, []) evs"

text \<open>The results of the admitted calls of one identifier, and the times of those calls.\<close>

definition admitted_results :: "'id log \<Rightarrow> 'id \<Rightarrow> check_result list" where
  "admitted_results log i = map (\<lambda>(j, t, r). r) (filter (\<lambda>(j, t, r). j = i \<and> allowed r) log)"

definition admitted_times :: "'id log \<Rightarrow> 'id \<Rightarrow> int list" where
  "admitted_times log i = map (\<lambda>(j, t, r). t) (filter (\<lambda>(j, t, r). j = i \<and> allowed r) log)"

text \<open>The window the limiter holds for an identifier (empty when it holds none).\<close>

definition window_of :: "'id RateLimiter \<Rightarrow> 'id \<Rightarrow> int list" where
  "window_of this i = (case map_get (requests this) i of Some ts \<Rightarrow> ts | None \<Rightarrow> [])"

section \<open>The consolidated handler (src/unnamed/part_001): cache and rate limit\<close>

definition CACHE_TTL :: int where
  "CACHE_TTL = 5 * 60 * 1000"

definition MAX_CACHE_SIZE :: nat where
  "MAX_CACHE_SIZE = 100"

definition RATE_WINDOW :: int where
  "RATE_WINDOW = 60000"

definition MAX_REQUESTS :: nat where
  "MAX_REQUESTS = 30"

text \<open>
  A cache entry \<^verbatim>\<open>{ data, timestamp }\<close>. The payloads the handlers store are arrays and
  objects, which are never \<^verbatim>\<open>null\<close>; a miss, \<^verbatim>\<open>null\<close> in the source, is \<open>None\<close>.
\<close>

record 'v cache_item =
  data :: 'v
  timestamp :: int

text \<open>
  \<^verbatim>\<open>getCacheKey(sheet, action)\<close>: a missing or empty \<^verbatim>\<open>action\<close> is falsy; a \<^verbatim>\<open>null\<close> sheet
  prints as \<^verbatim>\<open>null\<close> in the template.
\<close>

definition truthy :: "string option \<Rightarrow> bool" where
  "truthy s = (case s of None \<Rightarrow> False | Some v \<Rightarrow> v \<noteq> [])"

definition getCacheKey :: "string option \<Rightarrow> string option \<Rightarrow> string" where
  "getCacheKey sheet action =
     (case action of
        Some a \<Rightarrow> if a \<noteq> [] then a else ''sheet:'' @ (case sheet of None \<Rightarrow> ''null'' | Some s \<Rightarrow> s)
      | None \<Rightarrow> ''sheet:'' @ (case sheet of None \<Rightarrow> ''null'' | Some s \<Rightarrow> s))"

definition getCache :: "('k, 'v cache_item) jsmap \<Rightarrow> 'k \<Rightarrow> int \<Rightarrow> 'v option \<times> ('k, 'v cache_item) jsmap" where
  "getCache cache key now =
     (case map_get cache key of
        None \<Rightarrow> (None, cache)
      | Some item \<Rightarrow>
          if now - timestamp item > CACHE_TTL then (None, map_delete cache key)
          else (Some (data item), cache))"

definition setCache :: "('k, 'v cache_item) jsmap \<Rightarrow> 'k \<Rightarrow> 'v \<Rightarrow> int \<Rightarrow> ('k, 'v cache_item) jsmap" where
  "setCache cache key d now =
     (let cache1 = (if length cache \<ge> MAX_CACHE_SIZE then delete_first cache else cache)
      in map_set cache1 key \<lparr>data = d, timestamp = now\<rparr>)"

definition cleanCache :: "('k, 'v cache_item) jsmap \<Rightarrow> int \<Rightarrow> ('k, 'v cache_item) jsmap" where
  "cleanCache cache now =
     foldl (\<lambda>m (key, v). if now - timestamp v > CACHE_TTL then map_delete m key else m) cache cache"

definition checkRateLimit :: "('ip, int list) jsmap \<Rightarrow> 'ip \<Rightarrow> int \<Rightarrow> bool \<times> ('ip, int list) jsmap" where
  "checkRateLimit rateLimits ip now =
     (let userRequests = (case map_get rateLimits ip of Some ts \<Rightarrow> ts | None \<Rightarrow> []);
          validRequests = filter (\<lambda>t. now - t < RATE_WINDOW) userRequests
      in if length validRequests \<ge> MAX_REQUESTS then (False, rateLimits)
         else (let stored = map_set rateLimits ip (validRequests @ [now])
               in (True, if length stored > 1000 then delete_first stored else stored)))"

text \<open>
  A history of calls of \<^verbatim>\<open>checkRateLimit\<close> on the module's map, which starts empty: each call
  with its address and clock reading; the log keeps the boolean returned.
\<close>

fun exec_check :: "('ip, int list) jsmap \<times> ('ip \<times> int \<times> bool) list \<Rightarrow> 'ip \<times> int
                   \<Rightarrow> ('ip, int list) jsmap \<times> ('ip \<times> int \<times> bool) list" where
  "exec_check (rateLimits, log) (ip, t) =
     (let (ok, rateLimits') = checkRateLimit rateLimits ip t in (rateLimits', log @ [(ip, t, ok)]))"

definition run_checks :: "('ip \<times> int) list \<Rightarrow> ('ip, int list) jsmap \<times> ('ip \<times> int \<times> bool) list" where
  "run_checks calls = foldl exec_check ([], []) calls"

definition passed_times :: "('ip \<times> int \<times> bool) list \<Rightarrow> 'ip \<Rightarrow> int list" where
  "passed_times log ip = map (\<lambda>(j, t, ok). t) (filter (\<lambda>(j, t, ok). j = ip \<and> ok) log)"

definition stored_window :: "('ip, int list) jsmap \<Rightarrow> 'ip \<Rightarrow> int list" where
  "stored_window rateLimits ip = (case map_get rateLimits ip of Some ts \<Rightarrow> ts | None \<Rightarrow> [])"

text \<open>
  A history that fills the map: the client \<^verbatim>\<open>a\<close> calls 29 times, a crowd of 1000 other
  clients call once each, then \<^verbatim>\<open>a\<close> calls once more, all at clock reading 0. The addresses
  are what the handler reads from the forwarded-for header, which the client writes. And a
  full map, in which each of the crowd has thirty requests at time 0.
\<close>

definition crowd :: "string list" where
  "crowd = map (\<lambda>k. replicate (Suc k) (CHR ''x'')) [0..<1000]"

definition evict_calls :: "(string \<times> int) list" where
  "evict_calls = replicate 29 (''a'', 0) @ map (\<lambda>k. (k, 0)) crowd @ [(''a'', 0)]"

definition crowded_map :: "(string, int list) jsmap" where
  "crowded_map = map (\<lambda>k. (k, replicate 30 0)) crowd"

text \<open>
  A full cache for the examples: one hundred sheet entries, inserted in the order of their
  key lengths, all written at time 0.
\<close>

definition full_cache :: "(string, nat cache_item) jsmap" where
  "full_cache = map (\<lambda>k. (''sheet:'' @ replicate (Suc k) (CHR ''x''), \<lparr>data = k, timestamp = 0\<rparr>)) [0..<100]"

section \<open>The first sheets handler (src/api/sheets.js): cache and rate limit\<close>

definition CACHE_DURATION :: int where
  "CACHE_DURATION = 5 * 60 * 1000"

definition RATE_LIMIT_WINDOW :: int where
  "RATE_LIMIT_WINDOW = 60000"

definition MAX_REQUESTS_PER_MINUTE :: nat where
  "MAX_REQUESTS_PER_MINUTE = 30"

text \<open>
  \<^verbatim>\<open>checkRateLimit\<close> of src/api/sheets.js. \<^verbatim>\<open>requests.push(now)\<close> extends the array that was just
  stored in the map, so the stored window ends with \<open>now\<close> after an admitted call.
\<close>

definition sheets_checkRateLimit :: "('ip, int list) jsmap \<Rightarrow> 'ip \<Rightarrow> int \<Rightarrow> bool \<times> ('ip, int list) jsmap" where
  "sheets_checkRateLimit rateLimitMap ip now =
     (let windowStart = now - RATE_LIMIT_WINDOW;
          init = (case map_get rateLimitMap ip of None \<Rightarrow> map_set rateLimitMap ip [] | Some _ \<Rightarrow> rateLimitMap);
          reqs = filter (\<lambda>time. time > windowStart) (case map_get init ip of Some ts \<Rightarrow> ts | None \<Rightarrow> []);
          stored = map_set init ip reqs
      in if length reqs \<ge> MAX_REQUESTS_PER_MINUTE then (False, stored)
         else (True, map_set stored ip (reqs @ [now])))"

definition cleanExpiredCache :: "('k, 'v cache_item) jsmap \<Rightarrow> int \<Rightarrow> ('k, 'v cache_item) jsmap" where
  "cleanExpiredCache serverCache now =
     foldl (\<lambda>m (key, v). if now - timestamp v > CACHE_DURATION then map_delete m key else m)
       serverCache serverCache"

text \<open>
  \<^verbatim>\<open>getCachedData(cacheKey, fetchFunction)\<close>. The outcome of \<^verbatim>\<open>fetchFunction()\<close>, should it be
  called, is an argument: \<open>Inl\<close> the message of the error it throws, \<open>Inr\<close> the data it
  returns. The result is what the call returns or throws, the cache afterwards, and whether
  \<^verbatim>\<open>fetchFunction\<close> was called (the miss). The one clock reading \<open>now\<close> is taken before the
  fetch and is the timestamp stored.
\<close>

definition getCachedData ::
  "('k, 'v cache_item) jsmap \<Rightarrow> 'k \<Rightarrow> string + 'v \<Rightarrow> int \<Rightarrow> (string + 'v) \<times> ('k, 'v cache_item) jsmap \<times> bool" where
  "getCachedData serverCache cacheKey fetched now =
     (let miss = (case fetched of
                    Inl err \<Rightarrow> (Inl err, serverCache, True)
                  | Inr d \<Rightarrow> (Inr d, map_set serverCache cacheKey \<lparr>data = d, timestamp = now\<rparr>, True))
      in case map_get serverCache cacheKey of
           Some cached \<Rightarrow>
             if now - timestamp cached < CACHE_DURATION then (Inr (data cached), serverCache, False)
             else miss
         | None \<Rightarrow> miss)"

section \<open>The service worker (src/sw.js)\<close>

text \<open>
  Text is ASCII or one of the Khmer literals of the source; a Khmer literal is kept as an
  English gloss under the constructor \<open>Khmer\<close>. JSON values are the bodies the workers and
  the handlers build.
\<close>

datatype phrase = Ascii string | Khmer string

datatype json =
  JNull
| JString phrase
| JBool bool
| JNumber jsnum
| JArray "json list"
| JObject "(string \<times> json) list"

text \<open>
  A \<^verbatim>\<open>Response\<close>: its body is opaque bytes from the network, a text the worker writes, or
  the \<^verbatim>\<open>JSON.stringify\<close> of an object the worker builds. A \<^verbatim>\<open>Request\<close> carries its method,
  its URL, which is the key of the cache stores, the parts of the parsed URL the worker looks
  at, and its destination.
\<close>

datatype content = Bytes string | Phrase phrase | Stringified json

record response =
  status :: nat
  statusText :: string
  headers :: "(string \<times> string) list"
  body :: content

record request =
  http_method :: string
  url :: string
  origin :: string
  hostname :: string
  pathname :: string
  destination :: string

text \<open>\<^verbatim>\<open>fetch(request)\<close> rejects or resolves with a response.\<close>

datatype fetch_outcome = Failed | Fetched response

text \<open>\<^verbatim>\<open>response.ok\<close>, by the status.\<close>

definition response_ok :: "nat \<Rightarrow> bool" where
  "response_ok st = (200 \<le> st \<and> st \<le> 299)"

text \<open>
  What the promise that a strategy hands to \<^verbatim>\<open>respondWith\<close> settles to: it rejects, or it
  resolves with a response or with \<^verbatim>\<open>undefined\<close> (\<open>Resolved None\<close>). The browser fails the
  request in both cases but \<open>Resolved (Some r)\<close>.
\<close>

datatype settled = Rejected | Resolved "response option"

text \<open>
  The names of headers are compared without regard to the case of their letters. The value
  of a header is the values of the headers of that name, joined by a comma and a space.
  \<^verbatim>\<open>Headers.set\<close> gives the first header of that name the new value and removes the others
  of that name, or appends the header when there is none.
\<close>

definition lower :: "char \<Rightarrow> char" where
  "lower c = (case map_of (zip ''ABCDEFGHIJKLMNOPQRSTUVWXYZ'' ''abcdefghijklmnopqrstuvwxyz'') c of
                Some l \<Rightarrow> l
              | None \<Rightarrow> c)"

definition same_name :: "string \<Rightarrow> string \<Rightarrow> bool" where
  "same_name a b = (map lower a = map lower b)"

fun join_values :: "string list \<Rightarrow> string" where
  "join_values [] = []"
| "join_values [v] = v"
| "join_values (v # w # vs) = v @ '', '' @ join_values (w # vs)"

definition header_get :: "(string \<times> string) list \<Rightarrow> string \<Rightarrow> string option" where
  "header_get hs name =
     (case filter (\<lambda>h. same_name (fst h) name) hs of
        [] \<Rightarrow> None
      | found \<Rightarrow> Some (join_values (map snd found)))"

fun headers_set :: "(string \<times> string) list \<Rightarrow> string \<Rightarrow> string \<Rightarrow> (string \<times> string) list" where
  "headers_set [] name v = [(name, v)]"
| "headers_set (h # hs) name v =
     (if same_name (fst h) name then (fst h, v) # filter (\<lambda>h'. \<not> same_name (fst h') name) hs
      else h # headers_set hs name v)"

text \<open>
  \<^verbatim>\<open>new Response(body, { status, statusText, headers })\<close> throws a \<^verbatim>\<open>RangeError\<close> (\<open>None\<close>) for
  a status outside 200 to 599. The worker calls it with the parts of a response that came
  from the network, whose status text and headers the constructor accepts, and whose body
  is empty when the status allows none.
\<close>

definition new_Response :: "content \<Rightarrow> nat \<Rightarrow> string \<Rightarrow> (string \<times> string) list \<Rightarrow> response option" where
  "new_Response b st stText hs =
     (if st < 200 \<or> 599 < st then None
      else Some \<lparr>status = st, statusText = stText, headers = hs, body = b\<rparr>)"

text \<open>
  The three named stores \<^verbatim>\<open>CACHE_STATIC\<close>, \<^verbatim>\<open>CACHE_DYNAMIC\<close> and \<^verbatim>\<open>CACHE_API\<close>, each a map from
  URL to response, and whether the origin has used up its storage quota. \<^verbatim>\<open>caches.open\<close>
  resolves with the store; a store that was never written to is empty.

  \<^verbatim>\<open>cache.match(request)\<close> looks the URL up, and resolves with \<^verbatim>\<open>undefined\<close> for a request
  whose method is not GET; a path such as \<^verbatim>\<open>'/index.html'\<close> is a GET request for the URL resolved
  against the worker's own origin.

  \<^verbatim>\<open>cache.put(request, response)\<close> stores under the request's URL. It rejects (\<open>None\<close>), and
  stores nothing, when the method of the request is not GET, when its URL is not an HTTP
  URL, when the status of the response is 206, when the \<^verbatim>\<open>Vary\<close> header of the response
  lists \<^verbatim>\<open>*\<close>, and when the quota is used up.
\<close>

record cache_storage =
  static_store :: "(string, response) jsmap"
  dynamic_store :: "(string, response) jsmap"
  api_store :: "(string, response) jsmap"
  quota_exceeded :: bool

definition cache_match :: "(string, response) jsmap \<Rightarrow> request \<Rightarrow> response option" where
  "cache_match cache req = (if http_method req = ''GET'' then map_get cache (url req) else None)"

definition cache_match_path :: "string \<Rightarrow> (string, response) jsmap \<Rightarrow> string \<Rightarrow> response option" where
  "cache_match_path self_origin cache path = map_get cache (self_origin @ path)"

fun split_on :: "char \<Rightarrow> string \<Rightarrow> string list" where
  "split_on sep [] = [[]]"
| "split_on sep (c # cs) =
     (if c = sep then [] # split_on sep cs
      else (case split_on sep cs of
              [] \<Rightarrow> [[c]]
            | part # parts \<Rightarrow> (c # part) # parts))"

definition is_ows :: "char \<Rightarrow> bool" where
  "is_ows c = (c = CHR '' '' \<or> c = CHR 0x09)"

definition strip_ows :: "string \<Rightarrow> string" where
  "strip_ows s = rev (dropWhile is_ows (rev (dropWhile is_ows s)))"

definition vary_star :: "(string \<times> string) list \<Rightarrow> bool" where
  "vary_star hs =
     (case header_get hs ''Vary'' of
        Some v \<Rightarrow> ''*'' \<in> set (map strip_ows (split_on CHR '','' v))
      | None \<Rightarrow> False)"

definition put_rejects :: "bool \<Rightarrow> request \<Rightarrow> response \<Rightarrow> bool" where
  "put_rejects full req resp =
     (http_method req \<noteq> ''GET''
      \<or> \<not> (startsWith (url req) ''http://'' \<or> startsWith (url req) ''https://'')
      \<or> status resp = 206
      \<or> vary_star (headers resp)
      \<or> full)"

definition cache_put ::
  "bool \<Rightarrow> (string, response) jsmap \<Rightarrow> request \<Rightarrow> response \<Rightarrow> (string, response) jsmap option" where
  "cache_put full cache req resp =
     (if put_rejects full req resp then None else Some (map_set cache (url req) resp))"

definition offline_api_response :: response where
  "offline_api_response =
     \<lparr>status = 503, statusText = [],
      headers = [(''Content-Type'', ''application/json'')],
      body = Stringified (JObject [(''error'', JString (Khmer ''the Internet has a problem'')),
                                   (''offline'', JBool True),
                                   (''cached'', JBool False)])\<rparr>"

text \<open>
  Each strategy returns what its promise settles to and the stores afterwards. Every
  strategy calls \<^verbatim>\<open>fetch\<close> once; its outcome is the argument \<open>net\<close>. An awaited \<^verbatim>\<open>cache.put\<close>
  stands inside the \<^verbatim>\<open>try\<close> block, so that when it rejects the \<^verbatim>\<open>catch\<close> block answers, as it
  does when the fetch rejects. The background refresh of the cache-first strategies is that
  one call of \<^verbatim>\<open>fetch\<close>; its \<^verbatim>\<open>put\<close> is in the stores returned, and is dropped when it rejects.
\<close>

definition handleAPIRequest :: "cache_storage \<Rightarrow> request \<Rightarrow> fetch_outcome \<Rightarrow> settled \<times> cache_storage" where
  "handleAPIRequest caches req net =
     (let caught =
            (case cache_match (api_store caches) req of
               Some cachedResponse \<Rightarrow>
                 (case new_Response (body cachedResponse) (status cachedResponse)
                         (statusText cachedResponse)
                         (headers_set (headers cachedResponse) ''X-Cached'' ''true'') of
                    Some resp \<Rightarrow> Resolved (Some resp)
                  | None \<Rightarrow> Rejected)
             | None \<Rightarrow> Resolved (Some offline_api_response))
      in case net of
           Fetched networkResponse \<Rightarrow>
             if status networkResponse = 200
             then (case cache_put (quota_exceeded caches) (api_store caches) req networkResponse of
                     Some cache \<Rightarrow> (Resolved (Some networkResponse), caches\<lparr>api_store := cache\<rparr>)
                   | None \<Rightarrow> (caught, caches))
             else (Resolved (Some networkResponse), caches)
         | Failed \<Rightarrow> (caught, caches))"

definition handleStaticRequest :: "cache_storage \<Rightarrow> request \<Rightarrow> fetch_outcome \<Rightarrow> settled \<times> cache_storage" where
  "handleStaticRequest caches req net =
     (let caught = Resolved (Some \<lparr>status = 503, statusText = [],
                                    headers = [(''Content-Type'', ''text/plain;charset=UTF-8'')],
                                    body = Phrase (Ascii ''Offline'')\<rparr>)
      in case cache_match (static_store caches) req of
           Some cachedResponse \<Rightarrow>
             (Resolved (Some cachedResponse),
              case net of
                Fetched networkResponse \<Rightarrow>
                  if status networkResponse = 200
                  then (case cache_put (quota_exceeded caches) (static_store caches) req networkResponse of
                          Some cache \<Rightarrow> caches\<lparr>static_store := cache\<rparr>
                        | None \<Rightarrow> caches)
                  else caches
              | Failed \<Rightarrow> caches)
         | None \<Rightarrow>
             (case net of
                Fetched networkResponse \<Rightarrow>
                  if status networkResponse = 200
                  then (case cache_put (quota_exceeded caches) (static_store caches) req networkResponse of
                          Some cache \<Rightarrow> (Resolved (Some networkResponse), caches\<lparr>static_store := cache\<rparr>)
                        | None \<Rightarrow> (caught, caches))
                  else (Resolved (Some networkResponse), caches)
              | Failed \<Rightarrow> (caught, caches)))"

definition handleDocumentRequest ::
  "string \<Rightarrow> cache_storage \<Rightarrow> request \<Rightarrow> fetch_outcome \<Rightarrow> settled \<times> cache_storage" where
  "handleDocumentRequest self_origin caches req net =
     (let caught =
            (case cache_match (dynamic_store caches) req of
               Some cachedResponse \<Rightarrow> Resolved (Some cachedResponse)
             | None \<Rightarrow> Resolved (cache_match_path self_origin (dynamic_store caches) ''/index.html''))
      in case net of
           Fetched networkResponse \<Rightarrow>
             if status networkResponse = 200
             then (case cache_put (quota_exceeded caches) (dynamic_store caches) req networkResponse of
                     Some cache \<Rightarrow> (Resolved (Some networkResponse), caches\<lparr>dynamic_store := cache\<rparr>)
                   | None \<Rightarrow> (caught, caches))
             else (Resolved (Some networkResponse), caches)
         | Failed \<Rightarrow> (caught, caches))"

definition handleDynamicRequest :: "cache_storage \<Rightarrow> request \<Rightarrow> fetch_outcome \<Rightarrow> settled \<times> cache_storage" where
  "handleDynamicRequest caches req net =
     (let caught = Resolved (Some \<lparr>status = 503, statusText = [],
                                    headers = [(''Content-Type'', ''text/plain;charset=UTF-8'')],
                                    body = Phrase (Ascii ''Resource unavailable offline'')\<rparr>)
      in case cache_match (dynamic_store caches) req of
           Some cachedResponse \<Rightarrow>
             (Resolved (Some cachedResponse),
              case net of
                Fetched networkResponse \<Rightarrow>
                  if status networkResponse = 200
                  then (case cache_put (quota_exceeded caches) (dynamic_store caches) req networkResponse of
                          Some cache \<Rightarrow> caches\<lparr>dynamic_store := cache\<rparr>
                        | None \<Rightarrow> caches)
                  else caches
              | Failed \<Rightarrow> caches)
         | None \<Rightarrow>
             (case net of
                Fetched networkResponse \<Rightarrow>
                  if status networkResponse = 200
                  then (case cache_put (quota_exceeded caches) (dynamic_store caches) req networkResponse of
                          Some cache \<Rightarrow> (Resolved (Some networkResponse), caches\<lparr>dynamic_store := cache\<rparr>)
                        | None \<Rightarrow> (caught, caches))
                  else (Resolved (Some networkResponse), caches)
              | Failed \<Rightarrow> (caught, caches)))"

definition isStaticAsset :: "request \<Rightarrow> bool" where
  "isStaticAsset req =
     (list_ex (\<lambda>ext. endsWith (pathname req) ext)
        [''.css'', ''.js'', ''.woff'', ''.woff2'', ''.ttf'', ''.svg'', ''.png'', ''.jpg'', ''.jpeg'', ''.gif'']
      \<or> list_ex (\<lambda>host. str_includes (hostname req) host)
        [''cdn.jsdelivr.net'', ''cdnjs.cloudflare.com'', ''fonts.googleapis.com'', ''fonts.gstatic.com''])"

text \<open>
  The \<^verbatim>\<open>fetch\<close> listener: \<open>None\<close> when it returns without \<^verbatim>\<open>respondWith\<close>, so that the browser
  handles the request itself.
\<close>

definition fetch_listener ::
  "string \<Rightarrow> cache_storage \<Rightarrow> request \<Rightarrow> fetch_outcome \<Rightarrow> (settled \<times> cache_storage) option" where
  "fetch_listener self_origin caches req net =
     (if origin req \<noteq> self_origin
         \<and> \<not> str_includes (hostname req) ''cdn.jsdelivr.net''
         \<and> \<not> str_includes (hostname req) ''cdnjs.cloudflare.com''
         \<and> \<not> str_includes (hostname req) ''fonts.googleapis.com''
         \<and> \<not> str_includes (hostname req) ''fonts.gstatic.com''
      then None
      else if startsWith (pathname req) ''/api/'' then Some (handleAPIRequest caches req net)
      else if isStaticAsset req then Some (handleStaticRequest caches req net)
      else if destination req = ''document'' then Some (handleDocumentRequest self_origin caches req net)
      else Some (handleDynamicRequest caches req net))"

text \<open>
  The \<^verbatim>\<open>install\<close> listener: \<^verbatim>\<open>cache.addAll\<close> fetches every URL of \<^verbatim>\<open>STATIC_ASSETS\<close> with a GET
  request and stores the responses in the static store, or stores nothing when one of the
  fetches fails or resolves with a response that is not \<^verbatim>\<open>ok\<close> or that \<^verbatim>\<open>put\<close> would refuse;
  the listener catches that rejection. \<open>net\<close> gives the outcome of the fetch of each URL.
\<close>

definition STATIC_ASSETS :: "string list" where
  "STATIC_ASSETS =
     [''/'', ''/index.html'', ''/tracking.html'', ''/manifest.json'',
      ''https://cdn.jsdelivr.net/npm/bootstrap@5.3.0/dist/css/bootstrap.min.css'',
      ''https://cdnjs.cloudflare.com/ajax/libs/font-awesome/6.4.0/css/all.min.css'',
      ''https://fonts.googleapis.com/css2?family=Battambang:wght@300;400;600;700&family=Moul&display=swap'']"

definition resolve :: "string \<Rightarrow> string \<Rightarrow> string" where
  "resolve self_origin u = (if startsWith u ''/'' then self_origin @ u else u)"

definition addAll ::
  "bool \<Rightarrow> (string, response) jsmap \<Rightarrow> string list \<Rightarrow> (string \<Rightarrow> fetch_outcome)
     \<Rightarrow> (string, response) jsmap option" where
  "addAll full cache urls net =
     (if \<not> full
         \<and> list_all (\<lambda>u. case net u of
                           Fetched r \<Rightarrow> response_ok (status r) \<and> status r \<noteq> 206 \<and> \<not> vary_star (headers r)
                         | Failed \<Rightarrow> False) urls
      then Some (foldl (\<lambda>c u. case net u of Fetched r \<Rightarrow> map_set c u r | Failed \<Rightarrow> c) cache urls)
      else None)"

definition install :: "string \<Rightarrow> (string \<Rightarrow> fetch_outcome) \<Rightarrow> cache_storage \<Rightarrow> cache_storage" where
  "install self_origin net caches =
     (case addAll (quota_exceeded caches) (static_store caches)
             (map (resolve self_origin) STATIC_ASSETS) net of
        Some cache \<Rightarrow> caches\<lparr>static_store := cache\<rparr>
      | None \<Rightarrow> caches)"

section \<open>The first service worker (src/unnamed/part_000)\<close>

text \<open>
  This worker has the stores \<^verbatim>\<open>STATIC_CACHE\<close> and \<^verbatim>\<open>DYNAMIC_CACHE\<close>; \<^verbatim>\<open>caches.match\<close> searches
  them in the order of their creation, the static store first, and resolves with
  \<^verbatim>\<open>undefined\<close> for a request whose method is not GET. Its listener answers every request
  (\<open>None\<close> is \<^verbatim>\<open>undefined\<close>). It does not wait for its \<^verbatim>\<open>cache.put\<close>: when that rejects, nothing
  is stored and the response is returned all the same.
\<close>

record cache_storage_v1 =
  static_v1 :: "(string, response) jsmap"
  dynamic_v1 :: "(string, response) jsmap"
  quota_exceeded_v1 :: bool

definition caches_match_v1 :: "cache_storage_v1 \<Rightarrow> string \<Rightarrow> response option" where
  "caches_match_v1 caches u =
     (case map_get (static_v1 caches) u of
        Some r \<Rightarrow> Some r
      | None \<Rightarrow> map_get (dynamic_v1 caches) u)"

definition caches_match_request_v1 :: "cache_storage_v1 \<Rightarrow> request \<Rightarrow> response option" where
  "caches_match_request_v1 caches req =
     (if http_method req = ''GET'' then caches_match_v1 caches (url req) else None)"

definition put_dynamic_v1 :: "cache_storage_v1 \<Rightarrow> request \<Rightarrow> response \<Rightarrow> cache_storage_v1" where
  "put_dynamic_v1 caches req resp =
     (case cache_put (quota_exceeded_v1 caches) (dynamic_v1 caches) req resp of
        Some cache \<Rightarrow> caches\<lparr>dynamic_v1 := cache\<rparr>
      | None \<Rightarrow> caches)"

definition offline_api_response_v1 :: response where
  "offline_api_response_v1 =
     \<lparr>status = 503, statusText = [],
      headers = [(''Content-Type'', ''application/json'')],
      body = Stringified (JObject [(''error'', JString (Khmer ''the Internet has a problem, please check your connection'')),
                                   (''offline'', JBool True)])\<rparr>"

definition fetch_listener_v1 ::
  "string \<Rightarrow> cache_storage_v1 \<Rightarrow> request \<Rightarrow> fetch_outcome \<Rightarrow> response option \<times> cache_storage_v1" where
  "fetch_listener_v1 self_origin caches req net =
     (if startsWith (pathname req) ''/api/''
      then (case net of
              Fetched networkResponse \<Rightarrow> (Some networkResponse, caches)
            | Failed \<Rightarrow> (Some offline_api_response_v1, caches))
      else (case caches_match_request_v1 caches req of
              Some cachedResponse \<Rightarrow>
                (Some cachedResponse,
                 case net of
                   Fetched networkResponse \<Rightarrow>
                     if status networkResponse = 200
                     then put_dynamic_v1 caches req networkResponse
                     else caches
                 | Failed \<Rightarrow> caches)
            | None \<Rightarrow>
                (case net of
                   Fetched networkResponse \<Rightarrow>
                     if status networkResponse \<noteq> 200 then (Some networkResponse, caches)
                     else (Some networkResponse, put_dynamic_v1 caches req networkResponse)
                 | Failed \<Rightarrow>
                     if destination req = ''document''
                     then (caches_match_v1 caches (self_origin @ ''/index.html''), caches)
                     else (Some \<lparr>status = 503, statusText = ''Service Unavailable'',
                                  headers = [(''Content-Type'', ''text/plain; charset=utf-8'')],
                                  body = Phrase (Khmer ''Offline - there is no Internet'')\<rparr>, caches))))"

definition STATIC_ASSETS_v1 :: "string list" where
  "STATIC_ASSETS_v1 =
     [''/'', ''/index.html'', ''/tracking.html'',
      ''https://cdn.jsdelivr.net/npm/bootstrap@5.3.0/dist/css/bootstrap.min.css'',
      ''https://cdnjs.cloudflare.com/ajax/libs/font-awesome/6.4.0/css/all.min.css'',
      ''https://cdn.jsdelivr.net/npm/chart.js'',
      ''https://cdn.jsdelivr.net/npm/bootstrap@5.3.0/dist/js/bootstrap.bundle.min.js'',
      ''https://fonts.googleapis.com/css2?family=Battambang:wght@100;300;400;700;900&family=Moul&family=Siemreap&display=swap'',
      ''https://upload.wikimedia.org/wikipedia/commons/4/4a/Emblem_of_the_Ministry_of_Education%2C_Youth_and_Sport_%28Cambodia%29.svg'']"

definition install_v1 :: "string \<Rightarrow> (string \<Rightarrow> fetch_outcome) \<Rightarrow> cache_storage_v1 \<Rightarrow> cache_storage_v1" where
  "install_v1 self_origin net caches =
     (case addAll (quota_exceeded_v1 caches) (static_v1 caches)
             (map (resolve self_origin) STATIC_ASSETS_v1) net of
        Some cache \<Rightarrow> caches\<lparr>static_v1 := cache\<rparr>
      | None \<Rightarrow> caches)"

section \<open>What the properties of the workers speak of\<close>

text \<open>
  The fetch resolved with status 200; every entry of the stores afterwards is an entry from
  before or has status 200; and every entry of a store has status 200, as every entry that
  a strategy has written.
\<close>

definition fetched_200 :: "fetch_outcome \<Rightarrow> bool" where
  "fetched_200 net = (case net of Fetched r \<Rightarrow> status r = 200 | Failed \<Rightarrow> False)"

definition new_entries_200 :: "cache_storage \<Rightarrow> cache_storage \<Rightarrow> bool" where
  "new_entries_200 before after =
     ((\<forall>e\<in>set (static_store after). e \<in> set (static_store before) \<or> status (snd e) = 200)
      \<and> (\<forall>e\<in>set (dynamic_store after). e \<in> set (dynamic_store before) \<or> status (snd e) = 200)
      \<and> (\<forall>e\<in>set (api_store after). e \<in> set (api_store before) \<or> status (snd e) = 200))"

definition all_200 :: "(string, response) jsmap \<Rightarrow> bool" where
  "all_200 cache = list_all (\<lambda>e. status (snd e) = 200) cache"

text \<open>
  Example values: the worker's origin, responses, a network on which every asset is fetched,
  requests, and states of the stores: empty, as a successful install leaves them, and after
  the roster was then fetched once.
\<close>

definition app_origin :: string where
  "app_origin = ''https://samakischool.app''"

definition index_page :: response where
  "index_page = \<lparr>status = 200, statusText = ''OK'', headers = [(''content-type'', ''text/html'')],
                  body = Bytes ''<html>index</html>''\<rparr>"

definition roster_ok :: response where
  "roster_ok = \<lparr>status = 200, statusText = ''OK'', headers = [(''content-type'', ''application/json'')],
                 body = Bytes ''{values:[[1]]}''\<rparr>"

definition roster_missing :: response where
  "roster_missing = \<lparr>status = 404, statusText = ''Not Found'', headers = [],
                      body = Bytes ''{error:not found}''\<rparr>"

definition stylesheet :: response where
  "stylesheet = \<lparr>status = 200, statusText = ''OK'', headers = [(''content-type'', ''text/css'')],
                  body = Bytes ''body{}''\<rparr>"

definition tracking_request :: request where
  "tracking_request = \<lparr>http_method = ''GET'', url = ''https://samakischool.app/tracking.html'',
                        origin = ''https://samakischool.app'',
                        hostname = ''samakischool.app'', pathname = ''/tracking.html'',
                        destination = ''document''\<rparr>"

definition about_request :: request where
  "about_request = \<lparr>http_method = ''GET'', url = ''https://samakischool.app/about.html'',
                     origin = ''https://samakischool.app'',
                     hostname = ''samakischool.app'', pathname = ''/about.html'',
                     destination = ''document''\<rparr>"

definition roster_request :: request where
  "roster_request = \<lparr>http_method = ''GET'', url = ''https://samakischool.app/api/sheets?sheet=Roster'',
                      origin = ''https://samakischool.app'', hostname = ''samakischool.app'',
                      pathname = ''/api/sheets'', destination = []\<rparr>"

definition roster_post :: request where
  "roster_post = \<lparr>http_method = ''POST'', url = ''https://samakischool.app/api/sheets?sheet=Roster'',
                   origin = ''https://samakischool.app'', hostname = ''samakischool.app'',
                   pathname = ''/api/sheets'', destination = []\<rparr>"

definition site :: "string \<Rightarrow> fetch_outcome" where
  "site u = Fetched (if startsWith u ''https://samakischool.app/'' then index_page else stylesheet)"

definition no_stores :: cache_storage where
  "no_stores = \<lparr>static_store = [], dynamic_store = [], api_store = [], quota_exceeded = False\<rparr>"

definition no_stores_v1 :: cache_storage_v1 where
  "no_stores_v1 = \<lparr>static_v1 = [], dynamic_v1 = [], quota_exceeded_v1 = False\<rparr>"

definition installed_stores :: cache_storage where
  "installed_stores = install app_origin site no_stores"

definition installed_stores_v1 :: cache_storage_v1 where
  "installed_stores_v1 = install_v1 app_origin site no_stores_v1"

definition stores_with_roster :: cache_storage where
  "stores_with_roster = snd (handleAPIRequest installed_stores roster_request (Fetched roster_ok))"

section \<open>What the three request handlers share\<close>

text \<open>
  The incoming request as the handlers read it: the method, the headers they look at, the
  socket's remote address and the two query parameters. A header or parameter that is absent
  is \<open>None\<close> (\<^verbatim>\<open>undefined\<close>). The handlers' view of the environment variables is \<open>env\<close>.
\<close>

record http_request =
  req_method :: string
  hdr_origin :: "string option"
  hdr_x_forwarded_for :: "string option"
  hdr_x_real_ip :: "string option"
  remoteAddress :: "string option"
  query_sheet :: "string option"
  query_action :: "string option"

record env =
  SPREADSHEET_ID :: "string option"
  API_KEY :: "string option"
  NODE_ENV :: "string option"

text \<open>
  The response built through \<^verbatim>\<open>res\<close>: the status, the headers set (a later \<^verbatim>\<open>setHeader\<close> of the
  same name replaces the value), and the JSON body, \<open>None\<close> after \<^verbatim>\<open>end()\<close>. \<open>JSpread d fs\<close>
  stands for the object literal \<^verbatim>\<open>{ ...d, fs }\<close>.
\<close>

datatype header_value = HStr string | HNum int

datatype reply_body = Body json | JSpread json "(string \<times> json) list"

record http_response =
  res_status :: nat
  res_headers :: "(string \<times> header_value) list"
  res_body :: "reply_body option"

definition setHeader :: "(string \<times> header_value) list \<Rightarrow> string \<Rightarrow> header_value \<Rightarrow> (string \<times> header_value) list" where
  "setHeader hs name v = map_set hs name v"

text \<open>\<^verbatim>\<open>a || b\<close> on strings that may be absent: an absent or empty string is falsy.\<close>

definition or_else :: "string option \<Rightarrow> string option \<Rightarrow> string option" where
  "or_else a b = (if truthy a then a else b)"

definition or_literal :: "string option \<Rightarrow> string \<Rightarrow> string" where
  "or_literal a lit = (case a of Some s \<Rightarrow> if s \<noteq> [] then s else lit | None \<Rightarrow> lit)"

text \<open>
  \<^verbatim>\<open>s.split(',')[0]\<close> and \<^verbatim>\<open>s.trim()\<close>. A header value reaches the handlers as a string of code
  units below 256, one for each byte; among these the white space and line terminators that
  \<^verbatim>\<open>trim\<close> removes are the seven of \<open>is_space\<close>, the no-break space U+00A0 among them.
\<close>

definition split_first :: "string \<Rightarrow> string" where
  "split_first s = takeWhile (\<lambda>c. c \<noteq> CHR '','') s"

definition is_space :: "char \<Rightarrow> bool" where
  "is_space c = (c \<in> set [CHR '' '', CHR 0x09, CHR 0x0A, CHR 0x0B, CHR 0x0C, CHR 0x0D, CHR 0xA0])"

definition trim :: "string \<Rightarrow> string" where
  "trim s = rev (dropWhile is_space (rev (dropWhile is_space s)))"

text \<open>A number printed in a template literal.\<close>

fun decimal :: "nat \<Rightarrow> string" where
  "decimal n = (if n < 10 then [''0123456789'' ! n] else decimal (n div 10) @ [''0123456789'' ! (n mod 10)])"

declare decimal.simps [simp del]

text \<open>
  What the upstream does when it is asked: the \<^verbatim>\<open>fetch\<close> rejects with an error of the given
  message, or it resolves with a status and a body text. For a response that is \<^verbatim>\<open>ok\<close> the
  third component is what the handler gets out of the body: \<open>Inl\<close> the message of the error
  thrown while reading it (\<^verbatim>\<open>response.json()\<close>, \<^verbatim>\<open>data.sheets.map\<close>), \<open>Inr\<close> the payload
  (the sheet titles, or \<^verbatim>\<open>result.values || []\<close>).
\<close>

datatype upstream = NetworkError string | HttpReply nat string "string + json"

datatype endpoint = ListSheets | SheetValues string

text \<open>The trace of what a handler did to the TTL cache and the upstream.\<close>

datatype effect = CacheSweep | CacheRead string | CacheWrite string | UpstreamFetch endpoint

text \<open>JavaScript truthiness of a JSON value, for \<^verbatim>\<open>if (!data)\<close>.\<close>

fun js_truthy :: "json \<Rightarrow> bool" where
  "js_truthy JNull = False"
| "js_truthy (JString (Ascii s)) = (s \<noteq> [])"
| "js_truthy (JString (Khmer s)) = True"
| "js_truthy (JBool b) = b"
| "js_truthy (JNumber (Fin n)) = (n \<noteq> 0)"
| "js_truthy (JNumber Infinity) = True"
| "js_truthy (JArray xs) = True"
| "js_truthy (JObject fs) = True"

section \<open>The rate-limit endpoint (src/api/rate-limit.js, handler)\<close>

text \<open>
  The singleton limiter is the state. The handler reads the clock twice: inside \<^verbatim>\<open>check\<close>
  and for \<^verbatim>\<open>retryAfter\<close>.
\<close>

definition rate_limit_identifier :: "http_request \<Rightarrow> string" where
  "rate_limit_identifier req =
     or_literal (or_else (map_option split_first (hdr_x_forwarded_for req)) (hdr_x_real_ip req)) ''unknown''"

definition rate_limit_handler ::
  "string RateLimiter \<Rightarrow> http_request \<Rightarrow> int \<Rightarrow> int \<Rightarrow> http_response \<times> string RateLimiter \<times> effect list" where
  "rate_limit_handler rateLimiter req now now' =
     (let identifier = rate_limit_identifier req;
          (result, rateLimiter') = check rateLimiter identifier now;
          hs = setHeader (setHeader (setHeader []
                 ''X-RateLimit-Limit'' (HNum (maxRequests rateLimiter)))
                 ''X-RateLimit-Remaining'' (HNum (remaining result)))
                 ''X-RateLimit-Reset'' (case resetAt result of Fin r \<Rightarrow> HNum r | Infinity \<Rightarrow> HStr ''Infinity'')
      in if \<not> allowed result
         then (\<lparr>res_status = 429, res_headers = hs,
                 res_body = Some (Body (JObject
                   [(''error'', JString (Khmer ''please wait a moment, used too frequently'')),
                    (''retryAfter'', JNumber (ceil_seconds (js_sub (resetAt result) now')))]))\<rparr>,
               rateLimiter', [])
         else (\<lparr>res_status = 200, res_headers = hs,
                 res_body = Some (Body (JObject [(''ok'', JBool True)]))\<rparr>,
               rateLimiter', []))"

section \<open>The first sheets handler (src/api/sheets.js, handler)\<close>

record sheets_state =
  server_cache :: "(string, json cache_item) jsmap"
  rate_limit_map :: "(string, int list) jsmap"

text \<open>The clock readings of one request, in the order the handler takes them.\<close>

record sheets_clock =
  at_rate_limit :: int
  at_clean :: int
  at_lookup :: int
  at_cache_age :: int

text \<open>
  The two \<^verbatim>\<open>fetchFunction\<close> closures of the handler differ in the message they throw when the
  response is not \<^verbatim>\<open>ok\<close>.
\<close>

definition sheets_fetch :: "upstream \<Rightarrow> string \<Rightarrow> string + json" where
  "sheets_fetch up failure =
     (case up of
        NetworkError message \<Rightarrow> Inl message
      | HttpReply st txt decoded \<Rightarrow> if response_ok st then decoded else Inl failure)"

text \<open>
  The two branches of the handler, for the list and for one sheet, have one shape:
  \<^verbatim>\<open>getCachedData\<close>, then the 200 response, or the 500 response of the \<^verbatim>\<open>catch\<close> block when
  the fetch function threw. \<open>listing\<close> tells the branches apart, whose bodies differ.
\<close>

definition sheets_reply ::
  "sheets_clock \<Rightarrow> (string \<times> header_value) list \<Rightarrow> sheets_state \<Rightarrow> string \<Rightarrow> endpoint
     \<Rightarrow> string + json \<Rightarrow> bool \<Rightarrow> http_response \<times> sheets_state \<times> effect list" where
  "sheets_reply clk hs st cacheKey ep fetched listing =
     (case getCachedData (server_cache st) cacheKey fetched (at_lookup clk) of
        (Inl message, cache', called) \<Rightarrow>
          (\<lparr>res_status = 500, res_headers = hs,
            res_body = Some (Body (JObject
              [(''error'', JString (Khmer ''the data cannot be fetched'')),
               (''details'', JString (Ascii message))]))\<rparr>,
           st\<lparr>server_cache := cache'\<rparr>,
           [CacheSweep, CacheRead cacheKey] @ (if called then [UpstreamFetch ep] else []))
      | (Inr d, cache', called) \<Rightarrow>
          (let hs' = setHeader hs ''Cache-Control'' (HStr ''public, s-maxage=300, stale-while-revalidate=600'');
               extra = [(''cached'', JBool (map_get cache' cacheKey \<noteq> None)),
                        (''cacheAge'', JNumber (Fin (case map_get cache' cacheKey of
                            Some item \<Rightarrow> (at_cache_age clk - timestamp item) div 1000
                          | None \<Rightarrow> 0)))]
           in (\<lparr>res_status = 200, res_headers = hs',
                 res_body = Some (if listing then Body (JObject ((''sheets'', d) # extra))
                                  else JSpread d extra)\<rparr>,
               st\<lparr>server_cache := cache'\<rparr>,
               [CacheSweep, CacheRead cacheKey]
                 @ (if called then [UpstreamFetch ep, CacheWrite cacheKey] else []))))"

definition sheets_cors_headers :: "(string \<times> header_value) list" where
  "sheets_cors_headers =
     setHeader (setHeader (setHeader []
       ''Access-Control-Allow-Origin'' (HStr ''https://samakischool.app''))
       ''Access-Control-Allow-Methods'' (HStr ''GET, OPTIONS''))
       ''Access-Control-Allow-Headers'' (HStr ''Content-Type'')"

definition sheets_client_ip :: "http_request \<Rightarrow> string" where
  "sheets_client_ip req =
     or_literal (or_else (or_else (map_option split_first (hdr_x_forwarded_for req))
                                  (hdr_x_real_ip req))
                         (remoteAddress req)) ''unknown''"

definition sheets_handler ::
  "sheets_clock \<Rightarrow> upstream \<Rightarrow> sheets_state \<Rightarrow> http_request \<Rightarrow> http_response \<times> sheets_state \<times> effect list" where
  "sheets_handler clk up st req =
     (let hs = sheets_cors_headers
      in if req_method req = ''OPTIONS''
         then (\<lparr>res_status = 200, res_headers = hs, res_body = None\<rparr>, st, [])
         else
           (let ip = sheets_client_ip req;
                (ok, limits) = sheets_checkRateLimit (rate_limit_map st) ip (at_rate_limit clk);
                st1 = st\<lparr>rate_limit_map := limits\<rparr>
            in if \<not> ok
               then (\<lparr>res_status = 429, res_headers = hs,
                       res_body = Some (Body (JObject
                         [(''error'', JString (Khmer ''too many users right now, please try again in an hour''))]))\<rparr>,
                     st1, [])
               else
                 (let st2 = st1\<lparr>server_cache := cleanExpiredCache (server_cache st1) (at_clean clk)\<rparr>
                  in if query_action req = Some ''list''
                     then sheets_reply clk hs st2 ''sheet-names-list'' ListSheets
                            (sheets_fetch up ''Failed to fetch sheet names from Google Sheets'') True
                     else if \<not> truthy (query_sheet req)
                     then (\<lparr>res_status = 400, res_headers = hs,
                             res_body = Some (Body (JObject
                               [(''error'', JString (Ascii ''Sheet name is required''))]))\<rparr>,
                           st2, [CacheSweep])
                     else (let sheet = or_literal (query_sheet req) []
                           in sheets_reply clk hs st2 (''sheet-data-'' @ sheet) (SheetValues sheet)
                                (sheets_fetch up (''Failed to fetch sheet \"'' @ sheet @ ''\" from Google Sheets''))
                                False))))"

section \<open>The consolidated handler (src/unnamed/part_001, handler)\<close>

record server_state =
  ttl_cache :: "(string, json cache_item) jsmap"
  rate_limits :: "(string, int list) jsmap"

record handler_clock =
  at_check :: int
  at_get :: int
  at_set :: int
  at_x_cache :: int

definition allowedOrigins :: "string list" where
  "allowedOrigins = [''https://samakischool.app'', ''https://www.samakischool.app'',
                     ''http://localhost:3000'', ''http://localhost:5173'']"

text \<open>\<^verbatim>\<open>shouldCompress\<close>, with the platform's \<^verbatim>\<open>JSON.stringify\<close> as a parameter.\<close>

definition shouldCompress :: "(json \<Rightarrow> string) \<Rightarrow> json \<Rightarrow> bool" where
  "shouldCompress stringify d = (length (stringify d) > 1000)"

definition fetchFromGoogleSheets :: "upstream \<Rightarrow> string + json" where
  "fetchFromGoogleSheets up =
     (case up of
        NetworkError message \<Rightarrow> Inl message
      | HttpReply st txt decoded \<Rightarrow>
          if response_ok st then decoded
          else Inl (''Google Sheets API error: '' @ decimal st @ '' - '' @ txt))"

text \<open>The \<^verbatim>\<open>catch\<close> block: the response for an error with the given message.\<close>

definition error_reply :: "env \<Rightarrow> (string \<times> header_value) list \<Rightarrow> string \<Rightarrow> http_response" where
  "error_reply e hs message =
     (if str_includes message ''404''
      then \<lparr>res_status = 404, res_headers = hs,
             res_body = Some (Body (JObject
               [(''error'', JString (Khmer ''this sheet was not found'')),
                (''details'', JString (Ascii ''Sheet not found''))]))\<rparr>
      else if str_includes message ''403'' \<or> str_includes message ''401''
      then \<lparr>res_status = 403, res_headers = hs,
             res_body = Some (Body (JObject
               [(''error'', JString (Khmer ''no permission to access'')),
                (''details'', JString (Ascii ''Permission denied or invalid API key''))]))\<rparr>
      else if str_includes message ''ECONNREFUSED'' \<or> str_includes message ''ETIMEDOUT''
      then \<lparr>res_status = 503, res_headers = hs,
             res_body = Some (Body (JObject
               [(''error'', JString (Khmer ''cannot connect to Google Sheets'')),
                (''details'', JString (Ascii ''Network error''))]))\<rparr>
      else \<lparr>res_status = 500, res_headers = hs,
             res_body = Some (Body (JObject
               [(''error'', JString (Khmer ''there is a problem fetching the data'')),
                (''details'', JString (Ascii (if NODE_ENV e = Some ''development'' then message
                                              else ''Internal server error'')))]))\<rparr>)"

text \<open>
  The end of both branches once \<open>d\<close> is in hand: the cache headers, with a second
  \<^verbatim>\<open>getCache\<close> for \<^verbatim>\<open>X-Cache\<close>, and the response that \<open>respond\<close> builds from the data and
  the headers.
\<close>

definition finish ::
  "handler_clock \<Rightarrow> (string \<times> header_value) list \<Rightarrow> server_state \<Rightarrow> string
     \<Rightarrow> (json \<Rightarrow> (string \<times> header_value) list \<Rightarrow> http_response)
     \<Rightarrow> json \<Rightarrow> (string, json cache_item) jsmap \<Rightarrow> effect list
     \<Rightarrow> http_response \<times> server_state \<times> effect list" where
  "finish clk hs st cacheKey respond d c effects =
     (let (again, c') = getCache c cacheKey (at_x_cache clk);
          hs' = setHeader (setHeader hs
                  ''Cache-Control'' (HStr ''public, max-age=300, s-maxage=300, stale-while-revalidate=600''))
                  ''X-Cache'' (HStr (if again = Some d then ''HIT'' else ''MISS''))
      in (respond d hs', st\<lparr>ttl_cache := c'\<rparr>, effects @ [CacheRead cacheKey]))"

text \<open>
  The shape the two branches share: \<^verbatim>\<open>getCache\<close>; on a miss (or a falsy value) the fetch,
  whose error goes to the \<^verbatim>\<open>catch\<close> block, and \<^verbatim>\<open>setCache\<close>; then the response.
\<close>

definition serve ::
  "env \<Rightarrow> handler_clock \<Rightarrow> upstream \<Rightarrow> (string \<times> header_value) list \<Rightarrow> server_state \<Rightarrow> string
     \<Rightarrow> endpoint \<Rightarrow> (json \<Rightarrow> (string \<times> header_value) list \<Rightarrow> http_response)
     \<Rightarrow> http_response \<times> server_state \<times> effect list" where
  "serve e clk up hs st cacheKey ep respond =
     (let (found, c1) = getCache (ttl_cache st) cacheKey (at_get clk)
      in case (case found of Some d \<Rightarrow> if js_truthy d then Some d else None | None \<Rightarrow> None) of
           Some d \<Rightarrow> finish clk hs st cacheKey respond d c1 [CacheRead cacheKey]
         | None \<Rightarrow>
             (case fetchFromGoogleSheets up of
                Inl message \<Rightarrow>
                  (error_reply e hs message, st\<lparr>ttl_cache := c1\<rparr>, [CacheRead cacheKey, UpstreamFetch ep])
              | Inr d \<Rightarrow>
                  finish clk hs st cacheKey respond d (setCache c1 cacheKey d (at_set clk))
                    [CacheRead cacheKey, UpstreamFetch ep, CacheWrite cacheKey]))"

definition cors_headers :: "http_request \<Rightarrow> (string \<times> header_value) list" where
  "cors_headers req =
     (let hs0 = (case hdr_origin req of
                   Some org \<Rightarrow> if org \<in> set allowedOrigins
                               then setHeader [] ''Access-Control-Allow-Origin'' (HStr org) else []
                 | None \<Rightarrow> [])
      in setHeader (setHeader (setHeader hs0
           ''Access-Control-Allow-Methods'' (HStr ''GET, OPTIONS''))
           ''Access-Control-Allow-Headers'' (HStr ''Content-Type, Authorization''))
           ''Access-Control-Max-Age'' (HStr ''86400''))"

definition client_ip :: "http_request \<Rightarrow> string" where
  "client_ip req =
     or_literal (or_else (or_else
       (map_option (\<lambda>h. trim (split_first h)) (hdr_x_forwarded_for req))
       (hdr_x_real_ip req)) (remoteAddress req)) ''unknown''"

definition handler ::
  "(json \<Rightarrow> string) \<Rightarrow> env \<Rightarrow> handler_clock \<Rightarrow> upstream \<Rightarrow> server_state \<Rightarrow> http_request
     \<Rightarrow> http_response \<times> server_state \<times> effect list" where
  "handler stringify e clk up st req =
     (let hs = cors_headers req
      in if req_method req = ''OPTIONS''
         then (\<lparr>res_status = 200, res_headers = hs, res_body = None\<rparr>, st, [])
         else if req_method req \<noteq> ''GET''
         then (\<lparr>res_status = 405, res_headers = hs,
                 res_body = Some (Body (JObject [(''error'', JString (Ascii ''Method not allowed''))]))\<rparr>,
               st, [])
         else
           (let ip = client_ip req;
                (ok, limits) = checkRateLimit (rate_limits st) ip (at_check clk);
                st1 = st\<lparr>rate_limits := limits\<rparr>
            in if \<not> ok
               then (\<lparr>res_status = 429,
                       res_headers = setHeader hs ''Retry-After'' (HNum (ceil_ms RATE_WINDOW)),
                       res_body = Some (Body (JObject
                         [(''error'', JString (Khmer ''please wait a moment - used too frequently'')),
                          (''retryAfter'', JNumber (Fin (ceil_ms RATE_WINDOW)))]))\<rparr>,
                     st1, [])
               else if \<not> truthy (API_KEY e) \<or> \<not> truthy (SPREADSHEET_ID e)
               then (\<lparr>res_status = 500, res_headers = hs,
                       res_body = Some (Body (JObject
                         [(''error'', JString (Ascii ''Server configuration error''))]))\<rparr>,
                     st1, [])
               else if query_action req = Some ''list''
               then serve e clk up hs st1 (getCacheKey None (Some ''list'')) ListSheets
                      (\<lambda>sheets hs'. \<lparr>res_status = 200, res_headers = hs',
                                      res_body = Some (Body (JObject [(''sheets'', sheets)]))\<rparr>)
               else if \<not> truthy (query_sheet req)
               then (\<lparr>res_status = 400, res_headers = hs,
                       res_body = Some (Body (JObject
                         [(''error'', JString (Khmer ''a sheet name is needed (sheet name required)''))]))\<rparr>,
                     st1, [])
               else
                 (let sheet = or_literal (query_sheet req) []
                  in serve e clk up hs st1 (getCacheKey (Some sheet) None) (SheetValues sheet)
                       (\<lambda>d hs'. \<lparr>res_status = 200,
                                  res_headers =
                                    (let hs2 = setHeader hs' ''X-Cache-TTL'' (HNum CACHE_TTL)
                                     in if shouldCompress stringify d
                                        then setHeader hs2 ''Content-Encoding'' (HStr ''gzip'') else hs2),
                                  res_body = Some (Body (JObject
                                    [(''values'', d), (''range'', JString (Ascii sheet)),
                                     (''cached'', JBool True)]))\<rparr>))))"

section \<open>Conditions under which a request reaches the upstream fetch\<close>

text \<open>
  A lookup misses when \<^verbatim>\<open>getCache\<close> returns \<^verbatim>\<open>null\<close> or a falsy value. A request reaches the
  fetch of the consolidated handler when it is a GET that the limiter admits, the credentials
  are configured, it asks for the list or names a sheet, and the lookup of its cache key
  misses. That a handler called the upstream shows in its trace.
\<close>

definition shows_fetch :: "effect list \<Rightarrow> bool" where
  "shows_fetch trace = list_ex (\<lambda>x. case x of UpstreamFetch ep \<Rightarrow> True | _ \<Rightarrow> False) trace"

definition cache_misses :: "(string, json cache_item) jsmap \<Rightarrow> string \<Rightarrow> int \<Rightarrow> bool" where
  "cache_misses c k t = (case fst (getCache c k t) of None \<Rightarrow> True | Some d \<Rightarrow> \<not> js_truthy d)"

definition passes_rate_limit :: "handler_clock \<Rightarrow> server_state \<Rightarrow> http_request \<Rightarrow> bool" where
  "passes_rate_limit clk st req =
     (req_method req = ''GET'' \<and> fst (checkRateLimit (rate_limits st) (client_ip req) (at_check clk)))"

definition configured :: "env \<Rightarrow> bool" where
  "configured e = (truthy (API_KEY e) \<and> truthy (SPREADSHEET_ID e))"

definition reaches_fetch :: "env \<Rightarrow> handler_clock \<Rightarrow> server_state \<Rightarrow> http_request \<Rightarrow> bool" where
  "reaches_fetch e clk st req =
     (passes_rate_limit clk st req \<and> configured e
      \<and> (if query_action req = Some ''list'' then cache_misses (ttl_cache st) ''list'' (at_get clk)
         else truthy (query_sheet req)
              \<and> cache_misses (ttl_cache st) (''sheet:'' @ or_literal (query_sheet req) []) (at_get clk)))"

definition sheets_passes_rate_limit :: "sheets_clock \<Rightarrow> sheets_state \<Rightarrow> http_request \<Rightarrow> bool" where
  "sheets_passes_rate_limit clk st req =
     (req_method req \<noteq> ''OPTIONS''
      \<and> fst (sheets_checkRateLimit (rate_limit_map st) (sheets_client_ip req) (at_rate_limit clk)))"

text \<open>Example values: a configured environment, a request for the roster, and clock readings.\<close>

definition prod_env :: env where
  "prod_env = \<lparr>SPREADSHEET_ID = Some ''sheet-id'', API_KEY = Some ''api-key'', NODE_ENV = Some ''production''\<rparr>"

definition roster_get :: http_request where
  "roster_get = \<lparr>req_method = ''GET'', hdr_origin = Some ''https://samakischool.app'',
                  hdr_x_forwarded_for = Some ''203.0.113.9, 10.0.0.1'', hdr_x_real_ip = None,
                  remoteAddress = Some ''10.0.0.1'', query_sheet = Some ''Roster'', query_action = None\<rparr>"

definition bare_get :: http_request where
  "bare_get = \<lparr>req_method = ''GET'', hdr_origin = None,
                hdr_x_forwarded_for = Some ''203.0.113.9, 10.0.0.1'', hdr_x_real_ip = None,
                remoteAddress = Some ''10.0.0.1'', query_sheet = None, query_action = None\<rparr>"

definition clock_at :: "int \<Rightarrow> handler_clock" where
  "clock_at t = \<lparr>at_check = t, at_get = t, at_set = t, at_x_cache = t\<rparr>"

definition sheets_clock_at :: "int \<Rightarrow> sheets_clock" where
  "sheets_clock_at t = \<lparr>at_rate_limit = t, at_clean = t, at_lookup = t, at_cache_age = t\<rparr>"

definition fresh_state :: server_state where
  "fresh_state = \<lparr>ttl_cache = [], rate_limits = []\<rparr>"

definition busy_state :: server_state where
  "busy_state = \<lparr>ttl_cache = [], rate_limits = [(''203.0.113.9'', replicate 30 0)]\<rparr>"

definition sheets_fresh_state :: sheets_state where
  "sheets_fresh_state = \<lparr>server_cache = [], rate_limit_map = []\<rparr>"

definition sheets_stale_state :: sheets_state where
  "sheets_stale_state =
     \<lparr>server_cache = [(''sheet-data-Roster'', \<lparr>data = JObject [(''values'', JArray [])], timestamp = 0\<rparr>)],
      rate_limit_map = []\<rparr>"

definition sheets_busy_state :: sheets_state where
  "sheets_busy_state = \<lparr>server_cache = [], rate_limit_map = [(''203.0.113.9'', replicate 30 0)]\<rparr>"

definition busy_limiter :: "string RateLimiter" where
  "busy_limiter = \<lparr>maxRequests = 30, windowMs = 60000, requests = [(''203.0.113.9'', replicate 30 0)]\<rparr>"

definition unconfigured_env :: env where
  "unconfigured_env = \<lparr>SPREADSHEET_ID = Some ''sheet-id'', API_KEY = None, NODE_ENV = Some ''production''\<rparr>"

text \<open>The upstream fetch fails: it rejects, answers with a status that is not \<^verbatim>\<open>ok\<close>, or its body cannot be read.\<close>

definition fetch_fails :: "upstream \<Rightarrow> bool" where
  "fetch_fails up =
     (case up of
        NetworkError message \<Rightarrow> True
      | HttpReply st txt decoded \<Rightarrow> \<not> response_ok st \<or> isl decoded)"

section \<open>Properties of the rate limiter class\<close>

lemma math_min_Min: "xs \<noteq> [] \<Longrightarrow> math_min xs = Fin (Min (set xs))"
proof (induction xs)
  case Nil
  then show ?case by simp
next
  case (Cons x xs)
  show ?case
  proof (cases "xs = []")
    case True
    then show ?thesis by simp
  next
    case False
    with Cons.IH have "math_min xs = Fin (Min (set xs))" by simp
    with False show ?thesis by simp
  qed
qed

lemma check_maxRequests [simp]: "maxRequests (snd (check s j t)) = maxRequests s"
  by (simp add: check_def Let_def)

lemma check_windowMs [simp]: "windowMs (snd (check s j t)) = windowMs s"
  by (simp add: check_def Let_def)

lemma check_distinct: "distinct (map fst (requests s)) \<Longrightarrow> distinct (map fst (requests (snd (check s j t))))"
  by (simp add: check_def Let_def distinct_update split: option.splits)

lemma check_window_other: "j \<noteq> i \<Longrightarrow> window_of (snd (check s j t)) i = window_of s i"
  by (simp add: check_def Let_def window_of_def update_conv' split: option.splits)

lemma check_allowed_iff:
  "allowed (fst (check s i t)) \<longleftrightarrow> int (length (filter (\<lambda>x. x > t - windowMs s) (window_of s i))) < maxRequests s"
  by (auto simp add: check_def Let_def window_of_def update_conv' split: option.splits)

lemma check_window_same:
  "window_of (snd (check s i t)) i =
     filter (\<lambda>x. x > t - windowMs s) (window_of s i) @ (if allowed (fst (check s i t)) then [t] else [])"
  by (auto simp add: check_def Let_def window_of_def update_conv' split: option.splits)

lemma check_remaining:
  "allowed (fst (check s i t)) \<Longrightarrow>
     remaining (fst (check s i t)) = maxRequests s - int (length (window_of (snd (check s i t)) i))"
  by (auto simp add: check_def Let_def window_of_def update_conv' split: option.splits)

lemma check_rejected:
  "\<not> allowed (fst (check s i t)) \<Longrightarrow>
     fst (check s i t) = \<lparr>allowed = False, remaining = 0,
        resetAt = js_add (math_min (filter (\<lambda>x. x > t - windowMs s) (window_of s i))) (windowMs s)\<rparr>"
  by (auto simp add: check_def Let_def window_of_def update_conv' split: option.splits if_splits)

lemma cleanup_fold_lookup:
  "distinct (map fst es) \<Longrightarrow>
   map_of (foldl (cleanup_entry ws) m es) k =
     (case map_of es k of None \<Rightarrow> map_of m k
      | Some ts \<Rightarrow> (if filter (\<lambda>t. t > ws) ts = [] then None else Some (filter (\<lambda>t. t > ws) ts)))"
proof (induction es arbitrary: m)
  case Nil
  then show ?case by simp
next
  case (Cons e es)
  obtain k' ts' where e: "e = (k', ts')" by (cases e)
  from Cons.prems have d: "distinct (map fst es)" and nk: "k' \<notin> fst ` set es" by (auto simp: e)
  from nk have none: "map_of es k' = None" by (simp add: map_of_eq_None_iff)
  show ?case
    using Cons.IH [OF d, of "cleanup_entry ws m e"] none
    by (auto simp: e cleanup_entry_def Let_def update_conv' delete_conv' split: option.splits)
qed

lemma cleanup_fold_distinct:
  "distinct (map fst m) \<Longrightarrow> distinct (map fst (foldl (cleanup_entry ws) m es))"
  by (induction es arbitrary: m) (auto simp: cleanup_entry_def Let_def distinct_update distinct_delete)

lemma cleanup_fields [simp]:
  "maxRequests (cleanup s t) = maxRequests s" "windowMs (cleanup s t) = windowMs s"
  by (simp_all add: cleanup_def Let_def)

lemma cleanup_distinct:
  "distinct (map fst (requests s)) \<Longrightarrow> distinct (map fst (requests (cleanup s t)))"
  by (simp add: cleanup_def Let_def cleanup_fold_distinct)

lemma cleanup_window:
  "distinct (map fst (requests s)) \<Longrightarrow>
   window_of (cleanup s t) i = filter (\<lambda>x. x > t - windowMs s) (window_of s i)"
  by (simp add: cleanup_def Let_def window_of_def cleanup_fold_lookup split: option.splits)

lemma run_Nil [simp]: "run s [] = (s, [])"
  by (simp add: run_def)

lemma run_snoc: "run s (evs @ [e]) = exec (run s evs) e"
  by (simp add: run_def)

lemma admitted_times_snoc:
  "admitted_times (log @ [(j, t, r)]) i = admitted_times log i @ (if j = i \<and> allowed r then [t] else [])"
  by (simp add: admitted_times_def)

lemma admitted_results_snoc:
  "admitted_results (log @ [(j, t, r)]) i = admitted_results log i @ (if j = i \<and> allowed r then [r] else [])"
  by (simp add: admitted_results_def)

lemma admitted_results_Nil_iff: "admitted_results log i = [] \<longleftrightarrow> admitted_times log i = []"
  by (simp add: admitted_results_def admitted_times_def)

lemma filter_window_mono:
  "t \<le> now \<Longrightarrow> filter (\<lambda>x. t - w < x \<and> now - w < x) xs = filter (\<lambda>x. now - (w::int) < x) xs"
  by (induction xs) auto

lemma run_fields:
  "run (new_RateLimiter mx w) evs = (s, log) \<Longrightarrow>
     maxRequests s = mx \<and> windowMs s = w \<and> distinct (map fst (requests s))"
proof (induction evs arbitrary: s log rule: rev_induct)
  case Nil
  then show ?case by (auto simp: new_RateLimiter_def)
next
  case (snoc e evs)
  obtain s0 log0 where r0: "run (new_RateLimiter mx w) evs = (s0, log0)" by force
  from snoc.IH [OF r0] have ih: "maxRequests s0 = mx" "windowMs s0 = w" "distinct (map fst (requests s0))"
    by simp_all
  show ?case
  proof (cases e)
    case (Check j t)
    with snoc.prems r0 have "s = snd (check s0 j t)"
      by (auto simp: run_snoc split: prod.splits)
    with ih show ?thesis by (simp add: check_distinct)
  next
    case (Cleanup t)
    with snoc.prems r0 have "s = cleanup s0 t"
      by (auto simp: run_snoc)
    with ih show ?thesis by (simp add: cleanup_distinct)
  qed
qed

lemma run_window:
  "run (new_RateLimiter mx w) evs = (s, log) \<Longrightarrow> \<forall>e\<in>set evs. event_time e \<le> now \<Longrightarrow>
     filter (\<lambda>x. now - w < x) (window_of s i) = filter (\<lambda>x. now - w < x) (admitted_times log i)"
proof (induction evs arbitrary: s log rule: rev_induct)
  case Nil
  then show ?case by (auto simp: new_RateLimiter_def window_of_def admitted_times_def)
next
  case (snoc e evs)
  obtain s0 log0 where r0: "run (new_RateLimiter mx w) evs = (s0, log0)" by force
  from snoc.prems have le: "\<forall>e\<in>set evs. event_time e \<le> now" and le_e: "event_time e \<le> now" by simp_all
  note ih = snoc.IH [OF r0 le]
  from run_fields [OF r0] have f: "windowMs s0 = w" "distinct (map fst (requests s0))" by simp_all
  show ?case
  proof (cases e)
    case (Check j t)
    with snoc.prems r0 have s: "s = snd (check s0 j t)" and l: "log = log0 @ [(j, t, fst (check s0 j t))]"
      by (auto simp: run_snoc split: prod.splits)
    from le_e Check have t: "t \<le> now" by simp
    show ?thesis
    proof (cases "j = i")
      case True
      with ih f t show ?thesis
        by (simp add: s l admitted_times_snoc check_window_same filter_window_mono)
    next
      case False
      with ih show ?thesis
        by (simp add: s l admitted_times_snoc check_window_other)
    qed
  next
    case (Cleanup t)
    with snoc.prems r0 have s: "s = cleanup s0 t" and l: "log = log0"
      by (auto simp: run_snoc)
    from le_e Cleanup have t: "t \<le> now" by simp
    with ih f show ?thesis
      by (simp add: s l cleanup_window filter_window_mono)
  qed
qed

lemma run_last_remaining:
  "run (new_RateLimiter mx w) evs = (s, log) \<Longrightarrow> \<forall>e\<in>set evs. event_time e \<le> now \<Longrightarrow>
   admitted_results log i \<noteq> [] \<Longrightarrow>
     0 \<le> remaining (last (admitted_results log i)) \<and>
     int (length (filter (\<lambda>x. now - w < x) (window_of s i))) \<le> mx - remaining (last (admitted_results log i))"
proof (induction evs arbitrary: s log rule: rev_induct)
  case Nil
  then show ?case by (auto simp: admitted_results_def)
next
  case (snoc e evs)
  obtain s0 log0 where r0: "run (new_RateLimiter mx w) evs = (s0, log0)" by force
  from snoc.prems have le: "\<forall>e\<in>set evs. event_time e \<le> now" and le_e: "event_time e \<le> now" by simp_all
  note ih = snoc.IH [OF r0 le]
  from run_fields [OF r0] have f: "maxRequests s0 = mx" "windowMs s0 = w" "distinct (map fst (requests s0))"
    by simp_all
  show ?case
  proof (cases e)
    case (Check j t)
    with snoc.prems r0 have s: "s = snd (check s0 j t)" and l: "log = log0 @ [(j, t, fst (check s0 j t))]"
      by (auto simp: run_snoc split: prod.splits)
    from le_e Check have t: "t \<le> now" by simp
    show ?thesis
    proof (cases "j = i")
      case False
      with ih snoc.prems(3) show ?thesis
        by (simp add: s l admitted_results_snoc check_window_other)
    next
      case True
      show ?thesis
      proof (cases "allowed (fst (check s0 i t))")
        case al: True
        have len: "length (filter (\<lambda>x. now - w < x) (window_of (snd (check s0 i t)) i))
                \<le> length (window_of (snd (check s0 i t)) i)"
          by (rule length_filter_le)
        from al have lt: "int (length (filter (\<lambda>x. x > t - w) (window_of s0 i))) < mx"
          using check_allowed_iff [of s0 i t] f by simp
        have rem: "remaining (fst (check s0 i t)) = mx - int (length (window_of (snd (check s0 i t)) i))"
          using check_remaining [OF al] f by simp
        have wlen: "int (length (window_of (snd (check s0 i t)) i)) \<le> mx"
          using lt al by (simp add: check_window_same f)
        from rem wlen len show ?thesis
          using True al by (simp add: s l admitted_results_snoc)
      next
        case na: False
        with snoc.prems(3) True have ne: "admitted_results log0 i \<noteq> []"
          by (simp add: l admitted_results_snoc)
        from ih [OF ne] na True f t show ?thesis
          by (simp add: s l admitted_results_snoc check_window_same filter_window_mono)
      qed
    qed
  next
    case (Cleanup t)
    with snoc.prems r0 have s: "s = cleanup s0 t" and l: "log = log0"
      by (auto simp: run_snoc)
    from le_e Cleanup have t: "t \<le> now" by simp
    with ih f snoc.prems(3) show ?thesis
      by (simp add: s l cleanup_window filter_window_mono)
  qed
qed

section \<open>Properties of the consolidated handler's rate limit\<close>

lemma update_absent: "k \<notin> fst ` set m \<Longrightarrow> AList.update k v m = m @ [(k, v)]"
  by (induction m) auto

lemma length_update_le: "length (AList.update k v m) \<le> Suc (length m)"
  by (induction m) auto

lemma length_update_present: "k \<in> fst ` set m \<Longrightarrow> length (AList.update k v m) = length m"
  by (induction m) auto

lemma delete_first_Cons: "delete_first ((k, v) # m) = AList.delete k m"
  by (simp add: delete_first_def first_key_def)

lemma delete_first_Cons_distinct:
  "k \<notin> fst ` set m \<Longrightarrow> delete_first ((k, v) # m) = m"
  by (simp add: delete_first_Cons)

lemma length_delete_first: "m \<noteq> [] \<Longrightarrow> length (delete_first m) < length m"
proof (cases m)
  case Nil
  then show "m \<noteq> [] \<Longrightarrow> ?thesis" by simp
next
  case (Cons e es)
  obtain k v where "e = (k, v)" by (cases e)
  with Cons show ?thesis
    using length_delete_le [of k es] by (simp add: delete_first_Cons)
qed

lemma distinct_delete_first: "distinct (map fst m) \<Longrightarrow> distinct (map fst (delete_first m))"
  by (auto simp: delete_first_def distinct_delete split: option.splits)

lemma keys_delete_first: "fst ` set (delete_first m) \<subseteq> fst ` set m"
proof (cases m)
  case Nil
  then show ?thesis by (simp add: delete_first_def first_key_def)
next
  case (Cons e es)
  obtain k v where "e = (k, v)" by (cases e)
  with Cons dom_delete_subset [of k es] show ?thesis
    by (auto simp: delete_first_Cons)
qed

lemma length_evict:
  "length m \<le> n \<Longrightarrow> 1000 \<le> n \<Longrightarrow>
   length (if length (AList.update ip ts m) > 1000 then delete_first (AList.update ip ts m)
           else AList.update ip ts m) \<le> n"
proof (cases "length (AList.update ip ts m) > 1000")
  case True
  assume le: "length m \<le> n"
  have "AList.update ip ts m \<noteq> []" by simp
  from length_delete_first [OF this] length_update_le [of ip ts m] le True
  show ?thesis by simp
next
  case False
  assume "1000 \<le> n"
  with False show ?thesis by simp
qed

lemma checkRateLimit_length:
  assumes "length m \<le> n" and "1000 \<le> n"
  shows "length (snd (checkRateLimit m ip t)) \<le> n"
proof (cases "fst (checkRateLimit m ip t)")
  case True
  then have "snd (checkRateLimit m ip t) =
      (let stored = AList.update ip (filter (\<lambda>x. t - x < RATE_WINDOW)
                       (case map_of m ip of Some ts \<Rightarrow> ts | None \<Rightarrow> []) @ [t]) m
       in if length stored > 1000 then delete_first stored else stored)"
    by (simp add: checkRateLimit_def Let_def split: if_splits)
  with length_evict [OF assms] show ?thesis by (simp add: Let_def)
next
  case False
  then have "snd (checkRateLimit m ip t) = m"
    by (simp add: checkRateLimit_def Let_def split: if_splits)
  with assms show ?thesis by simp
qed

lemma run_checks_Nil [simp]: "run_checks [] = ([], [])"
  by (simp add: run_checks_def)

lemma run_checks_snoc: "run_checks (calls @ [c]) = exec_check (run_checks calls) c"
  by (simp add: run_checks_def)

lemma exec_check_fst: "fst (exec_check (m, log) (ip, t)) = snd (checkRateLimit m ip t)"
  by (simp add: split_beta)

lemma run_checks_length: "length (fst (run_checks calls)) \<le> 1000"
proof (induction calls rule: rev_induct)
  case Nil
  then show ?case by simp
next
  case (snoc c calls)
  obtain ip t where c: "c = (ip, t)" by (cases c)
  obtain m log where r: "run_checks calls = (m, log)" by force
  with snoc.IH have "length m \<le> 1000" by simp
  moreover have "(1000::nat) \<le> 1000" by simp
  ultimately have "length (snd (checkRateLimit m ip t)) \<le> 1000" by (rule checkRateLimit_length)
  then show ?case
    by (simp add: run_checks_snoc r c split_beta)
qed

lemma checkRateLimit_new:
  assumes "ip \<notin> fst ` set m"
  shows "checkRateLimit m ip t =
           (True, if length m \<ge> 1000 then delete_first (m @ [(ip, [t])]) else m @ [(ip, [t])])"
proof -
  from assms have "map_of m ip = None" by (simp add: map_of_eq_None_iff)
  with assms show ?thesis
    by (simp add: checkRateLimit_def Let_def MAX_REQUESTS_def update_absent)
qed

lemma checkRateLimit_fst:
  "fst (checkRateLimit m ip t) \<longleftrightarrow>
     length (filter (\<lambda>x. t - x < RATE_WINDOW) (stored_window m ip)) < MAX_REQUESTS"
  by (auto simp: checkRateLimit_def Let_def stored_window_def)

lemma checkRateLimit_rejected:
  "\<not> fst (checkRateLimit m ip t) \<Longrightarrow> checkRateLimit m ip t = (False, m)"
  by (auto simp: checkRateLimit_def Let_def split: if_splits)

lemma checkRateLimit_stored:
  "fst (checkRateLimit m ip t) \<Longrightarrow>
   length (AList.update ip (filter (\<lambda>x. t - x < RATE_WINDOW) (stored_window m ip) @ [t]) m) \<le> 1000 \<Longrightarrow>
   snd (checkRateLimit m ip t) =
     AList.update ip (filter (\<lambda>x. t - x < RATE_WINDOW) (stored_window m ip) @ [t]) m"
  by (auto simp: checkRateLimit_def Let_def stored_window_def split: if_splits)

lemma checkRateLimit_distinct:
  "distinct (map fst m) \<Longrightarrow> distinct (map fst (snd (checkRateLimit m ip t)))"
  by (simp add: checkRateLimit_def Let_def distinct_update distinct_delete_first)

lemma checkRateLimit_keys:
  "fst ` set (snd (checkRateLimit m ip t)) \<subseteq> insert ip (fst ` set m)"
proof -
  have "\<And>ts. fst ` set (delete_first (AList.update ip ts m)) \<subseteq> insert ip (fst ` set m)"
    using keys_delete_first [of "AList.update ip _ m"] by (simp add: dom_update)
  then show ?thesis
    by (auto simp: checkRateLimit_def Let_def dom_update)
qed

lemma run_checks_keys:
  "distinct (map fst (fst (run_checks calls))) \<and> fst ` set (fst (run_checks calls)) \<subseteq> fst ` set calls"
proof (induction calls rule: rev_induct)
  case Nil
  then show ?case by simp
next
  case (snoc c calls)
  obtain ip t where c: "c = (ip, t)" by (cases c)
  obtain m log where r: "run_checks calls = (m, log)" by force
  with snoc.IH have d: "distinct (map fst m)" and k: "fst ` set m \<subseteq> fst ` set calls" by simp_all
  have eq: "fst (run_checks (calls @ [c])) = snd (checkRateLimit m ip t)"
    by (simp add: run_checks_snoc r c split_beta)
  from checkRateLimit_keys [of m ip t] k
  have "fst ` set (snd (checkRateLimit m ip t)) \<subseteq> fst ` set (calls @ [c])"
    by (auto simp: c)
  with checkRateLimit_distinct [OF d] eq show ?case by simp
qed

lemma length_keys_card: "distinct (map fst m) \<Longrightarrow> length m = card (fst ` set m)"
  using distinct_card [of "map fst m"] by simp

lemma filter_rate_window_mono:
  "t \<le> now \<Longrightarrow> filter (\<lambda>x. t - x < RATE_WINDOW \<and> now - x < RATE_WINDOW) xs
                 = filter (\<lambda>x. now - x < RATE_WINDOW) xs"
  by (induction xs) auto

lemma passed_times_snoc:
  "passed_times (log @ [(j, t, ok)]) ip = passed_times log ip @ (if j = ip \<and> ok then [t] else [])"
  by (simp add: passed_times_def)

lemma stored_window_update:
  "stored_window (AList.update j ts m) ip = (if j = ip then ts else stored_window m ip)"
  by (simp add: stored_window_def update_conv')

lemma run_checks_window:
  "card (fst ` set calls) \<le> 1000 \<Longrightarrow> \<forall>c\<in>set calls. snd c \<le> now \<Longrightarrow>
     filter (\<lambda>x. now - x < RATE_WINDOW) (stored_window (fst (run_checks calls)) ip)
   = filter (\<lambda>x. now - x < RATE_WINDOW) (passed_times (snd (run_checks calls)) ip)"
proof (induction calls rule: rev_induct)
  case Nil
  then show ?case by (simp add: stored_window_def passed_times_def)
next
  case (snoc c calls)
  obtain j t where c: "c = (j, t)" by (cases c)
  obtain m log where r: "run_checks calls = (m, log)" by force
  have sub: "fst ` set calls \<subseteq> fst ` set (calls @ [c])" by auto
  have "card (fst ` set calls) \<le> card (fst ` set (calls @ [c]))"
    by (rule card_mono) (use sub in auto)
  with snoc.prems have card: "card (fst ` set calls) \<le> 1000" by simp
  from snoc.prems have le: "\<forall>c\<in>set calls. snd c \<le> now" and t: "t \<le> now" by (simp_all add: c)
  from snoc.IH [OF card le] r
  have ih: "filter (\<lambda>x. now - x < RATE_WINDOW) (stored_window m ip)
          = filter (\<lambda>x. now - x < RATE_WINDOW) (passed_times log ip)" by simp
  from run_checks_keys [of calls] r
  have d: "distinct (map fst m)" and k: "fst ` set m \<subseteq> fst ` set calls" by simp_all
  have st: "fst (run_checks (calls @ [c])) = snd (checkRateLimit m j t)"
    and lg: "snd (run_checks (calls @ [c])) = log @ [(j, t, fst (checkRateLimit m j t))]"
    by (simp_all add: run_checks_snoc r c split_beta)
  show ?case
  proof (cases "fst (checkRateLimit m j t)")
    case False
    from checkRateLimit_rejected [OF False] ih show ?thesis
      by (simp add: st lg passed_times_snoc)
  next
    case True
    let ?stored = "AList.update j (filter (\<lambda>x. t - x < RATE_WINDOW) (stored_window m j) @ [t]) m"
    have "distinct (map fst ?stored)" using d by (simp add: distinct_update)
    then have "length ?stored = card (fst ` set ?stored)" by (rule length_keys_card)
    also have "\<dots> \<le> card (fst ` set (calls @ [c]))"
      by (rule card_mono) (use k in \<open>auto simp: dom_update c\<close>)
    finally have "length ?stored \<le> 1000" using snoc.prems(1) by simp
    from checkRateLimit_stored [OF True this] have snd_eq: "snd (checkRateLimit m j t) = ?stored" .
    have w: "stored_window (snd (checkRateLimit m j t)) ip =
               (if j = ip then filter (\<lambda>x. t - x < RATE_WINDOW) (stored_window m ip) @ [t]
                else stored_window m ip)"
      by (simp add: snd_eq stored_window_update)
    from ih t True show ?thesis
      by (simp add: st lg w passed_times_snoc filter_rate_window_mono)
  qed
qed

lemma checkRateLimit_after_quota:
  assumes "card (fst ` set calls) \<le> 1000" and "\<forall>c\<in>set calls. snd c \<le> now"
    and "length (filter (\<lambda>t. now - t < RATE_WINDOW) (passed_times (snd (run_checks calls)) ip)) = MAX_REQUESTS"
  shows "checkRateLimit (fst (run_checks calls)) ip now = (False, fst (run_checks calls))"
proof -
  from run_checks_window [OF assms(1,2), of ip] assms(3)
  have "\<not> fst (checkRateLimit (fst (run_checks calls)) ip now)"
    by (simp add: checkRateLimit_fst)
  then show ?thesis by (rule checkRateLimit_rejected)
qed

lemma fill_fresh:
  "distinct ks \<Longrightarrow> set ks \<inter> fst ` set m = {} \<Longrightarrow> length m + length ks \<le> 1000 \<Longrightarrow>
     foldl exec_check (m, log) (map (\<lambda>k. (k, t)) ks)
       = (m @ map (\<lambda>k. (k, [t])) ks, log @ map (\<lambda>k. (k, t, True)) ks)"
proof (induction ks arbitrary: m log)
  case Nil
  then show ?case by simp
next
  case (Cons k ks)
  from Cons.prems have fresh: "k \<notin> fst ` set m" and short: "length m < 1000" by auto
  have step: "checkRateLimit m k t = (True, m @ [(k, [t])])"
    using checkRateLimit_new [OF fresh, of t] short by simp
  from Cons.prems have "distinct ks" "set ks \<inter> fst ` set (m @ [(k, [t])]) = {}"
    "length (m @ [(k, [t])]) + length ks \<le> 1000" by auto
  from Cons.IH [OF this] step show ?case by simp
qed

lemma fresh_after_full:
  assumes "ip \<notin> fst ` set m" "ip \<noteq> k" "k \<notin> fst ` set m" "length m = 999"
  shows "checkRateLimit ((k, v) # m) ip t = (True, m @ [(ip, [t])])"
proof -
  from assms have "ip \<notin> fst ` set ((k, v) # m)" by simp
  moreover from assms have "k \<notin> fst ` set (m @ [(ip, [t])])" by auto
  then have "AList.delete k (m @ [(ip, [t])]) = m @ [(ip, [t])]" by (rule delete_id)
  ultimately show ?thesis
    using checkRateLimit_new [of ip "(k, v) # m" t] assms(4)
    by (simp add: delete_first_Cons)
qed

lemma repeat_calls:
  "Suc n \<le> MAX_REQUESTS \<Longrightarrow>
     foldl exec_check ([], []) (replicate (Suc n) (a, 0))
       = ([(a, replicate (Suc n) 0)], replicate (Suc n) (a, 0, True))"
proof (induction n)
  case 0
  then show ?case by (simp add: checkRateLimit_def MAX_REQUESTS_def)
next
  case (Suc n)
  from Suc.prems have le: "Suc n \<le> MAX_REQUESTS" by simp
  note ih = Suc.IH [OF le]
  have split: "replicate (Suc (Suc n)) (a, 0::int) = replicate (Suc n) (a, 0) @ [(a, 0)]"
    by (simp only: replicate_append_same) simp
  have step: "checkRateLimit [(a, replicate (Suc n) 0)] a 0 = (True, [(a, replicate (Suc n) 0 @ [0])])"
    using Suc.prems by (simp add: checkRateLimit_def Let_def RATE_WINDOW_def MAX_REQUESTS_def)
  have r1: "replicate (Suc n) (0::int) @ [0] = replicate (Suc (Suc n)) 0"
    by (simp only: replicate_append_same) simp
  have r2: "replicate (Suc n) (a, 0::int, True) @ [(a, 0, True)] = replicate (Suc (Suc n)) (a, 0, True)"
    by (simp only: replicate_append_same) simp
  show ?case
    unfolding split foldl_append ih using step r1 r2 by simp
qed

lemma first_calls:
  "foldl exec_check ([], []) (replicate 29 (a, 0)) = ([(a, replicate 29 0)], replicate 29 (a, 0, True))"
proof -
  have "Suc 28 \<le> MAX_REQUESTS" by (simp add: MAX_REQUESTS_def)
  from repeat_calls [OF this, of a] show ?thesis by simp
qed

lemma run_checks_evict:
  assumes d: "distinct ks" and z: "a \<notin> set ks" and len: "length ks = 1000"
  shows "run_checks (replicate 29 (a, 0) @ map (\<lambda>k. (k, 0)) ks @ [(a, 0)]) =
           (map (\<lambda>k. (k, [0])) (tl ks) @ [(a, [0])],
            replicate 29 (a, 0, True) @ map (\<lambda>k. (k, 0, True)) ks @ [(a, 0, True)])"
proof -
  from len obtain k1 ks1 where ks: "ks = k1 # ks1" by (cases ks) auto
  with len have len1: "length ks1 = 999" by simp
  then have "ks1 \<noteq> []" by auto
  then obtain ks0 kl where ks1: "ks1 = ks0 @ [kl]" by (metis append_butlast_last_id)
  with len1 have len0: "length ks0 = 998" by simp
  let ?f = "\<lambda>k. (k, [0::int])"
  let ?g = "\<lambda>k. (k, 0::int, True)"
  let ?l29 = "replicate 29 (a, 0::int, True)"
  have s1: "foldl exec_check ([(a, replicate 29 0)], ?l29) (map (\<lambda>k. (k, 0)) (k1 # ks0))
             = ([(a, replicate 29 0)] @ map ?f (k1 # ks0), ?l29 @ map ?g (k1 # ks0))"
    by (rule fill_fresh) (use d z len0 in \<open>auto simp: ks ks1\<close>)
  have s2: "checkRateLimit ((a, replicate 29 0) # map ?f (k1 # ks0)) kl 0
             = (True, map ?f (k1 # ks0) @ [(kl, [0])])"
    by (rule fresh_after_full) (use d z len0 in \<open>auto simp: ks ks1 image_iff\<close>)
  have s3: "checkRateLimit ((k1, [0]) # (map ?f ks0 @ [(kl, [0])])) a 0
             = (True, (map ?f ks0 @ [(kl, [0])]) @ [(a, [0])])"
    by (rule fresh_after_full) (use d z len0 in \<open>auto simp: ks ks1 image_iff\<close>)
  show ?thesis
    using s1 s2 s3 by (simp add: run_checks_def ks ks1 first_calls)
qed

lemma passed_times_evict:
  "a \<notin> set ks \<Longrightarrow>
   passed_times (replicate 29 (a, 0, True) @ map (\<lambda>k. (k, 0, True)) ks @ [(a, 0, True)]) a
     = replicate 29 0 @ [0]"
proof -
  assume "a \<notin> set ks"
  then have "filter (\<lambda>(j, t, ok). j = a \<and> ok) (map (\<lambda>k. (k, 0::int, True)) ks) = []"
    by (auto simp: filter_empty_conv)
  then show ?thesis by (simp add: passed_times_def)
qed

lemma stored_window_evict:
  "a \<notin> set ks \<Longrightarrow> stored_window (map (\<lambda>k. (k, [0])) (tl ks) @ [(a, [0])]) a = [0]"
proof -
  assume "a \<notin> set ks"
  then have "a \<notin> set (tl ks)" by (cases ks) auto
  then have "map_of (map (\<lambda>k. (k, [0::int])) (tl ks)) a = None"
    by (simp add: map_of_eq_None_iff image_iff)
  then show ?thesis by (simp add: stored_window_def map_add_def)
qed

lemma crowd_facts: "distinct crowd" "''a'' \<notin> set crowd" "length crowd = 1000"
  by (auto simp: crowd_def distinct_map inj_on_def simp del: upt_rec_numeral)

lemma check_after_quota:
  assumes mx: "0 < mx"
    and le: "\<forall>e\<in>set evs. event_time e \<le> now"
    and cnt: "int (length (filter (\<lambda>t. now - w < t)
                (admitted_times (snd (run (new_RateLimiter mx w) evs)) i))) = mx"
  shows "fst (check (fst (run (new_RateLimiter mx w) evs)) i now) =
           \<lparr>allowed = False, remaining = 0,
            resetAt = Fin (Min (set (filter (\<lambda>t. now - w < t)
                        (admitted_times (snd (run (new_RateLimiter mx w) evs)) i))) + w)\<rparr>
         \<and> remaining (last (admitted_results (snd (run (new_RateLimiter mx w) evs)) i)) = 0"
proof -
  obtain s log where run: "run (new_RateLimiter mx w) evs = (s, log)" by force
  let ?adm = "filter (\<lambda>t. now - w < t) (admitted_times log i)"
  from run_fields [OF run] have f: "maxRequests s = mx" "windowMs s = w" by simp_all
  have win: "filter (\<lambda>x. now - w < x) (window_of s i) = ?adm"
    by (rule run_window [OF run le])
  from cnt mx run have ne: "?adm \<noteq> []" by auto
  from cnt run have cnt': "int (length ?adm) = mx" by simp
  have "\<not> allowed (fst (check s i now))"
    using check_allowed_iff [of s i now] f win cnt' by simp
  from check_rejected [OF this]
  have first: "fst (check s i now) = \<lparr>allowed = False, remaining = 0, resetAt = Fin (Min (set ?adm) + w)\<rparr>"
    using f win math_min_Min [OF ne] by simp
  from ne have "admitted_times log i \<noteq> []" by auto
  then have "admitted_results log i \<noteq> []" by (simp add: admitted_results_Nil_iff)
  from run_last_remaining [OF run le this] win cnt'
  have "remaining (last (admitted_results log i)) = 0" by simp
  with first show ?thesis by (simp add: run)
qed

text \<open>
  C1 (amended). On a limiter of the class created empty with a positive \<open>maxRequests\<close>,
  take any history of \<^verbatim>\<open>check\<close> calls (of any identifiers) and \<^verbatim>\<open>cleanup\<close> runs, and a next call
  no earlier than each of them. If exactly \<open>maxRequests\<close> admitted calls of an identifier lie
  within \<open>windowMs\<close> of the next call, then that call returns \<open>allowed = false\<close>,
  \<open>remaining = 0\<close> and \<open>resetAt\<close> equal to the earliest of these timestamps plus
  \<open>windowMs\<close>, and the last admitted call of the identifier returned \<open>remaining = 0\<close>.
  The consolidated handler's \<^verbatim>\<open>checkRateLimit\<close> returns only a boolean: after exactly
  \<open>MAX_REQUESTS\<close> calls of an address that returned true within \<open>RATE_WINDOW\<close>, the next
  call returns false and leaves the map as it is, provided at most 1000 distinct addresses
  have called, so that no window has been evicted.
\<close>

theorem C1_next_call_after_quota:
  "(0 < mx \<and> (\<forall>e\<in>set evs. event_time e \<le> now) \<and>
    int (length (filter (\<lambda>t. now - w < t)
           (admitted_times (snd (run (new_RateLimiter mx w) evs)) i))) = mx
    \<longrightarrow> fst (check (fst (run (new_RateLimiter mx w) evs)) i now) =
           \<lparr>allowed = False, remaining = 0,
            resetAt = Fin (Min (set (filter (\<lambda>t. now - w < t)
                        (admitted_times (snd (run (new_RateLimiter mx w) evs)) i))) + w)\<rparr>
         \<and> remaining (last (admitted_results (snd (run (new_RateLimiter mx w) evs)) i)) = 0)
   \<and> (card (fst ` set calls) \<le> 1000 \<and> (\<forall>c\<in>set calls. snd c \<le> now') \<and>
      length (filter (\<lambda>t. now' - t < RATE_WINDOW) (passed_times (snd (run_checks calls)) ip)) = MAX_REQUESTS
    \<longrightarrow> checkRateLimit (fst (run_checks calls)) ip now' = (False, fst (run_checks calls)))"
  using check_after_quota [of mx evs now w i] checkRateLimit_after_quota [of calls now' ip]
  by blast

text \<open>
  The scenario of the specification with \<open>maxRequests = 3\<close> and \<open>windowMs = 1000\<close>: three
  admitted calls at time 0, a call of another client and a cleanup in between, and the call at
  time 100 is rejected with \<open>resetAt = 1000\<close>; and thirty calls of one address on the
  consolidated handler's limiter.
\<close>

theorem C1_next_call_after_quota_witness:
  "0 < (3::int) \<and>
   int (length (filter (\<lambda>t. 100 - 1000 < t)
      (admitted_times (snd (run (new_RateLimiter 3 1000) [Check ''10.0.0.1'' 0, Check ''10.0.0.1'' 0, Check ''10.0.0.2'' 0, Cleanup 50, Check ''10.0.0.1'' 0])) ''10.0.0.1''))) = 3 \<and>
   fst (check (fst (run (new_RateLimiter 3 1000) [Check ''10.0.0.1'' 0, Check ''10.0.0.1'' 0, Check ''10.0.0.2'' 0, Cleanup 50, Check ''10.0.0.1'' 0])) ''10.0.0.1'' 100) =
           \<lparr>allowed = False, remaining = 0, resetAt = Fin 1000\<rparr>
   \<and> remaining (last (admitted_results (snd (run (new_RateLimiter 3 1000) [Check ''10.0.0.1'' 0, Check ''10.0.0.1'' 0, Check ''10.0.0.2'' 0, Cleanup 50, Check ''10.0.0.1'' 0])) ''10.0.0.1'')) = 0
   \<and> card (fst ` set (replicate 30 (''10.0.0.7'', 0::int))) \<le> 1000 \<and>
   length (filter (\<lambda>t. 100 - t < RATE_WINDOW) (passed_times (snd (run_checks (replicate 30 (''10.0.0.7'', 0)))) ''10.0.0.7'')) = MAX_REQUESTS
   \<and> checkRateLimit (fst (run_checks (replicate 30 (''10.0.0.7'', 0)))) ''10.0.0.7'' 100 = (False, fst (run_checks (replicate 30 (''10.0.0.7'', 0))))"
proof -
  let ?evs = "[Check ''10.0.0.1'' 0, Check ''10.0.0.1'' 0, Check ''10.0.0.2'' 0, Cleanup 50, Check ''10.0.0.1'' 0]"
  let ?calls = "replicate 30 (''10.0.0.7'', 0::int)"
  have h1: "0 < (3::int)" by simp
  have h2: "\<forall>e\<in>set ?evs. event_time e \<le> 100" by simp
  have adm: "admitted_times (snd (run (new_RateLimiter 3 1000) ?evs)) ''10.0.0.1'' = [0, 0, 0]"
    by code_simp
  have h3: "int (length (filter (\<lambda>t. 100 - 1000 < t)
      (admitted_times (snd (run (new_RateLimiter 3 1000) ?evs)) ''10.0.0.1''))) = 3"
    by (simp add: adm)
  have h4: "card (fst ` set ?calls) \<le> 1000" by simp
  have h5: "\<forall>c\<in>set ?calls. snd c \<le> 100" by simp
  have h6: "length (filter (\<lambda>t. 100 - t < RATE_WINDOW) (passed_times (snd (run_checks ?calls)) ''10.0.0.7'')) = MAX_REQUESTS"
    by code_simp
  from C1_next_call_after_quota [of 3 ?evs 100 1000 "''10.0.0.1''" ?calls 100 "''10.0.0.7''"] h1 h2 h3 h4 h5 h6
  have c: "fst (check (fst (run (new_RateLimiter 3 1000) ?evs)) ''10.0.0.1'' 100) =
           \<lparr>allowed = False, remaining = 0,
            resetAt = Fin (Min (set (filter (\<lambda>t. 100 - 1000 < t)
                        (admitted_times (snd (run (new_RateLimiter 3 1000) ?evs)) ''10.0.0.1''))) + 1000)\<rparr>
         \<and> remaining (last (admitted_results (snd (run (new_RateLimiter 3 1000) ?evs)) ''10.0.0.1'')) = 0
         \<and> checkRateLimit (fst (run_checks ?calls)) ''10.0.0.7'' 100 = (False, fst (run_checks ?calls))"
    by blast
  have "Min (set (filter (\<lambda>t. 100 - 1000 < t) [0, 0, 0::int])) = 0" by simp
  with c h1 h3 h4 h6 show ?thesis by (simp only: adm) simp
qed

text \<open>
  The claim as stated fails on the consolidated handler's limiter: in the history
  \<open>evict_calls\<close> the client \<^verbatim>\<open>a\<close> has made exactly \<open>MAX_REQUESTS\<close> calls that returned true,
  all at clock reading 0, and its next call at the same reading returns true again, because
  the 1001st address evicted its window after 29 of them.
\<close>

theorem C1_counterexample:
  "length (filter (\<lambda>t. 0 - t < RATE_WINDOW) (passed_times (snd (run_checks evict_calls)) ''a'')) = MAX_REQUESTS
   \<and> fst (checkRateLimit (fst (run_checks evict_calls)) ''a'' 0)"
proof -
  have r: "run_checks evict_calls =
           (map (\<lambda>k. (k, [0])) (tl crowd) @ [(''a'', [0])],
            replicate 29 (''a'', 0, True) @ map (\<lambda>k. (k, 0, True)) crowd @ [(''a'', 0, True)])"
    unfolding evict_calls_def by (rule run_checks_evict) (rule crowd_facts)+
  have p: "passed_times (snd (run_checks evict_calls)) ''a'' = replicate 29 0 @ [0]"
    unfolding r snd_conv by (rule passed_times_evict) (rule crowd_facts)
  have w: "stored_window (fst (run_checks evict_calls)) ''a'' = [0]"
    unfolding r fst_conv by (rule stored_window_evict) (rule crowd_facts)
  show ?thesis
    unfolding p checkRateLimit_fst w by (simp add: MAX_REQUESTS_def RATE_WINDOW_def)
qed

lemma evict_oldest:
  assumes d: "distinct (map fst m)" and len: "length m = 1000" and new: "ip \<notin> fst ` set m"
  shows "checkRateLimit m ip now = (True, tl m @ [(ip, [now])])"
    and "stored_window (tl m @ [(ip, [now])]) (fst (hd m)) = []"
    and "fst (checkRateLimit (tl m @ [(ip, [now])]) (fst (hd m)) now')"
proof -
  from len obtain k v m' where m: "m = (k, v) # m'" by (cases m) auto
  from d m have k: "k \<notin> fst ` set m'" by auto
  from new m have ne: "ip \<noteq> k" by auto
  from k ne have "k \<notin> fst ` set (m' @ [(ip, [now])])" by auto
  then have del: "AList.delete k (m' @ [(ip, [now])]) = m' @ [(ip, [now])]" by (rule delete_id)
  from checkRateLimit_new [OF new, of now] len
  show "checkRateLimit m ip now = (True, tl m @ [(ip, [now])])"
    by (simp add: m delete_first_Cons del)
  from k ne have "map_of (m' @ [(ip, [now])]) k = None"
    by (simp add: map_of_eq_None_iff)
  then show w: "stored_window (tl m @ [(ip, [now])]) (fst (hd m)) = []"
    by (simp add: m stored_window_def map_add_def split: option.splits)
  show "fst (checkRateLimit (tl m @ [(ip, [now])]) (fst (hd m)) now')"
    by (simp add: checkRateLimit_fst w MAX_REQUESTS_def)
qed

text \<open>
  C10. After every rate-limit check of the consolidated handler, on a map that started empty,
  the map holds at most 1001 entries (\<open>run_checks_length\<close> gives 1000). When the map holds
  1000 addresses and a new address is admitted, the earliest-inserted address is deleted with
  its whole window, whatever timestamps the window holds, so the next call of that address is
  admitted from an empty window.
\<close>

theorem C10_map_bound_and_eviction:
  "length (fst (run_checks calls)) \<le> 1001
   \<and> (distinct (map fst m) \<and> length m = 1000 \<and> ip \<notin> fst ` set m \<longrightarrow>
        checkRateLimit m ip now = (True, tl m @ [(ip, [now])])
        \<and> stored_window (tl m @ [(ip, [now])]) (fst (hd m)) = []
        \<and> fst (checkRateLimit (tl m @ [(ip, [now])]) (fst (hd m)) now'))"
proof -
  have "length (fst (run_checks calls)) \<le> 1000" by (rule run_checks_length)
  then have "length (fst (run_checks calls)) \<le> 1001" by simp
  with evict_oldest(1) [of m ip now] evict_oldest(2) [of m ip now] evict_oldest(3) [of m ip now now']
  show ?thesis by blast
qed

text \<open>
  In the full map the first client \<^verbatim>\<open>x\<close> is rejected at time 0; the new client \<^verbatim>\<open>a\<close> is
  admitted, \<^verbatim>\<open>x\<close> is evicted with its thirty requests, and is admitted on its next call.
\<close>

lemma crowded_map_facts:
  "distinct (map fst crowded_map)" "length crowded_map = 1000" "''a'' \<notin> fst ` set crowded_map"
  using crowd_facts by (simp_all add: crowded_map_def comp_def image_iff)

lemma crowded_map_first: "stored_window crowded_map ''x'' = replicate 30 0"
proof -
  have "[0..<1000] = 0 # [Suc 0..<1000]" by (rule upt_conv_Cons) simp
  then show ?thesis
    by (simp add: crowded_map_def crowd_def stored_window_def del: upt_rec_numeral)
qed

theorem C10_map_bound_and_eviction_witness:
  "distinct (map fst crowded_map) \<and> length crowded_map = 1000 \<and> ''a'' \<notin> fst ` set crowded_map
   \<and> stored_window crowded_map ''x'' = replicate 30 0
   \<and> fst (checkRateLimit crowded_map ''x'' 0) = False
   \<and> checkRateLimit crowded_map ''a'' 0 = (True, tl crowded_map @ [(''a'', [0])])
   \<and> fst (hd crowded_map) = ''x''
   \<and> fst (checkRateLimit (tl crowded_map @ [(''a'', [0])]) (fst (hd crowded_map)) 0)"
proof -
  have before: "fst (checkRateLimit crowded_map ''x'' 0) = False"
    by (simp add: checkRateLimit_fst crowded_map_first MAX_REQUESTS_def RATE_WINDOW_def)
  have "[0..<1000] = 0 # [Suc 0..<1000]" by (rule upt_conv_Cons) simp
  then have first: "fst (hd crowded_map) = ''x''"
    by (simp add: crowded_map_def crowd_def del: upt_rec_numeral)
  have hyps: "distinct (map fst crowded_map) \<and> length crowded_map = 1000 \<and> ''a'' \<notin> fst ` set crowded_map"
    by (intro conjI crowded_map_facts)
  have "distinct (map fst crowded_map) \<and> length crowded_map = 1000 \<and> ''a'' \<notin> fst ` set crowded_map \<longrightarrow>
        checkRateLimit crowded_map ''a'' 0 = (True, tl crowded_map @ [(''a'', [0])])
        \<and> stored_window (tl crowded_map @ [(''a'', [0])]) (fst (hd crowded_map)) = []
        \<and> fst (checkRateLimit (tl crowded_map @ [(''a'', [0])]) (fst (hd crowded_map)) 0)"
    by (rule conjunct2 [OF C10_map_bound_and_eviction [of "[]::(string \<times> int) list" crowded_map "''a''" 0 0]])
  note after = mp [OF this hyps]
  from after have c1: "checkRateLimit crowded_map ''a'' 0 = (True, tl crowded_map @ [(''a'', [0])])"
    by (rule conjunct1)
  from after have c3: "fst (checkRateLimit (tl crowded_map @ [(''a'', [0])]) (fst (hd crowded_map)) 0)"
    by (rule conjunct2 [THEN conjunct2])
  from crowded_map_facts crowded_map_first before c1 first c3 show ?thesis
    by - (intro conjI, assumption+)
qed

section \<open>Properties of the TTL caches\<close>


lemma getCache_fresh:
  "map_get cache key = Some item \<Longrightarrow> now - timestamp item \<le> CACHE_TTL \<Longrightarrow>
     getCache cache key now = (Some (data item), cache)"
  by (simp add: getCache_def)




lemma getCachedData_hit:
  "map_get cache key = Some item \<Longrightarrow> now - timestamp item < CACHE_DURATION \<Longrightarrow>
     getCachedData cache key fetched now = (Inr (data item), cache, False)"
  by (simp add: getCachedData_def Let_def)

lemma getCachedData_miss:
  "map_get cache key = Some item \<Longrightarrow> now - timestamp item \<ge> CACHE_DURATION \<Longrightarrow>
     snd (snd (getCachedData cache key fetched now))"
  by (simp add: getCachedData_def Let_def split: sum.splits)




lemma delete_first_distinct:
  "distinct (map fst cache) \<Longrightarrow> delete_first cache = tl cache"
proof (cases cache)
  case Nil
  then show ?thesis by (simp add: delete_first_def first_key_def)
next
  case (Cons e es)
  assume "distinct (map fst cache)"
  with Cons show ?thesis by (cases e) (simp add: delete_first_Cons)
qed

lemma setCache_full:
  "distinct (map fst cache) \<Longrightarrow> length cache \<ge> MAX_CACHE_SIZE \<Longrightarrow>
     setCache cache key d now = map_set (tl cache) key \<lparr>data = d, timestamp = now\<rparr>"
  by (simp add: setCache_def delete_first_distinct)

lemma setCache_full_new:
  assumes "distinct (map fst cache)" "length cache \<ge> MAX_CACHE_SIZE" "key \<notin> fst ` set cache"
  shows "setCache cache key d now = tl cache @ [(key, \<lparr>data = d, timestamp = now\<rparr>)]"
proof -
  from assms(3) have "key \<notin> fst ` set (tl cache)" by (cases cache) auto
  with setCache_full [OF assms(1,2)] show ?thesis by (simp add: update_absent)
qed

lemma setCache_overwrite:
  assumes "length cache < MAX_CACHE_SIZE" "key \<in> fst ` set cache"
  shows "map fst (setCache cache key d now) = map fst cache"
    and "map_get (setCache cache key d now) key = Some \<lparr>data = d, timestamp = now\<rparr>"
    and "\<forall>k. k \<noteq> key \<longrightarrow> map_get (setCache cache key d now) k = map_get cache k"
  using assms by (simp_all add: setCache_def update_keys update_conv')

lemma getCache_hit_pure: "fst (getCache cache key t) = Some w \<Longrightarrow> snd (getCache cache key t) = cache"
  by (auto simp: getCache_def split: option.splits if_splits)

text \<open>
  C3 (amended). In a cache at capacity (\<open>MAX_CACHE_SIZE\<close> entries or more), \<^verbatim>\<open>setCache\<close>
  first deletes the single earliest-inserted entry, whether or not the key is already
  present, and then inserts or overwrites the key with the current timestamp; with a new key
  the result is the old cache without its first entry and with the new entry last. Below
  capacity, \<^verbatim>\<open>setCache\<close> with a key already present overwrites it in place: the order of the
  keys and every other entry stay as they are. A hit of \<^verbatim>\<open>getCache\<close> leaves the cache as it
  is, so reads never change which entry is evicted next.
\<close>

theorem C3_set_evicts_oldest:
  "(distinct (map fst cache) \<and> length cache \<ge> MAX_CACHE_SIZE \<longrightarrow>
      setCache cache key d now = map_set (tl cache) key \<lparr>data = d, timestamp = now\<rparr>
      \<and> (key \<notin> fst ` set cache \<longrightarrow>
           setCache cache key d now = tl cache @ [(key, \<lparr>data = d, timestamp = now\<rparr>)]))
   \<and> (length cache' < MAX_CACHE_SIZE \<and> key' \<in> fst ` set cache' \<longrightarrow>
        map fst (setCache cache' key' d' now') = map fst cache'
        \<and> map_get (setCache cache' key' d' now') key' = Some \<lparr>data = d', timestamp = now'\<rparr>
        \<and> (\<forall>k. k \<noteq> key' \<longrightarrow> map_get (setCache cache' key' d' now') k = map_get cache' k))
   \<and> (fst (getCache cache'' key'' t) = Some w \<longrightarrow> snd (getCache cache'' key'' t) = cache'')"
  using setCache_full [of cache key d now] setCache_full_new [of cache key d now]
    setCache_overwrite [of cache' key' d' now'] getCache_hit_pure [of cache'' key'' t w]
  by blast

text \<open>
  The claim as stated fails for a key that is present in a full cache: overwriting
  \<^verbatim>\<open>sheet:xx\<close> in \<open>full_cache\<close> evicts the earliest-inserted entry \<^verbatim>\<open>sheet:x\<close> and leaves
  99 entries.
\<close>

theorem C3_counterexample:
  "length full_cache \<ge> MAX_CACHE_SIZE
   \<and> map_get full_cache ''sheet:xx'' = Some \<lparr>data = 1, timestamp = 0\<rparr>
   \<and> map_get full_cache ''sheet:x'' = Some \<lparr>data = 0, timestamp = 0\<rparr>
   \<and> map_get (setCache full_cache ''sheet:xx'' 7 1) ''sheet:xx'' = Some \<lparr>data = 7, timestamp = 1\<rparr>
   \<and> map_get (setCache full_cache ''sheet:xx'' 7 1) ''sheet:x'' = None
   \<and> length (setCache full_cache ''sheet:xx'' 7 1) = 99"
  by code_simp

text \<open>
  A new key set in \<open>full_cache\<close>, an overwrite in a cache of two entries, and a hit there.
\<close>

theorem C3_set_evicts_oldest_witness:
  "distinct (map fst full_cache) \<and> length full_cache \<ge> MAX_CACHE_SIZE
   \<and> ''list'' \<notin> fst ` set full_cache
   \<and> setCache full_cache ''list'' 7 1 = tl full_cache @ [(''list'', \<lparr>data = 7, timestamp = 1\<rparr>)]
   \<and> length [(''list'', \<lparr>data = 0::nat, timestamp = 0\<rparr>), (''sheet:a'', \<lparr>data = 1, timestamp = 0\<rparr>)]
         < MAX_CACHE_SIZE
   \<and> map fst (setCache [(''list'', \<lparr>data = 0::nat, timestamp = 0\<rparr>), (''sheet:a'', \<lparr>data = 1, timestamp = 0\<rparr>)]
                ''list'' 5 9)
       = map fst [(''list'', \<lparr>data = 0::nat, timestamp = 0\<rparr>), (''sheet:a'', \<lparr>data = 1, timestamp = 0\<rparr>)]
   \<and> fst (getCache [(''list'', \<lparr>data = 0::nat, timestamp = 0\<rparr>), (''sheet:a'', \<lparr>data = 1, timestamp = 0\<rparr>)]
             ''sheet:a'' 10) = Some 1
   \<and> snd (getCache [(''list'', \<lparr>data = 0::nat, timestamp = 0\<rparr>), (''sheet:a'', \<lparr>data = 1, timestamp = 0\<rparr>)]
             ''sheet:a'' 10)
       = [(''list'', \<lparr>data = 0::nat, timestamp = 0\<rparr>), (''sheet:a'', \<lparr>data = 1, timestamp = 0\<rparr>)]"
proof -
  let ?small = "[(''list'', \<lparr>data = 0::nat, timestamp = 0\<rparr>), (''sheet:a'', \<lparr>data = 1, timestamp = 0\<rparr>)]"
  have h1: "distinct (map fst full_cache)"
    by (simp add: full_cache_def comp_def distinct_map inj_on_def del: upt_rec_numeral)
  have h2: "length full_cache \<ge> MAX_CACHE_SIZE"
    by (simp add: full_cache_def MAX_CACHE_SIZE_def del: upt_rec_numeral)
  have h3: "''list'' \<notin> fst ` set full_cache"
    by (auto simp: full_cache_def simp del: upt_rec_numeral)
  have h4: "length ?small < MAX_CACHE_SIZE" by (simp add: MAX_CACHE_SIZE_def)
  have h5: "''list'' \<in> fst ` set ?small" by simp
  have h6: "fst (getCache ?small ''sheet:a'' 10) = Some 1"
    by (simp add: getCache_def CACHE_TTL_def)
  note T = C3_set_evicts_oldest [where cache = full_cache and key = "''list''" and d = 7 and now = 1
      and cache' = ?small and key' = "''list''" and d' = 5 and now' = 9
      and cache'' = ?small and key'' = "''sheet:a''" and t = 10 and w = 1]
  have b1: "setCache full_cache ''list'' 7 1 = tl full_cache @ [(''list'', \<lparr>data = 7, timestamp = 1\<rparr>)]"
    by (rule mp [OF mp [OF T [THEN conjunct1] conjI [OF h1 h2], THEN conjunct2] h3])
  have b2: "map fst (setCache ?small ''list'' 5 9) = map fst ?small"
    by (rule mp [OF T [THEN conjunct2, THEN conjunct1] conjI [OF h4 h5], THEN conjunct1])
  have b3: "snd (getCache ?small ''sheet:a'' 10) = ?small"
    by (rule mp [OF T [THEN conjunct2, THEN conjunct2] h6])
  from h1 h2 h3 b1 h4 b2 h6 b3 show ?thesis
    by - (intro conjI, assumption+)
qed

section \<open>Properties of the service workers\<close>

text \<open>The stores after a successful install, and after the roster was then fetched.\<close>

lemma installed_stores_eq:
  "installed_stores =
     \<lparr>static_store =
        [(''https://samakischool.app/'', index_page),
         (''https://samakischool.app/index.html'', index_page),
         (''https://samakischool.app/tracking.html'', index_page),
         (''https://samakischool.app/manifest.json'', index_page),
         (''https://cdn.jsdelivr.net/npm/bootstrap@5.3.0/dist/css/bootstrap.min.css'', stylesheet),
         (''https://cdnjs.cloudflare.com/ajax/libs/font-awesome/6.4.0/css/all.min.css'', stylesheet),
         (''https://fonts.googleapis.com/css2?family=Battambang:wght@300;400;600;700&family=Moul&display=swap'',
          stylesheet)],
      dynamic_store = [], api_store = [], quota_exceeded = False\<rparr>"
  by code_simp

lemma installed_stores_v1_eq:
  "installed_stores_v1 =
     \<lparr>static_v1 =
        [(''https://samakischool.app/'', index_page),
         (''https://samakischool.app/index.html'', index_page),
         (''https://samakischool.app/tracking.html'', index_page),
         (''https://cdn.jsdelivr.net/npm/bootstrap@5.3.0/dist/css/bootstrap.min.css'', stylesheet),
         (''https://cdnjs.cloudflare.com/ajax/libs/font-awesome/6.4.0/css/all.min.css'', stylesheet),
         (''https://cdn.jsdelivr.net/npm/chart.js'', stylesheet),
         (''https://cdn.jsdelivr.net/npm/bootstrap@5.3.0/dist/js/bootstrap.bundle.min.js'', stylesheet),
         (''https://fonts.googleapis.com/css2?family=Battambang:wght@100;300;400;700;900&family=Moul&family=Siemreap&display=swap'',
          stylesheet),
         (''https://upload.wikimedia.org/wikipedia/commons/4/4a/Emblem_of_the_Ministry_of_Education%2C_Youth_and_Sport_%28Cambodia%29.svg'',
          stylesheet)],
      dynamic_v1 = [], quota_exceeded_v1 = False\<rparr>"
  by code_simp

lemma stores_with_roster_eq:
  "stores_with_roster =
     installed_stores\<lparr>api_store := [(''https://samakischool.app/api/sheets?sheet=Roster'', roster_ok)]\<rparr>"
  by code_simp

lemma roster_request_accepted: "\<not> put_rejects False roster_request roster_ok"
  by code_simp

lemma roster_post_rejected: "put_rejects False roster_post roster_ok"
  by code_simp

text \<open>\<^verbatim>\<open>cache.put\<close> and \<^verbatim>\<open>cache.match\<close>.\<close>

lemma cache_put_Some:
  "cache_put full cache req r = Some cache' \<longleftrightarrow>
     \<not> put_rejects full req r \<and> cache' = map_set cache (url req) r"
  by (auto simp: cache_put_def)

lemma cache_put_None: "cache_put full cache req r = None \<longleftrightarrow> put_rejects full req r"
  by (simp add: cache_put_def)

lemma cache_put_accepted:
  "\<not> put_rejects full req r \<Longrightarrow> cache_put full cache req r = Some (map_set cache (url req) r)"
  by (simp add: cache_put_def)

lemma cache_match_after_put:
  "\<not> put_rejects full req r \<Longrightarrow> cache_match (map_set cache (url req) r) req = Some r"
  by (simp add: put_rejects_def cache_match_def update_conv')

lemma set_update_subset: "set (AList.update k v m) \<subseteq> insert (k, v) (set m)"
  by (induction m) auto

lemma cache_put_entries:
  "cache_put full cache req r = Some cache' \<Longrightarrow> e \<in> set cache' \<Longrightarrow> e \<in> set cache \<or> e = (url req, r)"
  using set_update_subset [of "url req" r cache] by (auto simp: cache_put_Some)

lemma all_200_update: "all_200 cache \<Longrightarrow> status r = 200 \<Longrightarrow> all_200 (map_set cache k r)"
  using set_update_subset [of k r cache] by (auto simp: all_200_def list_all_iff)

lemma all_200_match: "all_200 cache \<Longrightarrow> cache_match cache req = Some c \<Longrightarrow> status c = 200"
proof -
  assume a: "all_200 cache" and m: "cache_match cache req = Some c"
  from m have "(url req, c) \<in> set cache"
    by (auto simp: cache_match_def split: if_splits dest: map_of_SomeD)
  with a show ?thesis by (auto simp: all_200_def list_all_iff)
qed

text \<open>What the strategies write.\<close>

lemma new_entries_200_refl: "new_entries_200 caches caches"
  by (simp add: new_entries_200_def)

lemma new_entries_200_static:
  "status r = 200 \<Longrightarrow> cache_put full (static_store caches) req r = Some cache
     \<Longrightarrow> new_entries_200 caches (caches\<lparr>static_store := cache\<rparr>)"
  by (auto simp: new_entries_200_def dest: cache_put_entries)

lemma new_entries_200_dynamic:
  "status r = 200 \<Longrightarrow> cache_put full (dynamic_store caches) req r = Some cache
     \<Longrightarrow> new_entries_200 caches (caches\<lparr>dynamic_store := cache\<rparr>)"
  by (auto simp: new_entries_200_def dest: cache_put_entries)

lemma new_entries_200_api:
  "status r = 200 \<Longrightarrow> cache_put full (api_store caches) req r = Some cache
     \<Longrightarrow> new_entries_200 caches (caches\<lparr>api_store := cache\<rparr>)"
  by (auto simp: new_entries_200_def dest: cache_put_entries)

lemmas new_entries_200_intros =
  new_entries_200_refl new_entries_200_static new_entries_200_dynamic new_entries_200_api

lemma handleAPIRequest_writes: "new_entries_200 caches (snd (handleAPIRequest caches req net))"
  by (auto simp: handleAPIRequest_def Let_def intro: new_entries_200_intros
      split: fetch_outcome.splits option.splits)

lemma handleStaticRequest_writes: "new_entries_200 caches (snd (handleStaticRequest caches req net))"
  by (auto simp: handleStaticRequest_def Let_def intro: new_entries_200_intros
      split: fetch_outcome.splits option.splits)

lemma handleDocumentRequest_writes:
  "new_entries_200 caches (snd (handleDocumentRequest self_origin caches req net))"
  by (auto simp: handleDocumentRequest_def Let_def intro: new_entries_200_intros
      split: fetch_outcome.splits option.splits)

lemma handleDynamicRequest_writes: "new_entries_200 caches (snd (handleDynamicRequest caches req net))"
  by (auto simp: handleDynamicRequest_def Let_def intro: new_entries_200_intros
      split: fetch_outcome.splits option.splits)

lemma no_write_unless_200:
  assumes "\<not> fetched_200 net"
  shows "snd (handleAPIRequest caches req net) = caches"
    and "snd (handleStaticRequest caches req net) = caches"
    and "snd (handleDocumentRequest self_origin caches req net) = caches"
    and "snd (handleDynamicRequest caches req net) = caches"
  using assms
  by (simp_all add: fetched_200_def handleAPIRequest_def handleStaticRequest_def
      handleDocumentRequest_def handleDynamicRequest_def Let_def
      split: fetch_outcome.splits option.splits)

lemma no_write_when_put_rejects:
  assumes "put_rejects (quota_exceeded caches) req r"
  shows "snd (handleAPIRequest caches req (Fetched r)) = caches"
    and "snd (handleStaticRequest caches req (Fetched r)) = caches"
    and "snd (handleDocumentRequest self_origin caches req (Fetched r)) = caches"
    and "snd (handleDynamicRequest caches req (Fetched r)) = caches"
  using assms
  by (simp_all add: handleAPIRequest_def handleStaticRequest_def
      handleDocumentRequest_def handleDynamicRequest_def Let_def cache_put_def
      split: option.splits)

lemma write_when_200:
  assumes "status r = 200" and "\<not> put_rejects (quota_exceeded caches) req r"
  shows "handleAPIRequest caches req (Fetched r) =
           (Resolved (Some r), caches\<lparr>api_store := map_set (api_store caches) (url req) r\<rparr>)"
    and "handleDocumentRequest self_origin caches req (Fetched r) =
           (Resolved (Some r), caches\<lparr>dynamic_store := map_set (dynamic_store caches) (url req) r\<rparr>)"
    and "handleStaticRequest caches req (Fetched r) =
           (Resolved (Some (case cache_match (static_store caches) req of Some c \<Rightarrow> c | None \<Rightarrow> r)),
            caches\<lparr>static_store := map_set (static_store caches) (url req) r\<rparr>)"
    and "handleDynamicRequest caches req (Fetched r) =
           (Resolved (Some (case cache_match (dynamic_store caches) req of Some c \<Rightarrow> c | None \<Rightarrow> r)),
            caches\<lparr>dynamic_store := map_set (dynamic_store caches) (url req) r\<rparr>)"
  using assms
  by (simp_all add: handleAPIRequest_def handleStaticRequest_def
      handleDocumentRequest_def handleDynamicRequest_def Let_def cache_put_def
      split: option.splits)

lemma other_status_returned:
  assumes "status r \<noteq> 200"
  shows "handleAPIRequest caches req (Fetched r) = (Resolved (Some r), caches)"
    and "handleDocumentRequest self_origin caches req (Fetched r) = (Resolved (Some r), caches)"
    and "handleStaticRequest caches req (Fetched r) =
           (Resolved (Some (case cache_match (static_store caches) req of Some c \<Rightarrow> c | None \<Rightarrow> r)), caches)"
    and "handleDynamicRequest caches req (Fetched r) =
           (Resolved (Some (case cache_match (dynamic_store caches) req of Some c \<Rightarrow> c | None \<Rightarrow> r)), caches)"
  using assms
  by (simp_all add: handleAPIRequest_def handleStaticRequest_def
      handleDocumentRequest_def handleDynamicRequest_def Let_def split: option.splits)

text \<open>What the strategies answer when the fetch fails.\<close>

lemma new_Response_copy:
  "200 \<le> status c \<Longrightarrow> status c \<le> 599 \<Longrightarrow>
     new_Response (body c) (status c) (statusText c) hs = Some (c\<lparr>headers := hs\<rparr>)"
  by (simp add: new_Response_def)

lemma handleAPIRequest_failed_hit:
  assumes "cache_match (api_store caches) req = Some c" and "200 \<le> status c" and "status c \<le> 599"
  shows "handleAPIRequest caches req Failed =
           (Resolved (Some (c\<lparr>headers := headers_set (headers c) ''X-Cached'' ''true''\<rparr>)), caches)"
  using assms by (simp add: handleAPIRequest_def Let_def new_Response_copy)

lemma handleAPIRequest_failed_miss:
  assumes "cache_match (api_store caches) req = None"
  shows "handleAPIRequest caches req Failed = (Resolved (Some offline_api_response), caches)"
  using assms by (simp add: handleAPIRequest_def Let_def)

lemma handleAPIRequest_failed:
  assumes "all_200 (api_store caches)"
  shows "handleAPIRequest caches req Failed =
           (Resolved (Some (case cache_match (api_store caches) req of
                              Some c \<Rightarrow> c\<lparr>headers := headers_set (headers c) ''X-Cached'' ''true''\<rparr>
                            | None \<Rightarrow> offline_api_response)), caches)"
proof (cases "cache_match (api_store caches) req")
  case None
  then show ?thesis by (simp add: handleAPIRequest_failed_miss)
next
  case (Some c)
  with assms have "status c = 200" by (simp add: all_200_match)
  with Some show ?thesis by (simp add: handleAPIRequest_failed_hit)
qed

lemma failed_fetch_answer:
  shows "handleStaticRequest caches req Failed =
           (Resolved (Some (case cache_match (static_store caches) req of
                              Some c \<Rightarrow> c
                            | None \<Rightarrow> \<lparr>status = 503, statusText = [],
                                        headers = [(''Content-Type'', ''text/plain;charset=UTF-8'')],
                                        body = Phrase (Ascii ''Offline'')\<rparr>)), caches)"
    and "handleDynamicRequest caches req Failed =
           (Resolved (Some (case cache_match (dynamic_store caches) req of
                              Some c \<Rightarrow> c
                            | None \<Rightarrow> \<lparr>status = 503, statusText = [],
                                        headers = [(''Content-Type'', ''text/plain;charset=UTF-8'')],
                                        body = Phrase (Ascii ''Resource unavailable offline'')\<rparr>)), caches)"
    and "handleDocumentRequest self_origin caches req Failed =
           (Resolved (case cache_match (dynamic_store caches) req of
                        Some c \<Rightarrow> Some c
                      | None \<Rightarrow> cache_match_path self_origin (dynamic_store caches) ''/index.html''), caches)"
  by (simp_all add: handleStaticRequest_def handleDynamicRequest_def handleDocumentRequest_def Let_def
      split: option.splits)

text \<open>
  When the awaited \<^verbatim>\<open>cache.put\<close> rejects, a strategy without a cached copy answers a fetched
  200 response as it answers a failed fetch.
\<close>

lemma put_rejected_answer:
  assumes "status r = 200" and "put_rejects (quota_exceeded caches) req r"
  shows "handleAPIRequest caches req (Fetched r) = handleAPIRequest caches req Failed"
    and "handleDocumentRequest self_origin caches req (Fetched r)
           = handleDocumentRequest self_origin caches req Failed"
    and "cache_match (static_store caches) req = None \<Longrightarrow>
           handleStaticRequest caches req (Fetched r) = handleStaticRequest caches req Failed"
    and "cache_match (dynamic_store caches) req = None \<Longrightarrow>
           handleDynamicRequest caches req (Fetched r) = handleDynamicRequest caches req Failed"
  using assms
  by (simp_all add: handleAPIRequest_def handleStaticRequest_def
      handleDocumentRequest_def handleDynamicRequest_def Let_def cache_put_def)

lemma roster_post_answer:
  "handleAPIRequest installed_stores roster_post (Fetched roster_ok)
     = (Resolved (Some offline_api_response), installed_stores)"
  by code_simp

text \<open>
  C9. Whatever the stores, the request and the outcome of the fetch, each of the four
  strategies of src/sw.js leaves in the three stores only entries that were there before or
  whose response has status 200. When the fetch fails, resolves with any other status, or
  \<^verbatim>\<open>cache.put\<close> rejects, the stores are exactly as before; a response of status 200 that
  \<^verbatim>\<open>cache.put\<close> accepts is written under the URL of the request, into the API store, the
  static store or the dynamic store. A response of another status is returned to the page
  by the two network-first strategies, and by the two cache-first strategies unless they
  hold a cached copy, which they return instead. A failed fetch is answered with the cached
  copy or a synthesized 503 response by the API strategy and the two cache-first strategies.
  The document strategy answers it with the copy in the dynamic store, else with the root
  document in the dynamic store, else with \<^verbatim>\<open>undefined\<close>, which is neither: so it is right
  after install, when the root document is in the static store.
\<close>

theorem C9_only_status_200_is_stored:
  "new_entries_200 caches (snd (handleAPIRequest caches req net))
   \<and> new_entries_200 caches (snd (handleStaticRequest caches req net))
   \<and> new_entries_200 caches (snd (handleDocumentRequest self_origin caches req net))
   \<and> new_entries_200 caches (snd (handleDynamicRequest caches req net))
   \<and> (\<not> fetched_200 net' \<longrightarrow>
        snd (handleAPIRequest caches req net') = caches
        \<and> snd (handleStaticRequest caches req net') = caches
        \<and> snd (handleDocumentRequest self_origin caches req net') = caches
        \<and> snd (handleDynamicRequest caches req net') = caches)
   \<and> (put_rejects (quota_exceeded caches) req2 r2 \<longrightarrow>
        snd (handleAPIRequest caches req2 (Fetched r2)) = caches
        \<and> snd (handleStaticRequest caches req2 (Fetched r2)) = caches
        \<and> snd (handleDocumentRequest self_origin caches req2 (Fetched r2)) = caches
        \<and> snd (handleDynamicRequest caches req2 (Fetched r2)) = caches)
   \<and> (status r = 200 \<and> \<not> put_rejects (quota_exceeded caches) req r \<longrightarrow>
        handleAPIRequest caches req (Fetched r) =
          (Resolved (Some r), caches\<lparr>api_store := map_set (api_store caches) (url req) r\<rparr>)
        \<and> handleDocumentRequest self_origin caches req (Fetched r) =
          (Resolved (Some r), caches\<lparr>dynamic_store := map_set (dynamic_store caches) (url req) r\<rparr>)
        \<and> handleStaticRequest caches req (Fetched r) =
          (Resolved (Some (case cache_match (static_store caches) req of Some c \<Rightarrow> c | None \<Rightarrow> r)),
           caches\<lparr>static_store := map_set (static_store caches) (url req) r\<rparr>)
        \<and> handleDynamicRequest caches req (Fetched r) =
          (Resolved (Some (case cache_match (dynamic_store caches) req of Some c \<Rightarrow> c | None \<Rightarrow> r)),
           caches\<lparr>dynamic_store := map_set (dynamic_store caches) (url req) r\<rparr>))
   \<and> (status r' \<noteq> 200 \<longrightarrow>
        handleAPIRequest caches req (Fetched r') = (Resolved (Some r'), caches)
        \<and> handleDocumentRequest self_origin caches req (Fetched r') = (Resolved (Some r'), caches)
        \<and> handleStaticRequest caches req (Fetched r') =
          (Resolved (Some (case cache_match (static_store caches) req of Some c \<Rightarrow> c | None \<Rightarrow> r')), caches)
        \<and> handleDynamicRequest caches req (Fetched r') =
          (Resolved (Some (case cache_match (dynamic_store caches) req of Some c \<Rightarrow> c | None \<Rightarrow> r')), caches))
   \<and> (all_200 (api_store caches) \<longrightarrow>
        handleAPIRequest caches req Failed =
          (Resolved (Some (case cache_match (api_store caches) req of
                             Some c \<Rightarrow> c\<lparr>headers := headers_set (headers c) ''X-Cached'' ''true''\<rparr>
                           | None \<Rightarrow> offline_api_response)), caches))
   \<and> handleStaticRequest caches req Failed =
        (Resolved (Some (case cache_match (static_store caches) req of
                           Some c \<Rightarrow> c
                         | None \<Rightarrow> \<lparr>status = 503, statusText = [],
                                     headers = [(''Content-Type'', ''text/plain;charset=UTF-8'')],
                                     body = Phrase (Ascii ''Offline'')\<rparr>)), caches)
   \<and> handleDynamicRequest caches req Failed =
        (Resolved (Some (case cache_match (dynamic_store caches) req of
                           Some c \<Rightarrow> c
                         | None \<Rightarrow> \<lparr>status = 503, statusText = [],
                                     headers = [(''Content-Type'', ''text/plain;charset=UTF-8'')],
                                     body = Phrase (Ascii ''Resource unavailable offline'')\<rparr>)), caches)
   \<and> handleDocumentRequest self_origin caches req Failed =
        (Resolved (case cache_match (dynamic_store caches) req of
                     Some c \<Rightarrow> Some c
                   | None \<Rightarrow> cache_match_path self_origin (dynamic_store caches) ''/index.html''), caches)
   \<and> cache_match_path app_origin (static_store installed_stores) ''/index.html'' = Some index_page
   \<and> handleDocumentRequest app_origin installed_stores about_request Failed
       = (Resolved None, installed_stores)"
proof -
  have unchanged: "\<not> fetched_200 net' \<longrightarrow>
        snd (handleAPIRequest caches req net') = caches
        \<and> snd (handleStaticRequest caches req net') = caches
        \<and> snd (handleDocumentRequest self_origin caches req net') = caches
        \<and> snd (handleDynamicRequest caches req net') = caches"
    by (simp add: no_write_unless_200)
  have rejected: "put_rejects (quota_exceeded caches) req2 r2 \<longrightarrow>
        snd (handleAPIRequest caches req2 (Fetched r2)) = caches
        \<and> snd (handleStaticRequest caches req2 (Fetched r2)) = caches
        \<and> snd (handleDocumentRequest self_origin caches req2 (Fetched r2)) = caches
        \<and> snd (handleDynamicRequest caches req2 (Fetched r2)) = caches"
    by (simp add: no_write_when_put_rejects)
  have written: "status r = 200 \<and> \<not> put_rejects (quota_exceeded caches) req r \<longrightarrow>
        handleAPIRequest caches req (Fetched r) =
          (Resolved (Some r), caches\<lparr>api_store := map_set (api_store caches) (url req) r\<rparr>)
        \<and> handleDocumentRequest self_origin caches req (Fetched r) =
          (Resolved (Some r), caches\<lparr>dynamic_store := map_set (dynamic_store caches) (url req) r\<rparr>)
        \<and> handleStaticRequest caches req (Fetched r) =
          (Resolved (Some (case cache_match (static_store caches) req of Some c \<Rightarrow> c | None \<Rightarrow> r)),
           caches\<lparr>static_store := map_set (static_store caches) (url req) r\<rparr>)
        \<and> handleDynamicRequest caches req (Fetched r) =
          (Resolved (Some (case cache_match (dynamic_store caches) req of Some c \<Rightarrow> c | None \<Rightarrow> r)),
           caches\<lparr>dynamic_store := map_set (dynamic_store caches) (url req) r\<rparr>)"
    by (simp add: write_when_200)
  have returned: "status r' \<noteq> 200 \<longrightarrow>
        handleAPIRequest caches req (Fetched r') = (Resolved (Some r'), caches)
        \<and> handleDocumentRequest self_origin caches req (Fetched r') = (Resolved (Some r'), caches)
        \<and> handleStaticRequest caches req (Fetched r') =
          (Resolved (Some (case cache_match (static_store caches) req of Some c \<Rightarrow> c | None \<Rightarrow> r')), caches)
        \<and> handleDynamicRequest caches req (Fetched r') =
          (Resolved (Some (case cache_match (dynamic_store caches) req of Some c \<Rightarrow> c | None \<Rightarrow> r')), caches)"
    by (simp add: other_status_returned)
  have api: "all_200 (api_store caches) \<longrightarrow>
        handleAPIRequest caches req Failed =
          (Resolved (Some (case cache_match (api_store caches) req of
                             Some c \<Rightarrow> c\<lparr>headers := headers_set (headers c) ''X-Cached'' ''true''\<rparr>
                           | None \<Rightarrow> offline_api_response)), caches)"
    by (simp add: handleAPIRequest_failed)
  have root: "cache_match_path app_origin (static_store installed_stores) ''/index.html'' = Some index_page"
    by code_simp
  have undefined: "handleDocumentRequest app_origin installed_stores about_request Failed
       = (Resolved None, installed_stores)"
    by code_simp
  show ?thesis
    by (intro conjI; (fact unchanged rejected written returned api root undefined
          handleAPIRequest_writes handleStaticRequest_writes handleDocumentRequest_writes
          handleDynamicRequest_writes failed_fetch_answer))
qed

text \<open>
  With the roster in the API store: a 200 response for the roster is stored in the API store
  and returned; a 404 response for it is returned and leaves the stores as they were, as
  does a 200 response to a POST request, which \<^verbatim>\<open>cache.put\<close> refuses; when the fetch fails the
  API strategy answers with the stored copy.
\<close>

theorem C9_only_status_200_is_stored_witness:
  "\<not> fetched_200 (Fetched roster_missing)
   \<and> snd (handleAPIRequest stores_with_roster roster_request (Fetched roster_missing)) = stores_with_roster
   \<and> snd (handleStaticRequest stores_with_roster roster_request (Fetched roster_missing)) = stores_with_roster
   \<and> snd (handleDocumentRequest app_origin stores_with_roster roster_request (Fetched roster_missing))
       = stores_with_roster
   \<and> snd (handleDynamicRequest stores_with_roster roster_request (Fetched roster_missing)) = stores_with_roster
   \<and> put_rejects (quota_exceeded stores_with_roster) roster_post roster_ok
   \<and> snd (handleAPIRequest stores_with_roster roster_post (Fetched roster_ok)) = stores_with_roster
   \<and> status roster_ok = 200
   \<and> \<not> put_rejects (quota_exceeded stores_with_roster) roster_request roster_ok
   \<and> handleAPIRequest stores_with_roster roster_request (Fetched roster_ok) =
       (Resolved (Some roster_ok),
        stores_with_roster\<lparr>api_store :=
          map_set (api_store stores_with_roster) (url roster_request) roster_ok\<rparr>)
   \<and> handleDocumentRequest app_origin stores_with_roster roster_request (Fetched roster_ok) =
       (Resolved (Some roster_ok),
        stores_with_roster\<lparr>dynamic_store :=
          map_set (dynamic_store stores_with_roster) (url roster_request) roster_ok\<rparr>)
   \<and> status roster_missing \<noteq> 200
   \<and> handleAPIRequest stores_with_roster roster_request (Fetched roster_missing)
       = (Resolved (Some roster_missing), stores_with_roster)
   \<and> all_200 (api_store stores_with_roster)
   \<and> cache_match (api_store stores_with_roster) roster_request = Some roster_ok
   \<and> handleAPIRequest stores_with_roster roster_request Failed =
       (Resolved (Some (roster_ok\<lparr>headers := headers_set (headers roster_ok) ''X-Cached'' ''true''\<rparr>)),
        stores_with_roster)"
proof -
  note T = C9_only_status_200_is_stored [where caches = stores_with_roster and req = roster_request
      and net = "Fetched roster_ok" and net' = "Fetched roster_missing" and r = roster_ok
      and r' = roster_missing and ?req2.0 = roster_post and ?r2.0 = roster_ok
      and self_origin = app_origin]
  have h1: "\<not> fetched_200 (Fetched roster_missing)"
    by (simp add: fetched_200_def roster_missing_def)
  have h2: "put_rejects (quota_exceeded stores_with_roster) roster_post roster_ok"
    by code_simp
  have h3: "status roster_ok = 200" by (simp add: roster_ok_def)
  have h4: "\<not> put_rejects (quota_exceeded stores_with_roster) roster_request roster_ok"
    by code_simp
  have h5: "status roster_missing \<noteq> 200" by (simp add: roster_missing_def)
  have h6: "all_200 (api_store stores_with_roster)" by code_simp
  have h7: "cache_match (api_store stores_with_roster) roster_request = Some roster_ok" by code_simp
  from T h1 h2 h3 h4 h5 h6 h7 show ?thesis by simp
qed

text \<open>
  C7 (amended). A request that the listener of src/sw.js intercepts and whose path starts with
  \<^verbatim>\<open>/api/\<close> is handled by \<^verbatim>\<open>handleAPIRequest\<close>. When the fetch resolves with a status other
  than 200 it returns the network response and stores nothing; when the fetch resolves with
  status 200 and the API store accepts the copy, it stores the response, so that a later
  lookup of the request finds it, and returns the network response. When the fetch fails it
  returns the stored copy of the request with the header \<^verbatim>\<open>X-Cached: true\<close> added if there is
  one, and otherwise a synthesized JSON payload with status 503, a Khmer error message and
  \<^verbatim>\<open>offline: true\<close>. As long as the API store holds what this strategy has stored, responses
  of status 200, the strategy resolves with a response whatever the fetch and the store do,
  and the store stays so. The first worker (src/unnamed/part_000) never stores an API
  response: it returns the network response as it is and, on a failed fetch, always its
  synthesized offline payload.
\<close>

theorem C7_api_network_first:
  "(fetch_listener self_origin caches req net \<noteq> None \<and> startsWith (pathname req) ''/api/'' \<longrightarrow>
      fetch_listener self_origin caches req net = Some (handleAPIRequest caches req net))
   \<and> (status r = 200 \<and> \<not> put_rejects (quota_exceeded caches) req r \<longrightarrow>
        handleAPIRequest caches req (Fetched r)
          = (Resolved (Some r), caches\<lparr>api_store := map_set (api_store caches) (url req) r\<rparr>)
        \<and> cache_match (map_set (api_store caches) (url req) r) req = Some r)
   \<and> (status r' \<noteq> 200 \<longrightarrow> handleAPIRequest caches req (Fetched r') = (Resolved (Some r'), caches))
   \<and> (cache_match (api_store caches) req = Some c \<and> 200 \<le> status c \<and> status c \<le> 599 \<longrightarrow>
        handleAPIRequest caches req Failed
          = (Resolved (Some (c\<lparr>headers := headers_set (headers c) ''X-Cached'' ''true''\<rparr>)), caches))
   \<and> (cache_match (api_store caches') req = None \<longrightarrow>
        handleAPIRequest caches' req Failed = (Resolved (Some offline_api_response), caches'))
   \<and> (all_200 (api_store caches) \<longrightarrow>
        (\<exists>resp. fst (handleAPIRequest caches req net) = Resolved (Some resp))
        \<and> all_200 (api_store (snd (handleAPIRequest caches req net))))
   \<and> status offline_api_response = 503
   \<and> body offline_api_response =
        Stringified (JObject [(''error'', JString (Khmer ''the Internet has a problem'')),
                              (''offline'', JBool True), (''cached'', JBool False)])
   \<and> (startsWith (pathname req) ''/api/'' \<longrightarrow>
        fetch_listener_v1 self_origin caches1 req net
          = (Some (case net of Fetched n \<Rightarrow> n | Failed \<Rightarrow> offline_api_response_v1), caches1))
   \<and> body offline_api_response_v1 =
        Stringified (JObject [(''error'', JString (Khmer ''the Internet has a problem, please check your connection'')),
                              (''offline'', JBool True)])"
proof -
  have dispatch: "fetch_listener self_origin caches req net \<noteq> None \<and> startsWith (pathname req) ''/api/'' \<longrightarrow>
      fetch_listener self_origin caches req net = Some (handleAPIRequest caches req net)"
    by (simp add: fetch_listener_def)
  have stored: "status r = 200 \<and> \<not> put_rejects (quota_exceeded caches) req r \<longrightarrow>
        handleAPIRequest caches req (Fetched r)
          = (Resolved (Some r), caches\<lparr>api_store := map_set (api_store caches) (url req) r\<rparr>)
        \<and> cache_match (map_set (api_store caches) (url req) r) req = Some r"
    using cache_match_after_put [of "quota_exceeded caches" req r "api_store caches"]
    by (simp add: write_when_200)
  have other: "status r' \<noteq> 200 \<longrightarrow> handleAPIRequest caches req (Fetched r') = (Resolved (Some r'), caches)"
    by (simp add: other_status_returned)
  have hit: "cache_match (api_store caches) req = Some c \<and> 200 \<le> status c \<and> status c \<le> 599 \<longrightarrow>
        handleAPIRequest caches req Failed
          = (Resolved (Some (c\<lparr>headers := headers_set (headers c) ''X-Cached'' ''true''\<rparr>)), caches)"
    by (simp add: handleAPIRequest_failed_hit)
  have miss: "cache_match (api_store caches') req = None \<longrightarrow>
        handleAPIRequest caches' req Failed = (Resolved (Some offline_api_response), caches')"
    by (simp add: handleAPIRequest_failed_miss)
  have total: "all_200 (api_store caches) \<longrightarrow>
        (\<exists>resp. fst (handleAPIRequest caches req net) = Resolved (Some resp))
        \<and> all_200 (api_store (snd (handleAPIRequest caches req net)))"
  proof
    assume inv: "all_200 (api_store caches)"
    note failed = handleAPIRequest_failed [OF inv, of req]
    show "(\<exists>resp. fst (handleAPIRequest caches req net) = Resolved (Some resp))
        \<and> all_200 (api_store (snd (handleAPIRequest caches req net)))"
    proof (cases net)
      case Failed
      with failed inv show ?thesis by simp
    next
      case (Fetched n)
      show ?thesis
      proof (cases "status n = 200")
        case False
        with Fetched inv show ?thesis by (simp add: other_status_returned)
      next
        case True
        show ?thesis
        proof (cases "put_rejects (quota_exceeded caches) req n")
          case True
          with \<open>status n = 200\<close> Fetched failed inv show ?thesis
            by (simp add: put_rejected_answer)
        next
          case False
          with \<open>status n = 200\<close> Fetched inv show ?thesis
            by (simp add: write_when_200 all_200_update)
        qed
      qed
    qed
  qed
  have payload: "status offline_api_response = 503"
    "body offline_api_response =
        Stringified (JObject [(''error'', JString (Khmer ''the Internet has a problem'')),
                              (''offline'', JBool True), (''cached'', JBool False)])"
    "body offline_api_response_v1 =
        Stringified (JObject [(''error'', JString (Khmer ''the Internet has a problem, please check your connection'')),
                              (''offline'', JBool True)])"
    by (simp_all add: offline_api_response_def offline_api_response_v1_def)
  have first: "startsWith (pathname req) ''/api/'' \<longrightarrow>
        fetch_listener_v1 self_origin caches1 req net
          = (Some (case net of Fetched n \<Rightarrow> n | Failed \<Rightarrow> offline_api_response_v1), caches1)"
    by (simp add: fetch_listener_v1_def split: fetch_outcome.splits)
  show ?thesis
    by (intro conjI; (fact dispatch stored other hit miss total payload first))
qed

text \<open>
  The roster request with a stored copy, without one, and on the first worker.
\<close>

theorem C7_api_network_first_witness:
  "fetch_listener app_origin stores_with_roster roster_request Failed \<noteq> None
   \<and> startsWith (pathname roster_request) ''/api/''
   \<and> fetch_listener app_origin stores_with_roster roster_request Failed
       = Some (handleAPIRequest stores_with_roster roster_request Failed)
   \<and> status roster_ok = 200
   \<and> \<not> put_rejects (quota_exceeded stores_with_roster) roster_request roster_ok
   \<and> handleAPIRequest stores_with_roster roster_request (Fetched roster_ok)
       = (Resolved (Some roster_ok),
          stores_with_roster\<lparr>api_store :=
            map_set (api_store stores_with_roster) (url roster_request) roster_ok\<rparr>)
   \<and> status roster_missing \<noteq> 200
   \<and> handleAPIRequest stores_with_roster roster_request (Fetched roster_missing)
       = (Resolved (Some roster_missing), stores_with_roster)
   \<and> cache_match (api_store stores_with_roster) roster_request = Some roster_ok
   \<and> handleAPIRequest stores_with_roster roster_request Failed
       = (Resolved (Some (roster_ok\<lparr>headers := headers_set (headers roster_ok) ''X-Cached'' ''true''\<rparr>)),
          stores_with_roster)
   \<and> cache_match (api_store installed_stores) roster_request = None
   \<and> handleAPIRequest installed_stores roster_request Failed
       = (Resolved (Some offline_api_response), installed_stores)
   \<and> all_200 (api_store stores_with_roster)
   \<and> all_200 (api_store (snd (handleAPIRequest stores_with_roster roster_request Failed)))
   \<and> fetch_listener_v1 app_origin installed_stores_v1 roster_request Failed
       = (Some offline_api_response_v1, installed_stores_v1)"
proof -
  note T = C7_api_network_first [where self_origin = app_origin and caches = stores_with_roster
      and caches' = installed_stores and req = roster_request and net = Failed and r = roster_ok
      and r' = roster_missing and c = roster_ok and ?caches1.0 = installed_stores_v1]
  have h1: "fetch_listener app_origin stores_with_roster roster_request Failed \<noteq> None"
    by (simp add: fetch_listener_def roster_request_def app_origin_def)
  have h2: "startsWith (pathname roster_request) ''/api/''"
    by (simp add: startsWith_def roster_request_def)
  have h3: "status roster_ok = 200" "200 \<le> status roster_ok" "status roster_ok \<le> 599"
    by (simp_all add: roster_ok_def)
  have h4: "status roster_missing \<noteq> 200" by (simp add: roster_missing_def)
  have h5: "cache_match (api_store stores_with_roster) roster_request = Some roster_ok" by code_simp
  have h6: "cache_match (api_store installed_stores) roster_request = None" by code_simp
  have h7: "\<not> put_rejects (quota_exceeded stores_with_roster) roster_request roster_ok" by code_simp
  have h8: "all_200 (api_store stores_with_roster)" by code_simp
  from T h1 h2 h3 h4 h5 h6 h7 h8 show ?thesis by simp
qed

text \<open>
  The claim as stated fails on the first worker: a 200 response for the roster is not stored,
  and the same request on a failed fetch gets the synthesized offline payload.
\<close>

theorem C7_counterexample:
  "startsWith (pathname roster_request) ''/api/'' \<and> status roster_ok = 200
   \<and> snd (fetch_listener_v1 app_origin installed_stores_v1 roster_request (Fetched roster_ok))
       = installed_stores_v1
   \<and> caches_match_request_v1
        (snd (fetch_listener_v1 app_origin installed_stores_v1 roster_request (Fetched roster_ok)))
        roster_request = None
   \<and> fst (fetch_listener_v1 app_origin
             (snd (fetch_listener_v1 app_origin installed_stores_v1 roster_request (Fetched roster_ok)))
             roster_request Failed) = Some offline_api_response_v1"
  by code_simp

text \<open>
  C6. The claim does not hold of src/sw.js. \<open>installed_stores\<close> is what the install listener
  leaves when every asset is fetched: the root document is in the static store.
  \<^verbatim>\<open>handleDocumentRequest\<close> looks only in the dynamic store, so a document request with the
  network down resolves to \<^verbatim>\<open>undefined\<close>, for a page that is not cached and even for one that
  install cached. The first worker, which asks \<^verbatim>\<open>caches.match\<close> over all stores, returns the
  root document after its own install.
\<close>

theorem C6_document_fallback_skips_static_store:
  "cache_match_path app_origin (static_store installed_stores) ''/index.html'' = Some index_page
   \<and> fetch_listener app_origin installed_stores about_request Failed
       = Some (Resolved None, installed_stores)
   \<and> fetch_listener app_origin installed_stores tracking_request Failed
       = Some (Resolved None, installed_stores)
   \<and> fetch_listener_v1 app_origin installed_stores_v1 about_request Failed
       = (Some index_page, installed_stores_v1)"
  by code_simp

section \<open>Properties of the request handlers\<close>

lemma rate_limit_handler_rejected:
  assumes "\<not> allowed (fst (check limiter (rate_limit_identifier req) now))"
  shows "res_status (fst (rate_limit_handler limiter req now now')) = 429"
    and "res_body (fst (rate_limit_handler limiter req now now')) =
           Some (Body (JObject
             [(''error'', JString (Khmer ''please wait a moment, used too frequently'')),
              (''retryAfter'', JNumber (ceil_seconds (js_sub
                 (resetAt (fst (check limiter (rate_limit_identifier req) now))) now')))]))"
    and "snd (snd (rate_limit_handler limiter req now now')) = []"
  using assms by (simp_all add: rate_limit_handler_def Let_def split_beta)

lemma ceil_ms_window: "ceil_ms RATE_WINDOW = 60"
  by (simp add: ceil_ms_def RATE_WINDOW_def)

lemma handler_rejected:
  assumes "req_method req = ''GET''"
    and "\<not> fst (checkRateLimit (rate_limits st) (client_ip req) (at_check clk))"
  shows "handler stringify e clk up st req =
           (\<lparr>res_status = 429,
             res_headers = setHeader (cors_headers req) ''Retry-After'' (HNum 60),
             res_body = Some (Body (JObject
               [(''error'', JString (Khmer ''please wait a moment - used too frequently'')),
                (''retryAfter'', JNumber (Fin 60))]))\<rparr>, st, [])"
  using assms checkRateLimit_rejected [OF assms(2)]
  by (simp add: handler_def Let_def ceil_ms_window)

lemma sheets_handler_rejected:
  assumes "req_method req \<noteq> ''OPTIONS''"
    and "\<not> fst (sheets_checkRateLimit (rate_limit_map st) (sheets_client_ip req) (at_rate_limit clk))"
  shows "sheets_handler clk up st req =
           (\<lparr>res_status = 429, res_headers = sheets_cors_headers,
             res_body = Some (Body (JObject
               [(''error'', JString (Khmer ''too many users right now, please try again in an hour''))]))\<rparr>,
            st\<lparr>rate_limit_map :=
                  snd (sheets_checkRateLimit (rate_limit_map st) (sheets_client_ip req) (at_rate_limit clk))\<rparr>,
            [])"
  using assms by (simp add: sheets_handler_def Let_def split_beta)

lemma sheets_no_retry_after: "map_get sheets_cors_headers ''Retry-After'' = None"
  by (simp add: sheets_cors_headers_def setHeader_def)

text \<open>
  C4 (amended). A request whose client the rate limiter rejects is answered with status 429,
  and the handler does nothing to the TTL cache or the upstream: the trace of effects is
  empty and the cache is as before. For the endpoint of src/api/rate-limit.js the body
  carries \<^verbatim>\<open>retryAfter\<close>, the seconds from the handler's clock reading to the limiter's
  \<open>resetAt\<close>, rounded up. The consolidated handler (for a GET request; it answers other
  methods before the limiter is asked) sends \<^verbatim>\<open>Retry-After: 60\<close> and \<^verbatim>\<open>retryAfter: 60\<close>, the
  length of the window in seconds, whatever the window holds. The handler of
  src/api/sheets.js (for any method but OPTIONS) sends no retry-after at all.
\<close>

theorem C4_rejected_request:
  "(\<not> allowed (fst (check limiter (rate_limit_identifier req) now)) \<longrightarrow>
      res_status (fst (rate_limit_handler limiter req now now')) = 429
      \<and> res_body (fst (rate_limit_handler limiter req now now')) =
           Some (Body (JObject
             [(''error'', JString (Khmer ''please wait a moment, used too frequently'')),
              (''retryAfter'', JNumber (ceil_seconds (js_sub
                 (resetAt (fst (check limiter (rate_limit_identifier req) now))) now')))]))
      \<and> snd (snd (rate_limit_handler limiter req now now')) = [])
   \<and> (req_method req1 = ''GET''
       \<and> \<not> fst (checkRateLimit (rate_limits st) (client_ip req1) (at_check clk)) \<longrightarrow>
      res_status (fst (handler stringify e clk up st req1)) = 429
      \<and> map_get (res_headers (fst (handler stringify e clk up st req1))) ''Retry-After'' = Some (HNum 60)
      \<and> res_body (fst (handler stringify e clk up st req1)) =
           Some (Body (JObject
             [(''error'', JString (Khmer ''please wait a moment - used too frequently'')),
              (''retryAfter'', JNumber (Fin 60))]))
      \<and> snd (handler stringify e clk up st req1) = (st, []))
   \<and> (req_method req2 \<noteq> ''OPTIONS''
       \<and> \<not> fst (sheets_checkRateLimit (rate_limit_map sst) (sheets_client_ip req2) (at_rate_limit sclk)) \<longrightarrow>
      res_status (fst (sheets_handler sclk up' sst req2)) = 429
      \<and> map_get (res_headers (fst (sheets_handler sclk up' sst req2))) ''Retry-After'' = None
      \<and> res_body (fst (sheets_handler sclk up' sst req2)) =
           Some (Body (JObject
             [(''error'', JString (Khmer ''too many users right now, please try again in an hour''))]))
      \<and> server_cache (fst (snd (sheets_handler sclk up' sst req2))) = server_cache sst
      \<and> snd (snd (sheets_handler sclk up' sst req2)) = [])"
proof (intro conjI impI)
  assume a: "\<not> allowed (fst (check limiter (rate_limit_identifier req) now))"
  from rate_limit_handler_rejected [OF a]
  show "res_status (fst (rate_limit_handler limiter req now now')) = 429"
    and "res_body (fst (rate_limit_handler limiter req now now')) =
           Some (Body (JObject
             [(''error'', JString (Khmer ''please wait a moment, used too frequently'')),
              (''retryAfter'', JNumber (ceil_seconds (js_sub
                 (resetAt (fst (check limiter (rate_limit_identifier req) now))) now')))]))"
    and "snd (snd (rate_limit_handler limiter req now now')) = []"
    by simp_all
next
  assume a: "req_method req1 = ''GET''
       \<and> \<not> fst (checkRateLimit (rate_limits st) (client_ip req1) (at_check clk))"
  then have h: "handler stringify e clk up st req1 =
           (\<lparr>res_status = 429,
             res_headers = setHeader (cors_headers req1) ''Retry-After'' (HNum 60),
             res_body = Some (Body (JObject
               [(''error'', JString (Khmer ''please wait a moment - used too frequently'')),
                (''retryAfter'', JNumber (Fin 60))]))\<rparr>, st, [])"
    using handler_rejected by blast
  show "res_status (fst (handler stringify e clk up st req1)) = 429"
    and "map_get (res_headers (fst (handler stringify e clk up st req1))) ''Retry-After'' = Some (HNum 60)"
    and "res_body (fst (handler stringify e clk up st req1)) =
           Some (Body (JObject
             [(''error'', JString (Khmer ''please wait a moment - used too frequently'')),
              (''retryAfter'', JNumber (Fin 60))]))"
    and "snd (handler stringify e clk up st req1) = (st, [])"
    by (simp_all add: h setHeader_def update_conv')
next
  assume a: "req_method req2 \<noteq> ''OPTIONS''
       \<and> \<not> fst (sheets_checkRateLimit (rate_limit_map sst) (sheets_client_ip req2) (at_rate_limit sclk))"
  then have h: "sheets_handler sclk up' sst req2 =
           (\<lparr>res_status = 429, res_headers = sheets_cors_headers,
             res_body = Some (Body (JObject
               [(''error'', JString (Khmer ''too many users right now, please try again in an hour''))]))\<rparr>,
            sst\<lparr>rate_limit_map :=
                  snd (sheets_checkRateLimit (rate_limit_map sst) (sheets_client_ip req2) (at_rate_limit sclk))\<rparr>,
            [])"
    using sheets_handler_rejected by blast
  show "res_status (fst (sheets_handler sclk up' sst req2)) = 429"
    and "map_get (res_headers (fst (sheets_handler sclk up' sst req2))) ''Retry-After'' = None"
    and "res_body (fst (sheets_handler sclk up' sst req2)) =
           Some (Body (JObject
             [(''error'', JString (Khmer ''too many users right now, please try again in an hour''))]))"
    and "server_cache (fst (snd (sheets_handler sclk up' sst req2))) = server_cache sst"
    and "snd (snd (sheets_handler sclk up' sst req2)) = []"
    by (simp_all add: h sheets_no_retry_after)
qed

text \<open>
  The claim as stated fails at the request \<open>roster_get\<close>, received at time 59999 from a client
  with thirty requests at time 0: the handler of src/api/sheets.js answers 429 with no
  retry-after, and the consolidated handler answers \<^verbatim>\<open>Retry-After: 60\<close>, where the limiter
  class on the same window gives \<open>resetAt = 60000\<close>, one millisecond ahead, that is 1 second.
\<close>

theorem C4_counterexample:
  "res_status (fst (sheets_handler (sheets_clock_at 59999) (NetworkError ''unused'') sheets_busy_state roster_get)) = 429
   \<and> map_get (res_headers (fst (sheets_handler (sheets_clock_at 59999) (NetworkError ''unused'')
          sheets_busy_state roster_get))) ''Retry-After'' = None
   \<and> res_body (fst (sheets_handler (sheets_clock_at 59999) (NetworkError ''unused'') sheets_busy_state roster_get))
       = Some (Body (JObject
           [(''error'', JString (Khmer ''too many users right now, please try again in an hour''))]))
   \<and> res_status (fst (handler (\<lambda>d. []) prod_env (clock_at 59999) (NetworkError ''unused'') busy_state roster_get)) = 429
   \<and> map_get (res_headers (fst (handler (\<lambda>d. []) prod_env (clock_at 59999) (NetworkError ''unused'')
          busy_state roster_get))) ''Retry-After'' = Some (HNum 60)
   \<and> fst (check busy_limiter ''203.0.113.9'' 59999) = \<lparr>allowed = False, remaining = 0, resetAt = Fin 60000\<rparr>
   \<and> ceil_seconds (js_sub (Fin 60000) 59999) = Fin 1"
  by code_simp

text \<open>The same rejected request on the three handlers.\<close>

theorem C4_rejected_request_witness:
  "\<not> allowed (fst (check busy_limiter (rate_limit_identifier roster_get) 59999))
   \<and> res_status (fst (rate_limit_handler busy_limiter roster_get 59999 59999)) = 429
   \<and> res_body (fst (rate_limit_handler busy_limiter roster_get 59999 59999)) =
           Some (Body (JObject
             [(''error'', JString (Khmer ''please wait a moment, used too frequently'')),
              (''retryAfter'', JNumber (ceil_seconds (js_sub
                 (resetAt (fst (check busy_limiter (rate_limit_identifier roster_get) 59999))) 59999)))]))
   \<and> req_method roster_get = ''GET''
   \<and> \<not> fst (checkRateLimit (rate_limits busy_state) (client_ip roster_get) (at_check (clock_at 59999)))
   \<and> res_status (fst (handler (\<lambda>d. []) prod_env (clock_at 59999) (NetworkError ''unused'') busy_state roster_get)) = 429
   \<and> snd (handler (\<lambda>d. []) prod_env (clock_at 59999) (NetworkError ''unused'') busy_state roster_get)
       = (busy_state, [])
   \<and> req_method roster_get \<noteq> ''OPTIONS''
   \<and> \<not> fst (sheets_checkRateLimit (rate_limit_map sheets_busy_state) (sheets_client_ip roster_get)
              (at_rate_limit (sheets_clock_at 59999)))
   \<and> res_status (fst (sheets_handler (sheets_clock_at 59999) (NetworkError ''unused'') sheets_busy_state roster_get)) = 429
   \<and> snd (snd (sheets_handler (sheets_clock_at 59999) (NetworkError ''unused'') sheets_busy_state roster_get)) = []"
proof -
  have h1: "\<not> allowed (fst (check busy_limiter (rate_limit_identifier roster_get) 59999))"
    by code_simp
  have h2: "req_method roster_get = ''GET''" by (simp add: roster_get_def)
  have h3: "\<not> fst (checkRateLimit (rate_limits busy_state) (client_ip roster_get) (at_check (clock_at 59999)))"
    by code_simp
  have h4: "req_method roster_get \<noteq> ''OPTIONS''" by (simp add: roster_get_def)
  have h5: "\<not> fst (sheets_checkRateLimit (rate_limit_map sheets_busy_state) (sheets_client_ip roster_get)
              (at_rate_limit (sheets_clock_at 59999)))"
    by code_simp
  note T = C4_rejected_request [where limiter = busy_limiter and req = roster_get and now = 59999
      and now' = 59999 and ?req1.0 = roster_get and st = busy_state and clk = "clock_at 59999"
      and stringify = "\<lambda>d. []" and e = prod_env and up = "NetworkError ''unused''"
      and ?req2.0 = roster_get and sst = sheets_busy_state and sclk = "sheets_clock_at 59999"
      and up' = "NetworkError ''unused''"]
  from T h1 h2 h3 h4 h5 show ?thesis by simp
qed

lemma fold_delete_subset:
  "set (foldl (\<lambda>m (key, v). if P v then AList.delete key m else m) c es) \<subseteq> set c"
proof (induction es arbitrary: c)
  case Nil
  then show ?case by simp
next
  case (Cons x es)
  obtain k v where x: "x = (k, v)" by (cases x)
  have "set (AList.delete k c) \<subseteq> set c" by (auto simp: AList.delete_eq)
  then have "set (if P v then AList.delete k c else c) \<subseteq> set c" by simp
  with Cons [of "if P v then AList.delete k c else c"]
  have "set (foldl (\<lambda>m (key, v). if P v then AList.delete key m else m)
          (if P v then AList.delete k c else c) es) \<subseteq> set c"
    by (rule subset_trans)
  then show ?case by (simp add: x)
qed

lemma fold_delete_None:
  "map_of c k = None \<Longrightarrow>
   map_of (foldl (\<lambda>m (key, v). if P v then AList.delete key m else m) c es) k = None"
proof (induction es arbitrary: c)
  case Nil
  then show ?case by simp
next
  case (Cons x es)
  obtain k' v where x: "x = (k', v)" by (cases x)
  from Cons.prems have "map_of (AList.delete k' c) k = None" by (simp add: delete_conv')
  with Cons.prems Cons.IH [of "if P v then AList.delete k' c else c"] show ?case
    by (auto simp: x)
qed

lemma cleanExpiredCache_subset: "set (cleanExpiredCache c t) \<subseteq> set c"
  unfolding cleanExpiredCache_def by (rule fold_delete_subset)

lemma cleanExpiredCache_None: "map_get c k = None \<Longrightarrow> map_get (cleanExpiredCache c t) k = None"
  unfolding cleanExpiredCache_def by (rule fold_delete_None)

lemma handler_bad_request:
  assumes "passes_rate_limit clk st req" "configured e"
    and "query_action req \<noteq> Some ''list''" "\<not> truthy (query_sheet req)"
  shows "res_status (fst (handler stringify e clk up st req)) = 400"
    and "snd (snd (handler stringify e clk up st req)) = []"
    and "ttl_cache (fst (snd (handler stringify e clk up st req))) = ttl_cache st"
  using assms
  by (simp_all add: handler_def Let_def split_beta passes_rate_limit_def configured_def)

lemma handler_unconfigured:
  assumes "passes_rate_limit clk st req" "\<not> configured e"
  shows "res_status (fst (handler stringify e clk up st req)) = 500"
    and "res_body (fst (handler stringify e clk up st req)) =
           Some (Body (JObject [(''error'', JString (Ascii ''Server configuration error''))]))"
    and "snd (snd (handler stringify e clk up st req)) = []"
    and "ttl_cache (fst (snd (handler stringify e clk up st req))) = ttl_cache st"
  using assms
  by (auto simp add: handler_def Let_def split_beta passes_rate_limit_def configured_def)

lemma sheets_handler_bad_request:
  assumes "sheets_passes_rate_limit clk st req"
    and "query_action req \<noteq> Some ''list''" "\<not> truthy (query_sheet req)"
  shows "res_status (fst (sheets_handler clk up st req)) = 400"
    and "snd (snd (sheets_handler clk up st req)) = [CacheSweep]"
    and "server_cache (fst (snd (sheets_handler clk up st req))) = cleanExpiredCache (server_cache st) (at_clean clk)"
  using assms
  by (simp_all add: sheets_handler_def Let_def split_beta sheets_passes_rate_limit_def)

text \<open>
  C8 (amended). A request that passes the rate limit and has neither \<^verbatim>\<open>action=list\<close> nor a
  non-empty \<^verbatim>\<open>sheet\<close> is answered with status 400, without a fetch and without a write to the
  TTL cache: by the consolidated handler when the credentials are configured (trace empty,
  cache as before), and by the handler of src/api/sheets.js after its sweep of expired
  entries, which only removes entries. When the key or the spreadsheet id is not
  configured, the consolidated handler answers such a request, like any other admitted GET
  request, with status 500 and \<^verbatim>\<open>Server configuration error\<close>.
\<close>

theorem C8_missing_parameters:
  "(passes_rate_limit clk st req \<and> configured e \<and> query_action req \<noteq> Some ''list''
      \<and> \<not> truthy (query_sheet req) \<longrightarrow>
      res_status (fst (handler stringify e clk up st req)) = 400
      \<and> snd (snd (handler stringify e clk up st req)) = []
      \<and> ttl_cache (fst (snd (handler stringify e clk up st req))) = ttl_cache st)
   \<and> (passes_rate_limit clk1 st1 req1 \<and> \<not> configured e1 \<longrightarrow>
      res_status (fst (handler stringify e1 clk1 up st1 req1)) = 500
      \<and> res_body (fst (handler stringify e1 clk1 up st1 req1)) =
           Some (Body (JObject [(''error'', JString (Ascii ''Server configuration error''))]))
      \<and> snd (snd (handler stringify e1 clk1 up st1 req1)) = []
      \<and> ttl_cache (fst (snd (handler stringify e1 clk1 up st1 req1))) = ttl_cache st1)
   \<and> (sheets_passes_rate_limit sclk sst req2 \<and> query_action req2 \<noteq> Some ''list''
      \<and> \<not> truthy (query_sheet req2) \<longrightarrow>
      res_status (fst (sheets_handler sclk up' sst req2)) = 400
      \<and> snd (snd (sheets_handler sclk up' sst req2)) = [CacheSweep]
      \<and> server_cache (fst (snd (sheets_handler sclk up' sst req2)))
          = cleanExpiredCache (server_cache sst) (at_clean sclk)
      \<and> set (server_cache (fst (snd (sheets_handler sclk up' sst req2)))) \<subseteq> set (server_cache sst))"
  using handler_bad_request [of clk st req e stringify up]
    handler_unconfigured [of clk1 st1 req1 e1 stringify up]
    sheets_handler_bad_request [of sclk sst req2 up']
    cleanExpiredCache_subset [of "server_cache sst" "at_clean sclk"]
  by (intro conjI impI) simp_all

text \<open>
  The claim as stated fails on the consolidated handler without an API key: the admitted GET
  request \<open>bare_get\<close>, which has no parameters, gets status 500.
\<close>

theorem C8_counterexample:
  "req_method bare_get \<noteq> ''OPTIONS''
   \<and> passes_rate_limit (clock_at 0) fresh_state bare_get
   \<and> query_action bare_get \<noteq> Some ''list'' \<and> \<not> truthy (query_sheet bare_get)
   \<and> res_status (fst (handler (\<lambda>d. []) unconfigured_env (clock_at 0) (NetworkError ''unused'')
                        fresh_state bare_get)) = 500"
  by code_simp

text \<open>The request without parameters on a fresh state, configured and not.\<close>

theorem C8_missing_parameters_witness:
  "passes_rate_limit (clock_at 0) fresh_state bare_get \<and> configured prod_env
   \<and> query_action bare_get \<noteq> Some ''list'' \<and> \<not> truthy (query_sheet bare_get)
   \<and> res_status (fst (handler (\<lambda>d. []) prod_env (clock_at 0) (NetworkError ''unused'') fresh_state bare_get)) = 400
   \<and> snd (snd (handler (\<lambda>d. []) prod_env (clock_at 0) (NetworkError ''unused'') fresh_state bare_get)) = []
   \<and> \<not> configured unconfigured_env
   \<and> res_status (fst (handler (\<lambda>d. []) unconfigured_env (clock_at 0) (NetworkError ''unused'') fresh_state bare_get)) = 500
   \<and> sheets_passes_rate_limit (sheets_clock_at 0) sheets_fresh_state bare_get
   \<and> res_status (fst (sheets_handler (sheets_clock_at 0) (NetworkError ''unused'') sheets_fresh_state bare_get)) = 400
   \<and> snd (snd (sheets_handler (sheets_clock_at 0) (NetworkError ''unused'') sheets_fresh_state bare_get)) = [CacheSweep]"
proof -
  have h1: "passes_rate_limit (clock_at 0) fresh_state bare_get" by code_simp
  have h2: "configured prod_env" by code_simp
  have h3: "query_action bare_get \<noteq> Some ''list''" by (simp add: bare_get_def)
  have h4: "\<not> truthy (query_sheet bare_get)" by (simp add: bare_get_def truthy_def)
  have h5: "\<not> configured unconfigured_env" by code_simp
  have h6: "sheets_passes_rate_limit (sheets_clock_at 0) sheets_fresh_state bare_get" by code_simp
  note T = C8_missing_parameters [where clk = "clock_at 0" and st = fresh_state and req = bare_get
      and e = prod_env and stringify = "\<lambda>d. []" and up = "NetworkError ''unused''"
      and ?clk1.0 = "clock_at 0" and ?st1.0 = fresh_state and ?req1.0 = bare_get and ?e1.0 = unconfigured_env
      and sclk = "sheets_clock_at 0" and sst = sheets_fresh_state and ?req2.0 = bare_get
      and up' = "NetworkError ''unused''"]
  from T h1 h2 h3 h4 h5 h6 show ?thesis by simp
qed

lemma serve_fetch_failure:
  assumes "cache_misses (ttl_cache st) k (at_get clk)" and "fetchFromGoogleSheets up = Inl m"
  shows "serve e clk up hs st k ep respond =
           (error_reply e hs m, st\<lparr>ttl_cache := snd (getCache (ttl_cache st) k (at_get clk))\<rparr>,
            [CacheRead k, UpstreamFetch ep])"
  using assms
  by (auto simp: serve_def cache_misses_def split_beta split: option.splits)

lemma handler_fetch_failure:
  assumes "reaches_fetch e clk st req" and "fetchFromGoogleSheets up = Inl m"
  shows "fst (handler stringify e clk up st req) = error_reply e (cors_headers req) m"
proof (cases "query_action req = Some ''list''")
  case True
  with assms(1) have miss: "cache_misses (ttl_cache (st\<lparr>rate_limits :=
        snd (checkRateLimit (rate_limits st) (client_ip req) (at_check clk))\<rparr>)) ''list'' (at_get clk)"
    by (simp add: reaches_fetch_def)
  from assms(1) True show ?thesis
    by (simp add: handler_def Let_def split_beta reaches_fetch_def passes_rate_limit_def configured_def
        getCacheKey_def serve_fetch_failure [OF miss assms(2)])
next
  case False
  let ?sheet = "or_literal (query_sheet req) []"
  from False assms(1) have miss: "cache_misses (ttl_cache (st\<lparr>rate_limits :=
        snd (checkRateLimit (rate_limits st) (client_ip req) (at_check clk))\<rparr>)) (''sheet:'' @ ?sheet) (at_get clk)"
    by (simp add: reaches_fetch_def)
  note sv = serve_fetch_failure [OF miss assms(2)]
  from assms(1) False sv show ?thesis
    by (simp add: handler_def Let_def split_beta reaches_fetch_def passes_rate_limit_def configured_def
        getCacheKey_def)
qed

lemma error_reply_status:
  "res_status (error_reply e hs m) =
     (if str_includes m ''404'' then 404
      else if str_includes m ''403'' \<or> str_includes m ''401'' then 403
      else if str_includes m ''ECONNREFUSED'' \<or> str_includes m ''ETIMEDOUT'' then 503
      else 500)"
  by (simp add: error_reply_def)

lemma decimal_statuses: "decimal 404 = ''404''" "decimal 403 = ''403''" "decimal 401 = ''401''"
  by code_simp+

lemma fetch_rejected_message:
  "\<not> response_ok code \<Longrightarrow>
     fetchFromGoogleSheets (HttpReply code answer dec) = Inl (''Google Sheets API error: '' @ decimal code @ '' - '' @ answer)"
  by (simp add: fetchFromGoogleSheets_def)

lemma message_404: "str_includes (''Google Sheets API error: '' @ ''404'' @ '' - '' @ answer) ''404''"
  unfolding str_includes_def by (rule sublist_appendI)

lemma message_403:
  "str_includes (''Google Sheets API error: '' @ ''403'' @ '' - '' @ answer) ''403''"
  "\<not> str_includes answer ''404'' \<Longrightarrow> \<not> str_includes (''Google Sheets API error: '' @ ''403'' @ '' - '' @ answer) ''404''"
  unfolding str_includes_def by (simp_all add: sublist_Cons_right)

lemma message_401:
  "str_includes (''Google Sheets API error: '' @ ''401'' @ '' - '' @ answer) ''401''"
  "\<not> str_includes answer ''404'' \<Longrightarrow> \<not> str_includes (''Google Sheets API error: '' @ ''401'' @ '' - '' @ answer) ''404''"
  unfolding str_includes_def by (simp_all add: sublist_Cons_right)

lemma handler_upstream_404:
  assumes "reaches_fetch e clk st req"
  shows "res_status (fst (handler stringify e clk (HttpReply 404 answer dec) st req)) = 404"
proof -
  have "\<not> response_ok 404" by (simp add: response_ok_def)
  note msg = fetch_rejected_message [OF this]
  from handler_fetch_failure [OF assms msg] message_404 [of answer]
  show ?thesis by (simp add: error_reply_status decimal_statuses)
qed

lemma handler_upstream_denied:
  assumes "reaches_fetch e clk st req" and "code = 401 \<or> code = 403" and "\<not> str_includes answer ''404''"
  shows "res_status (fst (handler stringify e clk (HttpReply code answer dec) st req)) = 403"
proof -
  from assms(2) have "\<not> response_ok code" by (auto simp: response_ok_def)
  note msg = fetch_rejected_message [OF this]
  note h = handler_fetch_failure [OF assms(1) msg]
  from assms(2) show ?thesis
  proof
    assume "code = 401"
    with h message_401 [of answer] assms(3) show ?thesis
      by (simp add: error_reply_status decimal_statuses)
  next
    assume "code = 403"
    with h message_403 [of answer] assms(3) show ?thesis
      by (simp add: error_reply_status decimal_statuses)
  qed
qed

lemma handler_network_error:
  assumes "reaches_fetch e clk st req"
  shows "res_status (fst (handler stringify e clk (NetworkError m) st req)) =
           res_status (error_reply e (cors_headers req) m)"
proof -
  have "fetchFromGoogleSheets (NetworkError m) = Inl m" by (simp add: fetchFromGoogleSheets_def)
  from handler_fetch_failure [OF assms this] show ?thesis by simp
qed

lemma handler_trace:
  assumes "shows_fetch (snd (snd (handler stringify e clk up st req)))"
  shows "reaches_fetch e clk st req"
  using assms
  by (auto simp: handler_def Let_def split_beta serve_def finish_def shows_fetch_def
      reaches_fetch_def passes_rate_limit_def configured_def cache_misses_def getCacheKey_def
      split: if_splits option.splits sum.splits)

lemma sheets_fetch_fails:
  "fetch_fails up \<Longrightarrow> \<exists>m. sheets_fetch up failure = Inl m"
  by (auto simp: fetch_fails_def sheets_fetch_def isl_def split: upstream.splits)

lemma sheets_reply_failure:
  assumes "shows_fetch (snd (snd (sheets_reply clk hs st k ep (Inl m) listing)))"
  shows "fst (sheets_reply clk hs st k ep (Inl m) listing) =
           \<lparr>res_status = 500, res_headers = hs,
            res_body = Some (Body (JObject
              [(''error'', JString (Khmer ''the data cannot be fetched'')),
               (''details'', JString (Ascii m))]))\<rparr>"
  using assms
  by (auto simp: sheets_reply_def getCachedData_def shows_fetch_def Let_def
      split: option.splits if_splits)

lemma sheets_handler_fetch_failure:
  assumes "shows_fetch (snd (snd (sheets_handler clk up st req)))" and "fetch_fails up"
  shows "res_status (fst (sheets_handler clk up st req)) = 500"
proof -
  let ?list = "''Failed to fetch sheet names from Google Sheets''"
  let ?sheet = "or_literal (query_sheet req) []"
  let ?one = "''Failed to fetch sheet \"'' @ ?sheet @ ''\" from Google Sheets''"
  from sheets_fetch_fails [OF assms(2)] obtain m where m: "sheets_fetch up ?list = Inl m" by blast
  from sheets_fetch_fails [OF assms(2)] obtain m' where m': "sheets_fetch up ?one = Inl m'" by blast
  from assms(1) m m' show ?thesis
    by (auto simp: sheets_handler_def Let_def split_beta shows_fetch_def [of "[]"]
        shows_fetch_def [of "[CacheSweep]"] sheets_reply_failure split: if_splits)
qed

text \<open>
  C5 (amended). Whenever the handler of src/api/sheets.js has called the upstream and the call
  failed, whether rejected, answered with a status that is not \<^verbatim>\<open>ok\<close> or with a body that
  cannot be read, it answers with status 500. Whenever the consolidated handler has called
  the upstream: an upstream status 404 gives the not-found response, with status 404; an
  upstream status 401 or 403 whose body text does not contain \<^verbatim>\<open>404\<close> gives the
  permission-denied response, with status 403; an answer of the upstream that makes the call
  fail with a message containing none of \<^verbatim>\<open>404\<close>, \<^verbatim>\<open>403\<close>, \<^verbatim>\<open>401\<close>, \<^verbatim>\<open>ECONNREFUSED\<close> and
  \<^verbatim>\<open>ETIMEDOUT\<close> gives the generic response, with status 500.
\<close>

theorem C5_failure_mapping:
  "(shows_fetch (snd (snd (sheets_handler sclk up4 sst sreq))) \<and> fetch_fails up4 \<longrightarrow>
      res_status (fst (sheets_handler sclk up4 sst sreq)) = 500)
   \<and> (shows_fetch (snd (snd (handler stringify e clk (HttpReply 404 answer dec) st req))) \<longrightarrow>
        fst (handler stringify e clk (HttpReply 404 answer dec) st req) =
          \<lparr>res_status = 404, res_headers = cors_headers req,
           res_body = Some (Body (JObject
             [(''error'', JString (Khmer ''this sheet was not found'')),
              (''details'', JString (Ascii ''Sheet not found''))]))\<rparr>)
   \<and> (shows_fetch (snd (snd (handler stringify e clk (HttpReply code answer' dec') st req)))
       \<and> (code = 401 \<or> code = 403) \<and> \<not> str_includes answer' ''404'' \<longrightarrow>
        fst (handler stringify e clk (HttpReply code answer' dec') st req) =
          \<lparr>res_status = 403, res_headers = cors_headers req,
           res_body = Some (Body (JObject
             [(''error'', JString (Khmer ''no permission to access'')),
              (''details'', JString (Ascii ''Permission denied or invalid API key''))]))\<rparr>)
   \<and> (shows_fetch (snd (snd (handler stringify e clk (HttpReply code2 answer2 dec2) st req)))
       \<and> fetchFromGoogleSheets (HttpReply code2 answer2 dec2) = Inl m
       \<and> \<not> str_includes m ''404'' \<and> \<not> str_includes m ''403'' \<and> \<not> str_includes m ''401''
       \<and> \<not> str_includes m ''ECONNREFUSED'' \<and> \<not> str_includes m ''ETIMEDOUT'' \<longrightarrow>
        fst (handler stringify e clk (HttpReply code2 answer2 dec2) st req) =
          \<lparr>res_status = 500, res_headers = cors_headers req,
           res_body = Some (Body (JObject
             [(''error'', JString (Khmer ''there is a problem fetching the data'')),
              (''details'', JString (Ascii (if NODE_ENV e = Some ''development'' then m
                                            else ''Internal server error'')))]))\<rparr>)"
proof -
  have sheets: "shows_fetch (snd (snd (sheets_handler sclk up4 sst sreq))) \<and> fetch_fails up4 \<longrightarrow>
      res_status (fst (sheets_handler sclk up4 sst sreq)) = 500"
    by (simp add: sheets_handler_fetch_failure)
  have missing: "shows_fetch (snd (snd (handler stringify e clk (HttpReply 404 answer dec) st req))) \<longrightarrow>
        fst (handler stringify e clk (HttpReply 404 answer dec) st req) =
          \<lparr>res_status = 404, res_headers = cors_headers req,
           res_body = Some (Body (JObject
             [(''error'', JString (Khmer ''this sheet was not found'')),
              (''details'', JString (Ascii ''Sheet not found''))]))\<rparr>"
  proof
    assume "shows_fetch (snd (snd (handler stringify e clk (HttpReply 404 answer dec) st req)))"
    then have r: "reaches_fetch e clk st req" by (rule handler_trace)
    have "\<not> response_ok 404" by (simp add: response_ok_def)
    note msg = fetch_rejected_message [OF this]
    from handler_fetch_failure [OF r msg] message_404 [of answer]
    show "fst (handler stringify e clk (HttpReply 404 answer dec) st req) =
          \<lparr>res_status = 404, res_headers = cors_headers req,
           res_body = Some (Body (JObject
             [(''error'', JString (Khmer ''this sheet was not found'')),
              (''details'', JString (Ascii ''Sheet not found''))]))\<rparr>"
      by (simp add: error_reply_def decimal_statuses)
  qed
  have denied: "shows_fetch (snd (snd (handler stringify e clk (HttpReply code answer' dec') st req)))
       \<and> (code = 401 \<or> code = 403) \<and> \<not> str_includes answer' ''404'' \<longrightarrow>
        fst (handler stringify e clk (HttpReply code answer' dec') st req) =
          \<lparr>res_status = 403, res_headers = cors_headers req,
           res_body = Some (Body (JObject
             [(''error'', JString (Khmer ''no permission to access'')),
              (''details'', JString (Ascii ''Permission denied or invalid API key''))]))\<rparr>"
  proof
    assume a: "shows_fetch (snd (snd (handler stringify e clk (HttpReply code answer' dec') st req)))
       \<and> (code = 401 \<or> code = 403) \<and> \<not> str_includes answer' ''404''"
    then have "shows_fetch (snd (snd (handler stringify e clk (HttpReply code answer' dec') st req)))"
      by simp
    then have r: "reaches_fetch e clk st req" by (rule handler_trace)
    from a have "\<not> response_ok code" by (auto simp: response_ok_def)
    note msg = fetch_rejected_message [OF this]
    note h = handler_fetch_failure [OF r msg]
    from a have "code = 401 \<or> code = 403" by simp
    then show "fst (handler stringify e clk (HttpReply code answer' dec') st req) =
          \<lparr>res_status = 403, res_headers = cors_headers req,
           res_body = Some (Body (JObject
             [(''error'', JString (Khmer ''no permission to access'')),
              (''details'', JString (Ascii ''Permission denied or invalid API key''))]))\<rparr>"
    proof
      assume "code = 401"
      with h message_401 [of answer'] a show ?thesis
        by (simp add: error_reply_def decimal_statuses)
    next
      assume "code = 403"
      with h message_403 [of answer'] a show ?thesis
        by (simp add: error_reply_def decimal_statuses)
    qed
  qed
  have generic: "shows_fetch (snd (snd (handler stringify e clk (HttpReply code2 answer2 dec2) st req)))
       \<and> fetchFromGoogleSheets (HttpReply code2 answer2 dec2) = Inl m
       \<and> \<not> str_includes m ''404'' \<and> \<not> str_includes m ''403'' \<and> \<not> str_includes m ''401''
       \<and> \<not> str_includes m ''ECONNREFUSED'' \<and> \<not> str_includes m ''ETIMEDOUT'' \<longrightarrow>
        fst (handler stringify e clk (HttpReply code2 answer2 dec2) st req) =
          \<lparr>res_status = 500, res_headers = cors_headers req,
           res_body = Some (Body (JObject
             [(''error'', JString (Khmer ''there is a problem fetching the data'')),
              (''details'', JString (Ascii (if NODE_ENV e = Some ''development'' then m
                                            else ''Internal server error'')))]))\<rparr>"
  proof
    assume a: "shows_fetch (snd (snd (handler stringify e clk (HttpReply code2 answer2 dec2) st req)))
       \<and> fetchFromGoogleSheets (HttpReply code2 answer2 dec2) = Inl m
       \<and> \<not> str_includes m ''404'' \<and> \<not> str_includes m ''403'' \<and> \<not> str_includes m ''401''
       \<and> \<not> str_includes m ''ECONNREFUSED'' \<and> \<not> str_includes m ''ETIMEDOUT''"
    then have "shows_fetch (snd (snd (handler stringify e clk (HttpReply code2 answer2 dec2) st req)))"
      by simp
    then have r: "reaches_fetch e clk st req" by (rule handler_trace)
    from a have msg: "fetchFromGoogleSheets (HttpReply code2 answer2 dec2) = Inl m" by simp
    from handler_fetch_failure [OF r msg] a
    show "fst (handler stringify e clk (HttpReply code2 answer2 dec2) st req) =
          \<lparr>res_status = 500, res_headers = cors_headers req,
           res_body = Some (Body (JObject
             [(''error'', JString (Khmer ''there is a problem fetching the data'')),
              (''details'', JString (Ascii (if NODE_ENV e = Some ''development'' then m
                                            else ''Internal server error'')))]))\<rparr>"
      by (simp add: error_reply_def)
  qed
  show ?thesis
    by (intro conjI; (fact sheets missing denied generic))
qed

text \<open>
  The claim as stated fails. On src/api/sheets.js an upstream 404 gives status 500, as does
  a refused connection. On the consolidated handler a refused connection, which \<^verbatim>\<open>fetch\<close>
  reports with the message \<^verbatim>\<open>fetch failed\<close>, gives 500, and an upstream 403 whose body text
  contains \<^verbatim>\<open>404\<close> gives 404.
\<close>

theorem C5_counterexample:
  "shows_fetch (snd (snd (sheets_handler (sheets_clock_at 0) (HttpReply 404 ''Not Found'' (Inl []))
                            sheets_fresh_state roster_get)))
   \<and> res_status (fst (sheets_handler (sheets_clock_at 0) (HttpReply 404 ''Not Found'' (Inl []))
                        sheets_fresh_state roster_get)) = 500
   \<and> res_status (fst (sheets_handler (sheets_clock_at 0) (NetworkError ''fetch failed'')
                        sheets_fresh_state roster_get)) = 500
   \<and> shows_fetch (snd (snd (handler (\<lambda>d. []) prod_env (clock_at 0) (NetworkError ''fetch failed'')
                              fresh_state roster_get)))
   \<and> res_status (fst (handler (\<lambda>d. []) prod_env (clock_at 0) (NetworkError ''fetch failed'')
                        fresh_state roster_get)) = 500
   \<and> res_status (fst (handler (\<lambda>d. []) prod_env (clock_at 0)
                        (HttpReply 403 ''quota exceeded for project 404123'' (Inl []))
                        fresh_state roster_get)) = 404"
  by code_simp

text \<open>
  The roster request: on src/api/sheets.js with an entry that has just expired and an
  upstream 404, and on the consolidated handler with an upstream 404, 403 and 500.
\<close>

theorem C5_failure_mapping_witness:
  "shows_fetch (snd (snd (sheets_handler (sheets_clock_at 300000) (HttpReply 404 ''Not Found'' (Inl []))
                            sheets_stale_state roster_get)))
   \<and> fetch_fails (HttpReply 404 ''Not Found'' (Inl []))
   \<and> res_status (fst (sheets_handler (sheets_clock_at 300000) (HttpReply 404 ''Not Found'' (Inl []))
                        sheets_stale_state roster_get)) = 500
   \<and> shows_fetch (snd (snd (handler (\<lambda>d. []) prod_env (clock_at 0) (HttpReply 404 ''Not Found'' (Inl []))
                              fresh_state roster_get)))
   \<and> res_status (fst (handler (\<lambda>d. []) prod_env (clock_at 0) (HttpReply 404 ''Not Found'' (Inl []))
                        fresh_state roster_get)) = 404
   \<and> shows_fetch (snd (snd (handler (\<lambda>d. []) prod_env (clock_at 0)
                              (HttpReply 403 ''PERMISSION_DENIED'' (Inl [])) fresh_state roster_get)))
   \<and> \<not> str_includes ''PERMISSION_DENIED'' ''404''
   \<and> res_status (fst (handler (\<lambda>d. []) prod_env (clock_at 0) (HttpReply 403 ''PERMISSION_DENIED'' (Inl []))
                        fresh_state roster_get)) = 403
   \<and> shows_fetch (snd (snd (handler (\<lambda>d. []) prod_env (clock_at 0)
                              (HttpReply 500 ''Internal error encountered.'' (Inl [])) fresh_state roster_get)))
   \<and> fetchFromGoogleSheets (HttpReply 500 ''Internal error encountered.'' (Inl []))
       = Inl ''Google Sheets API error: 500 - Internal error encountered.''
   \<and> res_status (fst (handler (\<lambda>d. []) prod_env (clock_at 0)
                        (HttpReply 500 ''Internal error encountered.'' (Inl [])) fresh_state roster_get)) = 500"
proof -
  let ?m = "''Google Sheets API error: 500 - Internal error encountered.''"
  have h1: "shows_fetch (snd (snd (sheets_handler (sheets_clock_at 300000)
                (HttpReply 404 ''Not Found'' (Inl [])) sheets_stale_state roster_get)))" by code_simp
  have h2: "fetch_fails (HttpReply 404 ''Not Found'' (Inl []))" by code_simp
  have h3: "shows_fetch (snd (snd (handler (\<lambda>d. []) prod_env (clock_at 0)
                (HttpReply 404 ''Not Found'' (Inl [])) fresh_state roster_get)))" by code_simp
  have h4: "shows_fetch (snd (snd (handler (\<lambda>d. []) prod_env (clock_at 0)
                (HttpReply 403 ''PERMISSION_DENIED'' (Inl [])) fresh_state roster_get)))" by code_simp
  have h5: "\<not> str_includes ''PERMISSION_DENIED'' ''404''" by code_simp
  have h6: "shows_fetch (snd (snd (handler (\<lambda>d. []) prod_env (clock_at 0)
                (HttpReply 500 ''Internal error encountered.'' (Inl [])) fresh_state roster_get)))"
    by code_simp
  have h7: "fetchFromGoogleSheets (HttpReply 500 ''Internal error encountered.'' (Inl [])) = Inl ?m"
    by code_simp
  have h8: "\<not> str_includes ?m ''404''" "\<not> str_includes ?m ''403''" "\<not> str_includes ?m ''401''"
    "\<not> str_includes ?m ''ECONNREFUSED''" "\<not> str_includes ?m ''ETIMEDOUT''" by code_simp+
  note T = C5_failure_mapping [where e = prod_env and clk = "clock_at 0" and st = fresh_state
      and req = roster_get and stringify = "\<lambda>d. []" and answer = "''Not Found''" and dec = "Inl []"
      and code = 403 and answer' = "''PERMISSION_DENIED''" and dec' = "Inl []"
      and ?code2.0 = 500 and ?answer2.0 = "''Internal error encountered.''" and ?dec2.0 = "Inl []"
      and m = ?m and sclk = "sheets_clock_at 300000"
      and sst = sheets_stale_state and sreq = roster_get and ?up4.0 = "HttpReply 404 ''Not Found'' (Inl [])"]
  from T h1 h2 h3 h4 h5 h6 h7 h8 show ?thesis by simp
qed

end
